(* ===== verification/Rkt_Prelude.thy ===== *)
theory Rkt_Prelude
  imports Main "HOL-Library.Sublist"
begin

text \<open>
  Shared vocabulary of the development. The first part models what the Go sources
  use of their standard library on strings (\<^verbatim>\<open>strings\<close>, \<^verbatim>\<open>strconv\<close>,
  \<^verbatim>\<open>path/filepath\<close>). The second part fixes how effects are written: an operation is a
  function from a state to a state and an outcome, and an outcome is a value or a
  reason to stop (an error that is returned, a panic, or a call that blocks).
\<close>

named_theorems go_simps \<open>equations of the Go library functions\<close>
named_theorems io_elims
named_theorems io_simps \<open>equations that run the outcome combinators\<close>

section \<open>Strings\<close>

text \<open>\<^verbatim>\<open>strings.HasPrefix(s, p)\<close> and \<^verbatim>\<open>strings.HasSuffix(s, p)\<close>.\<close>

definition hasPrefix :: "string \<Rightarrow> string \<Rightarrow> bool" where
  "hasPrefix s p \<longleftrightarrow> take (length p) s = p"

definition hasSuffix :: "string \<Rightarrow> string \<Rightarrow> bool" where
  "hasSuffix s p \<longleftrightarrow> length p \<le> length s \<and> drop (length s - length p) s = p"

text \<open>\<^verbatim>\<open>strings.TrimSuffix(s, p)\<close> and \<^verbatim>\<open>strings.TrimPrefix(s, p)\<close>.\<close>

definition trimSuffix :: "string \<Rightarrow> string \<Rightarrow> string" where
  "trimSuffix s p = (if hasSuffix s p then take (length s - length p) s else s)"

definition trimPrefix :: "string \<Rightarrow> string \<Rightarrow> string" where
  "trimPrefix s p = (if hasPrefix s p then drop (length p) s else s)"

text \<open>\<^verbatim>\<open>strings.Split(s, c)\<close> for a separator of one character: never empty.\<close>

fun splitOn :: "char \<Rightarrow> string \<Rightarrow> string list" where
  "splitOn c [] = [[]]"
| "splitOn c (x # xs) =
     (if x = c then [] # splitOn c xs
      else (case splitOn c xs of [] \<Rightarrow> [[x]] | w # ws \<Rightarrow> (x # w) # ws))"

text \<open>\<^verbatim>\<open>strings.SplitN(s, c, 2)\<close>: at most two pieces, cut at the first separator.\<close>

fun splitN2 :: "char \<Rightarrow> string \<Rightarrow> string list" where
  "splitN2 c [] = [[]]"
| "splitN2 c (x # xs) =
     (if x = c then [[], xs]
      else (case splitN2 c xs of [] \<Rightarrow> [[x]] | w # ws \<Rightarrow> (x # w) # ws))"

text \<open>\<^verbatim>\<open>strings.Join(xs, sep)\<close>.\<close>

fun joinWith :: "string \<Rightarrow> string list \<Rightarrow> string" where
  "joinWith sep [] = []"
| "joinWith sep [x] = x"
| "joinWith sep (x # y # ys) = x @ sep @ joinWith sep (y # ys)"

text \<open>
  \<^verbatim>\<open>strings.ToLower\<close> on the ASCII letters (the sources apply it to UUIDs, HTTP attribute
  names, option values and names that are then restricted to ASCII).
\<close>

definition lowerChar :: "char \<Rightarrow> char" where
  "lowerChar c =
     (if 65 \<le> (of_char c :: nat) \<and> (of_char c :: nat) \<le> 90 then char_of ((of_char c :: nat) + 32) else c)"

definition toLower :: "string \<Rightarrow> string" where
  "toLower s = map lowerChar s"

text \<open>\<^verbatim>\<open>strings.Replace(s, c, r, -1)\<close> for a pattern of one character.\<close>

definition replaceChar :: "char \<Rightarrow> string \<Rightarrow> string \<Rightarrow> string" where
  "replaceChar c r s = concat (map (\<lambda>x. if x = c then r else [x]) s)"

text \<open>
  \<^verbatim>\<open>strings.Replace(s, p, r, -1)\<close> for a pattern that is not empty, and \<^verbatim>\<open>strings.TrimSpace\<close> on the white
  space of ASCII.
\<close>

fun replaceAll :: "string \<Rightarrow> string \<Rightarrow> string \<Rightarrow> string" where
  "replaceAll p r [] = []"
| "replaceAll p r (c # s) =
     (if p \<noteq> [] \<and> hasPrefix (c # s) p then r @ replaceAll p r (drop (length p - 1) s) else c # replaceAll p r s)"

definition isSpaceByte :: "char \<Rightarrow> bool" where
  "isSpaceByte c \<longleftrightarrow> of_char c \<in> {9 :: nat, 10, 11, 12, 13, 32}"

definition trimSpace :: "string \<Rightarrow> string" where
  "trimSpace s = rev (dropWhile isSpaceByte (rev (dropWhile isSpaceByte s)))"

definition isDigit :: "char \<Rightarrow> bool" where
  "isDigit c \<longleftrightarrow> 48 \<le> (of_char c :: nat) \<and> (of_char c :: nat) \<le> 57"

definition digitVal :: "char \<Rightarrow> nat" where
  "digitVal c = (of_char c :: nat) - 48"

definition digitChar :: "nat \<Rightarrow> char" where
  "digitChar n = char_of (48 + n)"

text \<open>\<^verbatim>\<open>strconv.Itoa\<close> on a number that is not negative, and the value of a digit string.\<close>

fun itoa :: "nat \<Rightarrow> string" where
  "itoa n = (if n < 10 then [digitChar n] else itoa (n div 10) @ [digitChar (n mod 10)])"

declare itoa.simps [simp del]

definition decVal :: "string \<Rightarrow> nat" where
  "decVal s = foldl (\<lambda>a c. 10 * a + digitVal c) 0 s"

definition isDecimal :: "string \<Rightarrow> bool" where
  "isDecimal s \<longleftrightarrow> s \<noteq> [] \<and> list_all isDigit s"

text \<open>
  \<^verbatim>\<open>strconv.ParseUint(s, 10, bits)\<close>: decimal digits only and a value below \<open>2 ^ bits\<close>;
  \<^verbatim>\<open>strconv.Atoi(s)\<close>: an optional sign, then digits, in the range of a 64-bit \<^verbatim>\<open>int\<close>.
\<close>

definition parseUint :: "nat \<Rightarrow> string \<Rightarrow> nat option" where
  "parseUint bits s = (if isDecimal s \<and> decVal s < 2 ^ bits then Some (decVal s) else None)"

definition atoi :: "string \<Rightarrow> int option" where
  "atoi s =
     (case s of
        [] \<Rightarrow> None
      | c # cs \<Rightarrow>
          (if c = CHR ''-'' then
             (if isDecimal cs \<and> decVal cs \<le> 2 ^ 63 then Some (- int (decVal cs)) else None)
           else
             (let ds = (if c = CHR ''+'' then cs else s)
              in if isDecimal ds \<and> decVal ds < 2 ^ 63 then Some (int (decVal ds)) else None)))"

subsection \<open>Facts about strings\<close>

lemma hasPrefix_iff [go_simps]: "hasPrefix s p \<longleftrightarrow> (\<exists>t. s = p @ t)"
proof
  assume "hasPrefix s p"
  then have "s = p @ drop (length p) s"
    by (metis append_take_drop_id hasPrefix_def)
  then show "\<exists>t. s = p @ t" by blast
qed (auto simp: hasPrefix_def)

lemma hasPrefix_refl [simp]: "hasPrefix s s"
  by (simp add: hasPrefix_def)

lemma hasPrefix_append [simp]: "hasPrefix (p @ s) p"
  by (simp add: hasPrefix_def)

lemma hasPrefix_trans: "hasPrefix s t \<Longrightarrow> hasPrefix t p \<Longrightarrow> hasPrefix s p"
  by (auto simp: hasPrefix_iff)

lemma hasSuffix_iff [go_simps]: "hasSuffix s p \<longleftrightarrow> (\<exists>t. s = t @ p)"
proof
  assume h: "hasSuffix s p"
  then have "s = take (length s - length p) s @ p"
    by (metis append_take_drop_id hasSuffix_def)
  then show "\<exists>t. s = t @ p" by blast
qed (auto simp: hasSuffix_def)

lemma trimSuffix_append [simp]: "trimSuffix (s @ p) p = s"
  by (simp add: trimSuffix_def hasSuffix_def)

lemma splitOn_nonempty [simp]: "splitOn c s \<noteq> []"
  by (induction s) (auto split: list.splits)

lemma joinWith_cons: "joinWith sep (x # ys) = (if ys = [] then x else x @ sep @ joinWith sep ys)"
  by (cases ys) auto

lemma joinWith_splitOn: "joinWith [c] (splitOn c s) = s"
proof (induction s)
  case Nil
  then show ?case by simp
next
  case (Cons x xs)
  obtain w ws where w: "splitOn c xs = w # ws"
    by (cases "splitOn c xs") auto
  with Cons.IH show ?case
    by (auto simp: joinWith_cons split: if_splits)
qed

lemma splitOn_no_sep: "c \<notin> set s \<Longrightarrow> splitOn c s = [s]"
  by (induction s) auto

lemma splitOn_pieces: "w \<in> set (splitOn c s) \<Longrightarrow> c \<notin> set w"
proof (induction s arbitrary: w)
  case Nil
  then show ?case by simp
next
  case (Cons x xs)
  obtain v vs where v: "splitOn c xs = v # vs"
    by (cases "splitOn c xs") auto
  show ?case
  proof (cases "x = c")
    case True
    with Cons show ?thesis by auto
  next
    case False
    with Cons v show ?thesis by auto
  qed
qed

lemma splitOn_append: "c \<notin> set a \<Longrightarrow> splitOn c (a @ c # b) = a # splitOn c b"
  by (induction a) auto

lemma splitOn_joinWith:
  "ws \<noteq> [] \<Longrightarrow> (\<And>w. w \<in> set ws \<Longrightarrow> c \<notin> set w) \<Longrightarrow> splitOn c (joinWith [c] ws) = ws"
proof (induction ws)
  case Nil
  then show ?case by simp
next
  case (Cons w ws)
  then show ?case
    by (cases ws) (auto simp: splitOn_no_sep splitOn_append)
qed

lemma splitN2_no_sep: "c \<notin> set s \<Longrightarrow> splitN2 c s = [s]"
  by (induction s) auto

lemma splitN2_append: "c \<notin> set a \<Longrightarrow> splitN2 c (a @ c # b) = [a, b]"
  by (induction a) auto

lemma splitN2_cases:
  "(c \<notin> set s \<and> splitN2 c s = [s]) \<or> (\<exists>a b. s = a @ c # b \<and> c \<notin> set a \<and> splitN2 c s = [a, b])"
proof (cases "c \<in> set s")
  case True
  then obtain a b where "s = a @ c # b" "c \<notin> set a"
    by (meson split_list_first)
  then show ?thesis using splitN2_append by blast
qed (simp add: splitN2_no_sep)

lemma of_char_digitChar: "n < 10 \<Longrightarrow> (of_char (digitChar n) :: nat) = 48 + n"
  by (simp add: digitChar_def)

lemma digitVal_digitChar [simp]: "n < 10 \<Longrightarrow> digitVal (digitChar n) = n"
  by (simp add: digitVal_def of_char_digitChar)

lemma isDigit_digitChar [simp]: "n < 10 \<Longrightarrow> isDigit (digitChar n)"
  by (simp add: isDigit_def of_char_digitChar)

lemma itoa_digits: "list_all isDigit (itoa n)"
proof (induction n rule: itoa.induct)
  case (1 n)
  then show ?case by (subst itoa.simps) (auto)
qed

lemma itoa_nonempty [simp]: "itoa n \<noteq> []"
  by (subst itoa.simps) simp

lemma isDecimal_itoa [simp]: "isDecimal (itoa n)"
  by (simp add: isDecimal_def itoa_digits)

lemma decVal_snoc: "decVal (s @ [c]) = 10 * decVal s + digitVal c"
  by (simp add: decVal_def)

lemma decVal_itoa [simp]: "decVal (itoa n) = n"
proof (induction n rule: itoa.induct)
  case (1 n)
  show ?case
  proof (cases "n < 10")
    case True
    then show ?thesis by (subst itoa.simps) (simp add: decVal_def)
  next
    case False
    with 1 have "decVal (itoa (n div 10)) = n div 10" by simp
    with False show ?thesis
      by (subst itoa.simps) (simp add: decVal_snoc)
  qed
qed

lemma parseUint_itoa: "n < 2 ^ bits \<Longrightarrow> parseUint bits (itoa n) = Some n"
  by (simp add: parseUint_def)

lemma parseUint_bound: "parseUint bits s = Some n \<Longrightarrow> n < 2 ^ bits"
  by (auto simp: parseUint_def split: if_splits)

lemma itoa_no_char: "\<not> isDigit c \<Longrightarrow> c \<notin> set (itoa n)"
  using itoa_digits by (auto simp: list_all_iff)

lemma atoi_itoa: "n < 2 ^ 63 \<Longrightarrow> atoi (itoa n) = Some (int n)"
proof -
  assume "n < 2 ^ 63"
  obtain c cs where cs: "itoa n = c # cs" by (cases "itoa n") auto
  then have "isDigit c" using itoa_digits [of n] by simp
  then have "c \<noteq> CHR ''-''" "c \<noteq> CHR ''+''" by (auto simp: isDigit_def)
  then show ?thesis using \<open>n < 2 ^ 63\<close> cs isDecimal_itoa [of n] decVal_itoa [of n] by (simp add: atoi_def Let_def)
qed

lemma itoa_inj: "itoa m = itoa n \<Longrightarrow> m = n"
  by (metis decVal_itoa)

section \<open>Outcomes\<close>

text \<open>
  Why a Go call does not hand a value back: it returns an error, it panics, or it waits
  for a lock that another open file holds. \<open>'e\<close> is the component's type of errors.
\<close>

datatype 'e stop = Fail 'e | Panic string | Block

type_synonym ('s, 'e, 'a) io = "'s \<Rightarrow> 's \<times> ('e stop + 'a)"

definition ret :: "'a \<Rightarrow> ('s, 'e, 'a) io" where
  "ret a s = (s, Inr a)"

definition stop :: "'e stop \<Rightarrow> ('s, 'e, 'a) io" where
  "stop e s = (s, Inl e)"

abbreviation fail :: "'e \<Rightarrow> ('s, 'e, 'a) io" where
  "fail e \<equiv> stop (Fail e)"

abbreviation panic :: "string \<Rightarrow> ('s, 'e, 'a) io" where
  "panic m \<equiv> stop (Panic m)"

text \<open>Sequencing with the early return of \<^verbatim>\<open>if err != nil { return err }\<close>.\<close>

definition bindIO :: "('s, 'e, 'a) io \<Rightarrow> ('a \<Rightarrow> ('s, 'e, 'b) io) \<Rightarrow> ('s, 'e, 'b) io" where
  "bindIO m f s = (case m s of (s', Inl e) \<Rightarrow> (s', Inl e) | (s', Inr a) \<Rightarrow> f a s')"

text \<open>A call whose error is inspected: the continuation receives the error or the value.\<close>

definition tryIO :: "('s, 'e, 'a) io \<Rightarrow> ('e + 'a \<Rightarrow> ('s, 'e, 'b) io) \<Rightarrow> ('s, 'e, 'b) io" where
  "tryIO m f s =
     (case m s of
        (s', Inl (Fail e)) \<Rightarrow> f (Inl e) s'
      | (s', Inl (Panic p)) \<Rightarrow> (s', Inl (Panic p))
      | (s', Inl Block) \<Rightarrow> (s', Inl Block)
      | (s', Inr a) \<Rightarrow> f (Inr a) s')"

text \<open>The guard \<^verbatim>\<open>if !b { return e }\<close>.\<close>

definition guardIO :: "bool \<Rightarrow> 'e \<Rightarrow> ('s, 'e, unit) io" where
  "guardIO b e = (if b then ret () else fail e)"

text \<open>A deferred call: it runs whatever happened, and its own error is dropped.\<close>

definition deferring :: "('s, 'e, 'b) io \<Rightarrow> ('s, 'e, 'a) io \<Rightarrow> ('s, 'e, 'a) io" where
  "deferring c m s =
     (case m s of
        (s1, r) \<Rightarrow>
          (case c s1 of
             (s2, Inl (Panic p)) \<Rightarrow> (s2, Inl (Panic p))
           | (s2, Inl Block) \<Rightarrow> (s2, Inl Block)
           | (s2, _) \<Rightarrow> (s2, r)))"

lemma ret_run [io_simps]: "ret a s = (s, Inr a)"
  by (simp add: ret_def)

lemma stop_run [io_simps]: "stop e s = (s, Inl e)"
  by (simp add: stop_def)

lemma bindIO_run [io_simps]:
  "bindIO m f s = (case m s of (s', Inl e) \<Rightarrow> (s', Inl e) | (s', Inr a) \<Rightarrow> f a s')"
  by (simp add: bindIO_def)

lemma tryIO_run [io_simps]:
  "tryIO m f s =
     (case m s of
        (s', Inl (Fail e)) \<Rightarrow> f (Inl e) s'
      | (s', Inl (Panic p)) \<Rightarrow> (s', Inl (Panic p))
      | (s', Inl Block) \<Rightarrow> (s', Inl Block)
      | (s', Inr a) \<Rightarrow> f (Inr a) s')"
  by (simp add: tryIO_def)

lemma guardIO_run [io_simps]: "guardIO b e s = (s, if b then Inr () else Inl (Fail e))"
  by (simp add: guardIO_def ret_def stop_def)

lemma bindIO_ret: "bindIO (ret a) f = f a"
  by (simp add: fun_eq_iff io_simps)

lemma bindIO_assoc: "bindIO (bindIO m f) g = bindIO m (\<lambda>a. bindIO (f a) g)"
  by (simp add: fun_eq_iff io_simps split: prod.splits sum.splits)

text \<open>Taking a run apart.\<close>

lemma bindIO_cases [io_elims]:
  assumes "bindIO m f s = (s', r)"
  obtains (stopped) e where "m s = (s', Inl e)" and "r = Inl e"
  | (stepped) a s1 where "m s = (s1, Inr a)" and "f a s1 = (s', r)"
proof -
  have "(\<exists>e. m s = (s', Inl e) \<and> r = Inl e) \<or> (\<exists>a s1. m s = (s1, Inr a) \<and> f a s1 = (s', r))"
    using assms by (auto simp: bindIO_def split: prod.splits sum.splits)
  then show thesis using that by blast
qed

lemma bindIO_Inr:
  assumes "bindIO m f s = (s', Inr b)"
  obtains a s1 where "m s = (s1, Inr a)" and "f a s1 = (s', Inr b)"
  using assms by (rule bindIO_cases) auto

lemma tryIO_cases [io_elims]:
  assumes "tryIO m f s = (s', r)"
  obtains (failed) e s1 where "m s = (s1, Inl (Fail e))" and "f (Inl e) s1 = (s', r)"
  | (panicked) p where "m s = (s', Inl (Panic p))" and "r = Inl (Panic p)"
  | (blocked) "m s = (s', Inl Block)" and "r = Inl Block"
  | (stepped) a s1 where "m s = (s1, Inr a)" and "f (Inr a) s1 = (s', r)"
proof -
  have "(\<exists>e s1. m s = (s1, Inl (Fail e)) \<and> f (Inl e) s1 = (s', r)) \<or>
    (\<exists>p. m s = (s', Inl (Panic p)) \<and> r = Inl (Panic p)) \<or>
    (m s = (s', Inl Block) \<and> r = Inl Block) \<or>
    (\<exists>a s1. m s = (s1, Inr a) \<and> f (Inr a) s1 = (s', r))"
    using assms by (auto simp: tryIO_def split: prod.splits sum.splits stop.splits)
  then show thesis using that by blast
qed

lemma guardIO_cases [io_elims]:
  assumes "guardIO b e s = (s', r)"
  obtains (refused) "\<not> b" and "s' = s" and "r = Inl (Fail e)"
  | (passed) b and "s' = s" and "r = Inr ()"
  using assms by (cases b) (auto simp: guardIO_def ret_def stop_def)

lemma ret_cases [io_elims]:
  assumes "ret a s = (s', r)"
  obtains "s' = s" and "r = Inr a"
  using assms by (simp add: ret_def)

lemma stop_cases [io_elims]:
  assumes "stop e s = (s', r)"
  obtains "s' = s" and "r = Inl e"
  using assms by (simp add: stop_def)

lemma deferring_cases [io_elims]:
  assumes "deferring c m s = (s', r)"
  obtains (dropped) s1 x where "m s = (s1, r)" and "c s1 = (s', x)" and "\<And>p. x \<noteq> Inl (Panic p)" and "x \<noteq> Inl Block"
  | (panicked) s1 r1 p where "m s = (s1, r1)" and "c s1 = (s', Inl (Panic p))" and "r = Inl (Panic p)"
  | (blocked) s1 r1 where "m s = (s1, r1)" and "c s1 = (s', Inl Block)" and "r = Inl Block"
proof -
  obtain s1 r1 where m: "m s = (s1, r1)" by (cases "m s")
  obtain s2 x where c: "c s1 = (s2, x)" by (cases "c s1")
  have "s2 = s'" using assms m c by (auto simp: deferring_def split: sum.splits stop.splits)
  show thesis
  proof (cases "x = Inl Block \<or> (\<exists>p. x = Inl (Panic p))")
    case True
    then show thesis using assms m c \<open>s2 = s'\<close> panicked blocked by (auto simp: deferring_def)
  next
    case False
    then have "r1 = r" using assms m c by (auto simp: deferring_def split: sum.splits stop.splits)
    then show thesis using dropped False m c \<open>s2 = s'\<close> by auto
  qed
qed

text \<open>
  An operation that keeps an invariant of the state on every outcome and whose results, when it
  returns, satisfy \<open>R\<close>.
\<close>

named_theorems inv_intros

definition invIO :: "('s \<Rightarrow> bool) \<Rightarrow> ('s, 'e, 'a) io \<Rightarrow> ('a \<Rightarrow> bool) \<Rightarrow> bool" where
  "invIO I m R \<longleftrightarrow> (\<forall>s s' x. I s \<longrightarrow> m s = (s', x) \<longrightarrow> I s' \<and> (\<forall>a. x = Inr a \<longrightarrow> R a))"

lemma invIOI: "(\<And>s s' x. I s \<Longrightarrow> m s = (s', x) \<Longrightarrow> I s' \<and> (\<forall>a. x = Inr a \<longrightarrow> R a)) \<Longrightarrow> invIO I m R"
  by (simp add: invIO_def)

lemma invIOD: "invIO I m R \<Longrightarrow> I s \<Longrightarrow> m s = (s', x) \<Longrightarrow> I s' \<and> (\<forall>a. x = Inr a \<longrightarrow> R a)"
  by (simp add: invIO_def)

lemma invIO_state: "invIO I m R \<Longrightarrow> I s \<Longrightarrow> I (fst (m s))"
  by (cases "m s") (auto dest: invIOD)

lemma invIO_weaken: "invIO I m R \<Longrightarrow> (\<And>a. R a \<Longrightarrow> R' a) \<Longrightarrow> invIO I m R'"
  by (auto simp: invIO_def)

lemma invIO_conj: "invIO I m R \<Longrightarrow> invIO I m R' \<Longrightarrow> invIO I m (\<lambda>a. R a \<and> R' a)"
  by (auto simp: invIO_def)

lemma invIO_ret [inv_intros]: "R a \<Longrightarrow> invIO I (ret a) R"
  by (auto simp: invIO_def ret_def)

lemma invIO_stop [inv_intros]: "invIO I (stop e) R"
  by (auto simp: invIO_def stop_def)

lemma invIO_guard: "invIO I (guardIO b e) (\<lambda>_. b)"
  by (auto simp: invIO_def elim!: guardIO_cases)

lemma invIO_bind:
  assumes "invIO I m R'" and "\<And>a. R' a \<Longrightarrow> invIO I (f a) R"
  shows "invIO I (bindIO m f) R"
proof (rule invIOI)
  fix s s' x assume "I s" "bindIO m f s = (s', x)"
  from this(2) show "I s' \<and> (\<forall>a. x = Inr a \<longrightarrow> R a)"
  proof (rule bindIO_cases)
    fix e assume "m s = (s', Inl e)" "x = Inl e"
    then show ?thesis using invIOD [OF assms(1) \<open>I s\<close>] by simp
  next
    fix a s1 assume m: "m s = (s1, Inr a)" and f: "f a s1 = (s', x)"
    then have "I s1" "R' a" using invIOD [OF assms(1) \<open>I s\<close> m] by simp_all
    with invIOD [OF assms(2) _ f] show ?thesis by simp
  qed
qed

lemma invIO_try:
  assumes "invIO I m R'" and "\<And>a. R' a \<Longrightarrow> invIO I (f (Inr a)) R" and "\<And>e. invIO I (f (Inl e)) R"
  shows "invIO I (tryIO m f) R"
proof (rule invIOI)
  fix s s' x assume "I s" "tryIO m f s = (s', x)"
  from this(2) show "I s' \<and> (\<forall>a. x = Inr a \<longrightarrow> R a)"
  proof (rule tryIO_cases)
    fix e s1 assume m: "m s = (s1, Inl (Fail e))" and f: "f (Inl e) s1 = (s', x)"
    then have "I s1" using invIOD [OF assms(1) \<open>I s\<close> m] by simp
    with invIOD [OF assms(3) _ f] show ?thesis by simp
  next
    fix a s1 assume m: "m s = (s1, Inr a)" and f: "f (Inr a) s1 = (s', x)"
    then have "I s1" "R' a" using invIOD [OF assms(1) \<open>I s\<close> m] by simp_all
    with invIOD [OF assms(2) _ f] show ?thesis by simp
  qed (use invIOD [OF assms(1) \<open>I s\<close>] in simp_all)
qed

text \<open>Sequences in which nothing is known of the intermediate results.\<close>

lemma invIO_bind' [inv_intros]:
  "invIO I m (\<lambda>_. True) \<Longrightarrow> (\<And>a. invIO I (f a) R) \<Longrightarrow> invIO I (bindIO m f) R"
  by (rule invIO_bind)

lemma invIO_try' [inv_intros]:
  "invIO I m (\<lambda>_. True) \<Longrightarrow> (\<And>a. invIO I (f a) R) \<Longrightarrow> invIO I (tryIO m f) R"
  by (rule invIO_try)

lemma invIO_deferring [inv_intros]:
  assumes "invIO I m R" and "invIO I c (\<lambda>_. True)"
  shows "invIO I (deferring c m) R"
proof (rule invIOI)
  fix s s' x assume "I s" "deferring c m s = (s', x)"
  from this(2) show "I s' \<and> (\<forall>a. x = Inr a \<longrightarrow> R a)"
    by (rule deferring_cases) (use invIOD [OF assms(1) \<open>I s\<close>] invIOD [OF assms(2)] in \<open>blast+\<close>)
qed

lemma invIO_if [inv_intros]:
  "(b \<Longrightarrow> invIO I m R) \<Longrightarrow> (\<not> b \<Longrightarrow> invIO I m' R) \<Longrightarrow> invIO I (if b then m else m') R"
  by simp

lemma invIO_sum [inv_intros]:
  "(\<And>e. x = Inl e \<Longrightarrow> invIO I (f e) R) \<Longrightarrow> (\<And>a. x = Inr a \<Longrightarrow> invIO I (g a) R) \<Longrightarrow>
     invIO I (case x of Inl e \<Rightarrow> f e | Inr a \<Rightarrow> g a) R"
  by (cases x) simp_all

lemma invIO_option [inv_intros]:
  "(x = None \<Longrightarrow> invIO I m R) \<Longrightarrow> (\<And>a. x = Some a \<Longrightarrow> invIO I (g a) R) \<Longrightarrow>
     invIO I (case x of None \<Rightarrow> m | Some a \<Rightarrow> g a) R"
  by (cases x) simp_all

lemma invIO_prod [inv_intros]:
  "(\<And>a b. x = (a, b) \<Longrightarrow> invIO I (f a b) R) \<Longrightarrow> invIO I (case x of (a, b) \<Rightarrow> f a b) R"
  by (cases x) simp

end
