(* ===== verification/Kernel.thy ===== *)
theory Kernel
  imports Rkt_Prelude "HOL-Library.List_Lexorder" "HOL-Library.Char_ord"
begin

text \<open>
  The part of the operating system the sources rely on: directories, inodes, open files
  and the advisory locks of \<^verbatim>\<open>flock(2)\<close>. A directory is named by a value of type \<open>'d\<close>
  (the six pod directories, or the lock directories of the store), a path is a directory
  and a name in it. Every call first consults \<open>fault\<close>, a table of injected failures that
  is arbitrary, so a fact proved of an operation holds whichever of its system calls
  fail.
\<close>

type_synonym ino = nat

type_synonym fdesc = int

datatype ftype = DirT | RegT | OtherT

datatype errno =
    ENOENT | EACCES | EEXIST | ENOTDIR | EISDIR | ENOTEMPTY | EWOULDBLOCK | EBADF | EINVAL | EIO | EXDEV

datatype flmode = Unlocked | SharedLk | ExclusiveLk

datatype flockop = LOCK_SH | LOCK_EX | LOCK_UN

datatype 'd fsop =
    FOpen 'd string | FCreat 'd string | FFstat ino | FFlock ino | FRename 'd string 'd string
  | FMkdir 'd string | FMkdirAll 'd | FRemove 'd string | FRemoveAll 'd string | FStat 'd string
  | FReadDir 'd | FOpenDir 'd | FSyncDir 'd | FOpenAt ino string

type_synonym dirents = "(string \<times> ino) list"

record 'd kernel =
  dirs :: "'d \<Rightarrow> dirents option"
  itype :: "ino \<Rightarrow> ftype"
  files :: "ino \<Rightarrow> (string \<times> string) list"
  ctime :: "ino \<Rightarrow> int"
  descs :: "(fdesc \<times> (ino \<times> flmode)) list"
  next_fd :: fdesc
  next_ino :: nat
  clock :: int
  fault :: "'d fsop \<Rightarrow> errno option"

text \<open>A machine with nothing in it.\<close>

definition init_kernel :: "'d kernel" where
  "init_kernel = \<lparr>dirs = \<lambda>_. None, itype = \<lambda>_. RegT, files = \<lambda>_. [], ctime = \<lambda>_. 0,
     descs = [], next_fd = 3, next_ino = 1, clock = 0, fault = \<lambda>_. None\<rparr>"

text \<open>The entry at a path.\<close>

definition lookup :: "'d kernel \<Rightarrow> 'd \<Rightarrow> string \<Rightarrow> ino option" where
  "lookup k d n = (case dirs k d of None \<Rightarrow> None | Some es \<Rightarrow> map_of es n)"

definition set_dir :: "'d \<Rightarrow> dirents \<Rightarrow> 'd kernel \<Rightarrow> 'd kernel" where
  "set_dir d es k = k\<lparr>dirs := (dirs k)(d := Some es)\<rparr>"

definition del_entry :: "string \<Rightarrow> dirents \<Rightarrow> dirents" where
  "del_entry n es = filter (\<lambda>e. fst e \<noteq> n) es"

definition remove_entry :: "'d \<Rightarrow> string \<Rightarrow> 'd kernel \<Rightarrow> 'd kernel" where
  "remove_entry d n k =
     (case dirs k d of None \<Rightarrow> k | Some es \<Rightarrow> set_dir d (del_entry n es) k)"

definition add_entry :: "'d \<Rightarrow> string \<Rightarrow> ino \<Rightarrow> 'd kernel \<Rightarrow> 'd kernel" where
  "add_entry d n e k =
     (case dirs k d of None \<Rightarrow> k | Some es \<Rightarrow> set_dir d ((n, e) # del_entry n es) k)"

text \<open>Locks: who else holds a lock on an inode.\<close>

definition others_locked :: "'d kernel \<Rightarrow> fdesc \<Rightarrow> ino \<Rightarrow> bool" where
  "others_locked k fd i \<longleftrightarrow>
     list_ex (\<lambda>(fd', i', m). fd' \<noteq> fd \<and> i' = i \<and> m \<noteq> Unlocked) (descs k)"

definition others_exclusive :: "'d kernel \<Rightarrow> fdesc \<Rightarrow> ino \<Rightarrow> bool" where
  "others_exclusive k fd i \<longleftrightarrow>
     list_ex (\<lambda>(fd', i', m). fd' \<noteq> fd \<and> i' = i \<and> m = ExclusiveLk) (descs k)"

definition set_mode :: "fdesc \<Rightarrow> flmode \<Rightarrow> 'd kernel \<Rightarrow> 'd kernel" where
  "set_mode fd m k =
     k\<lparr>descs := map (\<lambda>(fd', i, m'). if fd' = fd then (fd', i, m) else (fd', i, m')) (descs k)\<rparr>"

text \<open>The machine after a file has been opened.\<close>

abbreviation opened :: "ino \<Rightarrow> 'd kernel \<Rightarrow> 'd kernel" where
  "opened i k \<equiv> k\<lparr>descs := (next_fd k, i, Unlocked) # descs k, next_fd := next_fd k + 1\<rparr>"

section \<open>System calls\<close>

type_synonym ('d, 'a) sys = "('d kernel, errno, 'a) io"

definition with_fault :: "'d fsop \<Rightarrow> ('d, 'a) sys \<Rightarrow> ('d, 'a) sys" where
  "with_fault f m k = (case fault k f of Some e \<Rightarrow> (k, Inl (Fail e)) | None \<Rightarrow> m k)"

text \<open>\<^verbatim>\<open>open(2)\<close> of an existing path for reading; \<open>dironly\<close> is \<^verbatim>\<open>O_DIRECTORY\<close>.\<close>

definition sys_open :: "bool \<Rightarrow> 'd \<Rightarrow> string \<Rightarrow> ('d, fdesc) sys" where
  "sys_open dironly d n = with_fault (FOpen d n) (\<lambda>k.
     case lookup k d n of
       None \<Rightarrow> (k, Inl (Fail ENOENT))
     | Some i \<Rightarrow>
         if dironly \<and> itype k i \<noteq> DirT then (k, Inl (Fail ENOTDIR))
         else (k\<lparr>descs := (next_fd k, i, Unlocked) # descs k, next_fd := next_fd k + 1\<rparr>,
               Inr (next_fd k)))"

definition sys_close :: "fdesc \<Rightarrow> ('d, unit) sys" where
  "sys_close fd k =
     (if map_of (descs k) fd = None then (k, Inl (Fail EBADF))
      else (k\<lparr>descs := filter (\<lambda>e. fst e \<noteq> fd) (descs k)\<rparr>, Inr ()))"

text \<open>\<^verbatim>\<open>fstat(2)\<close>: the type and number of an open inode.\<close>

definition sys_fstat :: "fdesc \<Rightarrow> ('d, ftype \<times> ino) sys" where
  "sys_fstat fd k =
     (case map_of (descs k) fd of
        None \<Rightarrow> (k, Inl (Fail EBADF))
      | Some (i, m) \<Rightarrow> (case fault k (FFstat i) of Some e \<Rightarrow> (k, Inl (Fail e)) | None \<Rightarrow> (k, Inr (itype k i, i))))"

text \<open>
  \<^verbatim>\<open>flock(2)\<close>. A lock belongs to the open file. Asking for the mode that is already held
  succeeds. A conversion drops the held lock before the new one is requested, so a
  conversion that fails (or waits) has lost the lock, as the manual page says.
\<close>

definition sys_flock :: "fdesc \<Rightarrow> flockop \<Rightarrow> bool \<Rightarrow> ('d, unit) sys" where
  "sys_flock fd opn nonblock k =
     (case map_of (descs k) fd of
        None \<Rightarrow> (k, Inl (Fail EBADF))
      | Some (i, m) \<Rightarrow>
          (case fault k (FFlock i) of
             Some e \<Rightarrow> (k, Inl (Fail e))
           | None \<Rightarrow>
               (case opn of
                  LOCK_UN \<Rightarrow> (set_mode fd Unlocked k, Inr ())
                | LOCK_EX \<Rightarrow>
                    if m = ExclusiveLk then (k, Inr ())
                    else if others_locked k fd i
                    then (set_mode fd Unlocked k, Inl (if nonblock then Fail EWOULDBLOCK else Block))
                    else (set_mode fd ExclusiveLk k, Inr ())
                | LOCK_SH \<Rightarrow>
                    if m = SharedLk then (k, Inr ())
                    else if others_exclusive k fd i
                    then (set_mode fd Unlocked k, Inl (if nonblock then Fail EWOULDBLOCK else Block))
                    else (set_mode fd SharedLk k, Inr ()))))"

text \<open>
  \<^verbatim>\<open>rename(2)\<close>: atomic; an empty directory at the target is replaced, any other directory
  there is an error; the change time of the moved inode is updated.
\<close>

definition moved :: "'d \<Rightarrow> string \<Rightarrow> 'd \<Rightarrow> string \<Rightarrow> ino \<Rightarrow> 'd kernel \<Rightarrow> 'd kernel" where
  "moved d n d' n' i k =
     (add_entry d' n' i (remove_entry d n k))\<lparr>ctime := (ctime k)(i := clock k)\<rparr>"

definition sys_rename :: "'d \<Rightarrow> string \<Rightarrow> 'd \<Rightarrow> string \<Rightarrow> ('d, unit) sys" where
  "sys_rename d n d' n' = with_fault (FRename d n d' n') (\<lambda>k.
     case lookup k d n of
       None \<Rightarrow> (k, Inl (Fail ENOENT))
     | Some i \<Rightarrow>
         if dirs k d' = None then (k, Inl (Fail ENOENT))
         else if d = d' \<and> n = n' then (k, Inr ())
         else (case lookup k d' n' of
                 None \<Rightarrow> (moved d n d' n' i k, Inr ())
               | Some i' \<Rightarrow>
                   if itype k i = DirT then
                     (if itype k i' \<noteq> DirT then (k, Inl (Fail ENOTDIR))
                      else if files k i' \<noteq> [] then (k, Inl (Fail ENOTEMPTY))
                      else (moved d n d' n' i k, Inr ()))
                   else if itype k i' = DirT then (k, Inl (Fail EISDIR))
                   else (moved d n d' n' i k, Inr ())))"

definition new_inode :: "'d \<Rightarrow> string \<Rightarrow> ftype \<Rightarrow> 'd kernel \<Rightarrow> 'd kernel" where
  "new_inode d n t k =
     (add_entry d n (next_ino k) k)
       \<lparr>itype := (itype k)(next_ino k := t), files := (files k)(next_ino k := []), ctime := (ctime k)(next_ino k := clock k),
        next_ino := Suc (next_ino k)\<rparr>"

definition sys_mkdir :: "'d \<Rightarrow> string \<Rightarrow> ('d, unit) sys" where
  "sys_mkdir d n = with_fault (FMkdir d n) (\<lambda>k.
     if dirs k d = None then (k, Inl (Fail ENOENT))
     else if lookup k d n \<noteq> None then (k, Inl (Fail EEXIST))
     else (new_inode d n DirT k, Inr ()))"

definition sys_mkdirall :: "'d \<Rightarrow> ('d, unit) sys" where
  "sys_mkdirall d = with_fault (FMkdirAll d) (\<lambda>k.
     (if dirs k d = None then set_dir d [] k else k, Inr ()))"

text \<open>\<^verbatim>\<open>open(2)\<close> with \<^verbatim>\<open>O_CREAT\<close> followed by \<^verbatim>\<open>close\<close>: the path exists afterwards.\<close>

definition sys_creat :: "'d \<Rightarrow> string \<Rightarrow> ('d, unit) sys" where
  "sys_creat d n = with_fault (FCreat d n) (\<lambda>k.
     if dirs k d = None then (k, Inl (Fail ENOENT))
     else (case lookup k d n of
             Some i \<Rightarrow> if itype k i = DirT then (k, Inl (Fail EISDIR)) else (k, Inr ())
           | None \<Rightarrow> (new_inode d n RegT k, Inr ())))"

text \<open>\<^verbatim>\<open>os.Remove\<close> removes a file or an empty directory, \<^verbatim>\<open>os.RemoveAll\<close> whatever is there.\<close>

definition sys_remove :: "'d \<Rightarrow> string \<Rightarrow> ('d, unit) sys" where
  "sys_remove d n = with_fault (FRemove d n) (\<lambda>k.
     case lookup k d n of
       None \<Rightarrow> (k, Inl (Fail ENOENT))
     | Some i \<Rightarrow>
         if itype k i = DirT \<and> files k i \<noteq> [] then (k, Inl (Fail ENOTEMPTY))
         else (remove_entry d n k, Inr ()))"

definition sys_removeall :: "'d \<Rightarrow> string \<Rightarrow> ('d, unit) sys" where
  "sys_removeall d n = with_fault (FRemoveAll d n) (\<lambda>k. (remove_entry d n k, Inr ()))"

definition sys_stat :: "'d \<Rightarrow> string \<Rightarrow> ('d, ftype \<times> ino) sys" where
  "sys_stat d n = with_fault (FStat d n) (\<lambda>k.
     case lookup k d n of None \<Rightarrow> (k, Inl (Fail ENOENT)) | Some i \<Rightarrow> (k, Inr (itype k i, i)))"

text \<open>\<^verbatim>\<open>lstat(2)\<close>: the change time.\<close>

definition sys_lstat_ctime :: "'d \<Rightarrow> string \<Rightarrow> ('d, int) sys" where
  "sys_lstat_ctime d n = with_fault (FStat d n) (\<lambda>k.
     case lookup k d n of None \<Rightarrow> (k, Inl (Fail ENOENT)) | Some i \<Rightarrow> (k, Inr (ctime k i)))"

text \<open>\<^verbatim>\<open>ioutil.ReadDir\<close>: the entries sorted by name.\<close>

definition sys_readdir :: "'d \<Rightarrow> ('d, (string \<times> ftype) list) sys" where
  "sys_readdir d = with_fault (FReadDir d) (\<lambda>k.
     case dirs k d of
       None \<Rightarrow> (k, Inl (Fail ENOENT))
     | Some es \<Rightarrow> (k, Inr (map (\<lambda>(n, i). (n, itype k i)) (sort_key fst es))))"

text \<open>
  \<^verbatim>\<open>os.Open\<close> of a directory and \<^verbatim>\<open>Readdir\<close> (directory order) or \<^verbatim>\<open>Sync\<close> on it; the
  descriptor is closed again by every caller.
\<close>

definition sys_opendir :: "'d \<Rightarrow> ('d, unit) sys" where
  "sys_opendir d = with_fault (FOpenDir d) (\<lambda>k.
     if dirs k d = None then (k, Inl (Fail ENOENT)) else (k, Inr ()))"

definition sys_readdirnames :: "'d \<Rightarrow> ('d, string list) sys" where
  "sys_readdirnames d = with_fault (FReadDir d) (\<lambda>k.
     case dirs k d of
       None \<Rightarrow> (k, Inl (Fail ENOENT))
     | Some es \<Rightarrow> (k, Inr (map fst es)))"

definition sys_syncdir :: "'d \<Rightarrow> ('d, unit) sys" where
  "sys_syncdir d = with_fault (FSyncDir d) (\<lambda>k. (k, Inr ()))"

text \<open>\<^verbatim>\<open>openat(2)\<close> relative to an open directory, and reading the file to its end.\<close>

definition sys_readat :: "fdesc \<Rightarrow> string \<Rightarrow> ('d, string) sys" where
  "sys_readat fd n k =
     (case map_of (descs k) fd of
        None \<Rightarrow> (k, Inl (Fail EBADF))
      | Some (i, m) \<Rightarrow>
          (case fault k (FOpenAt i n) of
             Some e \<Rightarrow> (k, Inl (Fail e))
           | None \<Rightarrow> (case map_of (files k i) n of
                 None \<Rightarrow> (k, Inl (Fail ENOENT)) | Some c \<Rightarrow> (k, Inr c))))"

text \<open>Reading a file of a directory given by its path.\<close>

definition sys_readfile :: "'d \<Rightarrow> string \<Rightarrow> string \<Rightarrow> ('d, string) sys" where
  "sys_readfile d n f k =
     (case lookup k d n of
        None \<Rightarrow> (k, Inl (Fail ENOENT))
      | Some i \<Rightarrow>
          (case fault k (FOpenAt i f) of
             Some e \<Rightarrow> (k, Inl (Fail e))
           | None \<Rightarrow> (case map_of (files k i) f of
                 None \<Rightarrow> (k, Inl (Fail ENOENT)) | Some c \<Rightarrow> (k, Inr c))))"

text \<open>
  \<^verbatim>\<open>openat(2)\<close> and \<^verbatim>\<open>Readdirnames\<close> of a directory inside an open one. The files of a directory tree
  are listed by their path relative to its root, a directory by its path and a slash.
\<close>

definition dirNames :: "string \<Rightarrow> (string \<times> string) list \<Rightarrow> string list option" where
  "dirNames path fs =
     (let pre = path @ ''/'';
          below = filter (\<lambda>n. hasPrefix n pre) (map fst fs)
      in if below = [] then None
         else Some (remdups (filter (\<lambda>n. n \<noteq> []) (map (\<lambda>n. takeWhile (\<lambda>c. c \<noteq> CHR ''/'') (drop (length pre) n)) below))))"

definition sys_readdirat :: "fdesc \<Rightarrow> string \<Rightarrow> ('d, string list) sys" where
  "sys_readdirat fd path k =
     (case map_of (descs k) fd of
        None \<Rightarrow> (k, Inl (Fail EBADF))
      | Some (i, m) \<Rightarrow>
          (case fault k (FOpenAt i path) of
             Some e \<Rightarrow> (k, Inl (Fail e))
           | None \<Rightarrow> (case dirNames path (files k i) of
                 None \<Rightarrow> (k, Inl (Fail ENOENT)) | Some ns \<Rightarrow> (k, Inr ns))))"

text \<open>\<^verbatim>\<open>syncfs(2)\<close> on an open file.\<close>

definition sys_syncfs :: "fdesc \<Rightarrow> ('d, unit) sys" where
  "sys_syncfs fd k = (if map_of (descs k) fd = None then (k, Inl (Fail EBADF)) else (k, Inr ()))"

section \<open>Facts about the kernel\<close>

lemma lookup_set_dir [simp]:
  "lookup (set_dir d es k) d' n = (if d' = d then map_of es n else lookup k d' n)"
  by (simp add: lookup_def set_dir_def)

lemma map_of_del_entry [simp]: "map_of (del_entry n es) m = (if m = n then None else map_of es m)"
  by (induction es) (auto simp: del_entry_def)

lemma lookup_remove_entry [simp]:
  "lookup (remove_entry d n k) d' m = (if d' = d \<and> m = n then None else lookup k d' m)"
  by (auto simp: remove_entry_def lookup_def set_dir_def split: option.splits)

lemma lookup_add_entry:
  "lookup (add_entry d n e k) d' m =
     (if d' = d \<and> m = n \<and> dirs k d \<noteq> None then Some e else lookup k d' m)"
  by (auto simp: add_entry_def lookup_def set_dir_def split: option.splits)

lemma lookup_Some_dir: "lookup k d n = Some e \<Longrightarrow> dirs k d \<noteq> None"
  by (auto simp: lookup_def split: option.splits)

lemma remove_entry_sel [simp]:
  "files (remove_entry d n k) = files k" "itype (remove_entry d n k) = itype k" "ctime (remove_entry d n k) = ctime k"
  "descs (remove_entry d n k) = descs k" "next_fd (remove_entry d n k) = next_fd k"
  "next_ino (remove_entry d n k) = next_ino k" "clock (remove_entry d n k) = clock k"
  "fault (remove_entry d n k) = fault k"
  "(dirs (remove_entry d n k) d' = None) = (dirs k d' = None)"
  by (auto simp: remove_entry_def set_dir_def split: option.splits)

lemma add_entry_sel [simp]:
  "files (add_entry d n e k) = files k" "itype (add_entry d n e k) = itype k" "ctime (add_entry d n e k) = ctime k"
  "descs (add_entry d n e k) = descs k" "next_fd (add_entry d n e k) = next_fd k"
  "next_ino (add_entry d n e k) = next_ino k" "clock (add_entry d n e k) = clock k"
  "fault (add_entry d n e k) = fault k"
  "(dirs (add_entry d n e k) d' = None) = (dirs k d' = None)"
  by (auto simp: add_entry_def set_dir_def split: option.splits)

lemma lookup_update_sel [simp]:
  "lookup (k\<lparr>descs := ds\<rparr>) = lookup k" "lookup (k\<lparr>next_fd := f\<rparr>) = lookup k"
  "lookup (k\<lparr>ctime := c\<rparr>) = lookup k" "lookup (k\<lparr>files := fs\<rparr>) = lookup k"
  "lookup (k\<lparr>next_ino := i\<rparr>) = lookup k" "lookup (k\<lparr>clock := t\<rparr>) = lookup k"
  "lookup (k\<lparr>fault := f'\<rparr>) = lookup k" "lookup (k\<lparr>itype := ty\<rparr>) = lookup k"
  by (simp_all add: lookup_def fun_eq_iff)

lemma set_mode_sel [simp]:
  "dirs (set_mode fd m k) = dirs k" "files (set_mode fd m k) = files k" "itype (set_mode fd m k) = itype k"
  "ctime (set_mode fd m k) = ctime k" "next_fd (set_mode fd m k) = next_fd k"
  "next_ino (set_mode fd m k) = next_ino k" "clock (set_mode fd m k) = clock k"
  "fault (set_mode fd m k) = fault k" "lookup (set_mode fd m k) = lookup k"
  by (simp_all add: set_mode_def lookup_def fun_eq_iff)

lemma map_of_set_mode:
  "map_of (descs (set_mode fd m k)) fd' =
     (case map_of (descs k) fd' of
        None \<Rightarrow> None | Some (i, m') \<Rightarrow> Some (i, if fd' = fd then m else m'))"
proof -
  have "map_of (map (\<lambda>(f, i, m'). if f = fd then (f, i, m) else (f, i, m')) ds) fd' =
     (case map_of ds fd' of None \<Rightarrow> None | Some (i, m') \<Rightarrow> Some (i, if fd' = fd then m else m'))"
    for ds :: "(fdesc \<times> ino \<times> flmode) list"
    by (induction ds) auto
  then show ?thesis by (simp add: set_mode_def)
qed

text \<open>What a system call leaves alone.\<close>

lemma sys_flock_frame:
  "sys_flock fd opn nb k = (k', r) \<Longrightarrow>
     dirs k' = dirs k \<and> itype k' = itype k \<and> files k' = files k \<and> ctime k' = ctime k \<and> next_fd k' = next_fd k \<and>
     next_ino k' = next_ino k \<and> clock k' = clock k \<and> fault k' = fault k"
  by (auto simp: sys_flock_def split: option.splits flockop.splits if_splits)

lemma sys_open_frame:
  "sys_open b d n k = (k', r) \<Longrightarrow>
     dirs k' = dirs k \<and> itype k' = itype k \<and> files k' = files k \<and> ctime k' = ctime k \<and>
     next_ino k' = next_ino k \<and> clock k' = clock k \<and> fault k' = fault k"
  by (auto simp: sys_open_def with_fault_def split: option.splits if_splits)

lemma sys_close_frame:
  "sys_close fd k = (k', r) \<Longrightarrow>
     dirs k' = dirs k \<and> itype k' = itype k \<and> files k' = files k \<and> ctime k' = ctime k \<and> next_fd k' = next_fd k \<and>
     next_ino k' = next_ino k \<and> clock k' = clock k \<and> fault k' = fault k"
  by (auto simp: sys_close_def split: option.splits if_splits)

lemma sys_fstat_frame: "sys_fstat fd k = (k', r) \<Longrightarrow> k' = k"
  by (auto simp: sys_fstat_def split: option.splits)

lemma sys_stat_frame: "sys_stat d n k = (k', r) \<Longrightarrow> k' = k"
  by (auto simp: sys_stat_def with_fault_def split: option.splits)

lemma sys_readdir_frame: "sys_readdir d k = (k', r) \<Longrightarrow> k' = k"
  by (auto simp: sys_readdir_def with_fault_def split: option.splits)

lemma sys_syncdir_frame: "sys_syncdir d k = (k', r) \<Longrightarrow> k' = k"
  by (auto simp: sys_syncdir_def with_fault_def split: option.splits)

lemma sys_opendir_frame: "sys_opendir d k = (k', r) \<Longrightarrow> k' = k"
  by (auto simp: sys_opendir_def with_fault_def split: option.splits if_splits)

lemma sys_readdirnames_frame: "sys_readdirnames d k = (k', r) \<Longrightarrow> k' = k"
  by (auto simp: sys_readdirnames_def with_fault_def split: option.splits)

lemma sys_readat_frame: "sys_readat fd n k = (k', r) \<Longrightarrow> k' = k"
  by (auto simp: sys_readat_def split: option.splits)

text \<open>The effect of a rename that succeeds: the entry is at the new path and only there.\<close>

lemma moved_sel [simp]:
  "files (moved d n d' n' e k) = files k" "itype (moved d n d' n' e k) = itype k" "descs (moved d n d' n' e k) = descs k"
  "next_fd (moved d n d' n' e k) = next_fd k" "next_ino (moved d n d' n' e k) = next_ino k"
  "clock (moved d n d' n' e k) = clock k" "fault (moved d n d' n' e k) = fault k"
  "ctime (moved d n d' n' e k) = (ctime k)(e := clock k)"
  "(dirs (moved d n d' n' e k) c = None) = (dirs k c = None)"
  by (simp_all add: moved_def)

lemma lookup_moved:
  "dirs k d' \<noteq> None \<Longrightarrow> lookup (moved d n d' n' e k) c m =
     (if (c, m) = (d', n') then Some e else if (c, m) = (d, n) then None else lookup k c m)"
  by (auto simp: moved_def lookup_add_entry)

lemma sys_rename_ok:
  assumes "sys_rename d n d' n' k = (k', Inr ())" and "(d, n) \<noteq> (d', n')"
  obtains e where "lookup k d n = Some e" and "dirs k d' \<noteq> None" and "k' = moved d n d' n' e k"
  using assms
  by (auto simp: sys_rename_def with_fault_def split: option.splits if_splits)

lemma sys_rename_err: "sys_rename d n d' n' k = (k', Inl e) \<Longrightarrow> k' = k \<and> e \<noteq> Block"
  by (auto simp: sys_rename_def with_fault_def split: option.splits if_splits)

lemma sys_rename_descs: "sys_rename d n d' n' k = (k', r) \<Longrightarrow> descs k' = descs k"
  by (auto simp: sys_rename_def with_fault_def split: option.splits if_splits)

lemma new_inode_sel [simp]:
  "descs (new_inode d n t k) = descs k" "next_fd (new_inode d n t k) = next_fd k"
  "fault (new_inode d n t k) = fault k" "clock (new_inode d n t k) = clock k"
  "(dirs (new_inode d n t k) c = None) = (dirs k c = None)"
  by (simp_all add: new_inode_def)

lemma lookup_new_inode:
  "lookup (new_inode d n t k) c m =
     (if c = d \<and> m = n \<and> dirs k d \<noteq> None then Some (next_ino k) else lookup k c m)"
  by (simp add: new_inode_def lookup_add_entry)

lemma sys_rename_outcome:
  assumes "sys_rename d n d' n' k = (k', r)" and "(d, n) \<noteq> (d', n')"
  shows "k' = k \<and> (\<exists>e. r = Inl (Fail e)) \<or>
    (\<exists>i. lookup k d n = Some i \<and> dirs k d' \<noteq> None \<and> k' = moved d n d' n' i k \<and> r = Inr ())"
  using assms by (auto simp: sys_rename_def with_fault_def split: option.splits if_splits)

lemma sys_lstat_ctime_outcome:
  assumes "sys_lstat_ctime d n k = (k', r)"
  shows "k' = k \<and> ((\<exists>e. r = Inl (Fail e)) \<or> (\<exists>i. lookup k d n = Some i \<and> r = Inr (ctime k i)))"
  using assms by (auto simp: sys_lstat_ctime_def with_fault_def split: option.splits)

lemma sys_removeall_outcome:
  assumes "sys_removeall d n k = (k', r)"
  shows "k' = k \<and> (\<exists>e. r = Inl (Fail e)) \<or> k' = remove_entry d n k \<and> r = Inr ()"
  using assms by (auto simp: sys_removeall_def with_fault_def split: option.splits)

section \<open>The lock table\<close>

text \<open>
  Descriptors are unique and below the next one, and an exclusive lock on an inode
  excludes every other lock on it.
\<close>

definition fds_ok :: "'d kernel \<Rightarrow> bool" where
  "fds_ok k \<longleftrightarrow> distinct (map fst (descs k)) \<and> (\<forall>fd \<in> set (map fst (descs k)). 0 \<le> fd \<and> fd < next_fd k) \<and>
     0 \<le> next_fd k"

definition excl_ok :: "'d kernel \<Rightarrow> bool" where
  "excl_ok k \<longleftrightarrow> (\<forall>fd i fd' m. map_of (descs k) fd = Some (i, ExclusiveLk) \<longrightarrow>
     map_of (descs k) fd' = Some (i, m) \<longrightarrow> fd' \<noteq> fd \<longrightarrow> m = Unlocked)"

definition lock_inv :: "'d kernel \<Rightarrow> bool" where
  "lock_inv k \<longleftrightarrow> fds_ok k \<and> excl_ok k"

text \<open>The lock a descriptor holds, and the inode it is open on.\<close>

definition mode_of :: "'d kernel \<Rightarrow> fdesc \<Rightarrow> flmode" where
  "mode_of k fd = (case map_of (descs k) fd of None \<Rightarrow> Unlocked | Some (i, m) \<Rightarrow> m)"

definition ino_of :: "'d kernel \<Rightarrow> fdesc \<Rightarrow> ino option" where
  "ino_of k fd = map_option fst (map_of (descs k) fd)"

lemma fds_ok_map_of:
  assumes "fds_ok k"
  shows "(fd, i, m) \<in> set (descs k) \<longleftrightarrow> map_of (descs k) fd = Some (i, m)"
  using assms by (simp add: fds_ok_def)

lemma fds_ok_next: "fds_ok k \<Longrightarrow> map_of (descs k) (next_fd k) = None"
  by (force simp: fds_ok_def map_of_eq_None_iff)

lemma fds_ok_nonneg: "fds_ok k \<Longrightarrow> fd < 0 \<Longrightarrow> map_of (descs k) fd = None"
  by (force simp: fds_ok_def map_of_eq_None_iff)

lemma others_locked_iff:
  "fds_ok k \<Longrightarrow> others_locked k fd i \<longleftrightarrow>
     (\<exists>fd' m. fd' \<noteq> fd \<and> map_of (descs k) fd' = Some (i, m) \<and> m \<noteq> Unlocked)"
  by (auto simp: others_locked_def list_ex_iff simp flip: fds_ok_map_of)

lemma others_exclusive_iff:
  "fds_ok k \<Longrightarrow> others_exclusive k fd i \<longleftrightarrow>
     (\<exists>fd'. fd' \<noteq> fd \<and> map_of (descs k) fd' = Some (i, ExclusiveLk))"
  by (auto simp: others_exclusive_def list_ex_iff simp flip: fds_ok_map_of)

lemma fst_descs_set_mode: "map fst (descs (set_mode fd m k)) = map fst (descs k)"
  by (auto simp: set_mode_def)

lemma fds_ok_set_mode [simp]: "fds_ok (set_mode fd m k) = fds_ok k"
  by (simp only: fds_ok_def fst_descs_set_mode set_mode_sel)

lemma mode_of_set_mode:
  "mode_of (set_mode fd m k) fd' =
     (if fd' = fd \<and> map_of (descs k) fd \<noteq> None then m else mode_of k fd')"
  by (auto simp: mode_of_def map_of_set_mode split: option.splits)

lemma ino_of_set_mode [simp]: "ino_of (set_mode fd m k) = ino_of k"
  by (auto simp: ino_of_def map_of_set_mode fun_eq_iff split: option.splits)

text \<open>\<^const>\<open>sys_flock\<close> keeps the lock table correct and touches one descriptor only.\<close>

lemma excl_ok_drop: "excl_ok k \<Longrightarrow> excl_ok (set_mode fd Unlocked k)"
  unfolding excl_ok_def by (auto simp: map_of_set_mode split: option.splits if_splits)

lemma excl_ok_exclusive:
  assumes "fds_ok k" "excl_ok k" "map_of (descs k) fd = Some (i, m)" "\<not> others_locked k fd i"
  shows "excl_ok (set_mode fd ExclusiveLk k)"
  using assms unfolding excl_ok_def
  by (auto simp: map_of_set_mode others_locked_iff split: option.splits if_splits)

lemma excl_ok_shared:
  assumes "fds_ok k" "excl_ok k" "map_of (descs k) fd = Some (i, m)" "\<not> others_exclusive k fd i"
  shows "excl_ok (set_mode fd SharedLk k)"
  using assms unfolding excl_ok_def
  by (auto simp: map_of_set_mode others_exclusive_iff split: option.splits if_splits)

lemma sys_flock_lock_inv: "lock_inv k \<Longrightarrow> lock_inv (fst (sys_flock fd opn nb k))"
  by (auto simp: lock_inv_def sys_flock_def excl_ok_drop excl_ok_exclusive excl_ok_shared
      split: option.splits flockop.splits)

lemma sys_flock_ino [simp]: "ino_of (fst (sys_flock fd opn nb k)) = ino_of k"
  by (auto simp: sys_flock_def split: option.splits flockop.splits)

lemma sys_flock_other: "fd' \<noteq> fd \<Longrightarrow> mode_of (fst (sys_flock fd opn nb k)) fd' = mode_of k fd'"
  by (auto simp: sys_flock_def mode_of_set_mode split: option.splits flockop.splits)

lemma sys_flock_got:
  assumes "sys_flock fd opn nb k = (k', Inr ())"
  shows "mode_of k' fd = (case opn of LOCK_EX \<Rightarrow> ExclusiveLk | LOCK_SH \<Rightarrow> SharedLk | LOCK_UN \<Rightarrow> Unlocked)"
    and "ino_of k fd \<noteq> None"
  using assms
  by (auto simp: sys_flock_def mode_of_set_mode map_of_set_mode mode_of_def ino_of_def
      split: option.splits flockop.splits if_splits)

lemma lock_inv_excl:
  "lock_inv k \<Longrightarrow> ino_of k fd = ino_of k fd' \<Longrightarrow> fd \<noteq> fd' \<Longrightarrow> mode_of k fd = ExclusiveLk \<Longrightarrow>
     mode_of k fd' = Unlocked"
  by (auto simp: lock_inv_def excl_ok_def mode_of_def ino_of_def split: option.splits)

text \<open>The outcomes of the calls on descriptors.\<close>

lemma sys_fstat_cases:
  assumes "sys_fstat fd k = (k', r)"
  obtains (failed) e where "k' = k" and "r = Inl (Fail e)"
  | (finished) i where "k' = k" and "ino_of k fd = Some i" and "r = Inr (itype k i, i)"
  using assms by (auto simp: sys_fstat_def ino_of_def split: option.splits)

lemma sys_open_cases:
  assumes "sys_open b d n k = (k', r)"
  obtains (failed) e where "k' = k" and "r = Inl (Fail e)"
  | (finished) i where "lookup k d n = Some i" and "b \<longrightarrow> itype k i = DirT" and "r = Inr (next_fd k)"
      and "k' = k\<lparr>descs := (next_fd k, i, Unlocked) # descs k, next_fd := next_fd k + 1\<rparr>"
proof -
  have "k' = k \<and> (\<exists>e. r = Inl (Fail e)) \<or>
    (\<exists>i. lookup k d n = Some i \<and> (b \<longrightarrow> itype k i = DirT) \<and> r = Inr (next_fd k) \<and>
       k' = k\<lparr>descs := (next_fd k, i, Unlocked) # descs k, next_fd := next_fd k + 1\<rparr>)"
    using assms by (auto simp: sys_open_def with_fault_def split: option.splits if_splits)
  then show thesis using that by blast
qed

lemma sys_close_cases:
  assumes "sys_close fd k = (k', r)"
  obtains (failed) e where "k' = k" and "r = Inl (Fail e)" and "ino_of k fd = None"
  | (finished) "k' = k\<lparr>descs := filter (\<lambda>e. fst e \<noteq> fd) (descs k)\<rparr>" and "r = Inr ()"
      and "ino_of k fd \<noteq> None"
  using assms by (auto simp: sys_close_def ino_of_def split: if_splits)

lemma ino_of_opened:
  "ino_of (k\<lparr>descs := (fd, i, m) # ds\<rparr>) g = (if g = fd then Some i else ino_of (k\<lparr>descs := ds\<rparr>) g)"
  "mode_of (k\<lparr>descs := (fd, i, m) # ds\<rparr>) g = (if g = fd then m else mode_of (k\<lparr>descs := ds\<rparr>) g)"
  by (simp_all add: ino_of_def mode_of_def)

lemma ino_of_next_fd [simp]:
  "ino_of (k\<lparr>next_fd := n\<rparr>) = ino_of k" "mode_of (k\<lparr>next_fd := n\<rparr>) = mode_of k"
  by (simp_all add: ino_of_def mode_of_def fun_eq_iff)

lemma closed_again:
  assumes "fds_ok k"
  shows "filter (\<lambda>e. fst e \<noteq> next_fd k) (descs k) = descs k"
  using fds_ok_next [OF assms] by (force simp: filter_id_conv map_of_eq_None_iff)

text \<open>The lock table depends on the descriptors only.\<close>

lemma lock_inv_cong:
  "descs k' = descs k \<Longrightarrow> next_fd k' = next_fd k \<Longrightarrow> lock_inv k' = lock_inv k"
  by (simp add: lock_inv_def fds_ok_def excl_ok_def)

lemma mode_of_cong: "descs k' = descs k \<Longrightarrow> mode_of k' = mode_of k \<and> ino_of k' = ino_of k"
  by (simp add: mode_of_def ino_of_def fun_eq_iff)

lemma lock_inv_next_fd: "lock_inv k \<Longrightarrow> lock_inv (k\<lparr>next_fd := next_fd k + 1\<rparr>)"
  by (fastforce simp: lock_inv_def fds_ok_def excl_ok_def)

text \<open>The outcomes of the calls on paths.\<close>

lemma sys_mkdirall_outcome:
  assumes "sys_mkdirall d k = (k', r)"
  shows "k' = k \<and> (\<exists>e. r = Inl (Fail e)) \<or> k' = k \<and> dirs k d \<noteq> None \<and> r = Inr () \<or>
    k' = set_dir d [] k \<and> dirs k d = None \<and> r = Inr ()"
  using assms by (auto simp: sys_mkdirall_def with_fault_def split: option.splits if_splits)

lemma sys_creat_outcome:
  assumes "sys_creat d n k = (k', r)"
  shows "k' = k \<and> (\<exists>e. r = Inl (Fail e)) \<or> k' = k \<and> lookup k d n \<noteq> None \<and> r = Inr () \<or>
    k' = new_inode d n RegT k \<and> lookup k d n = None \<and> dirs k d \<noteq> None \<and> r = Inr ()"
  using assms by (auto simp: sys_creat_def with_fault_def split: option.splits if_splits)

lemma sys_remove_outcome:
  assumes "sys_remove d n k = (k', r)"
  shows "k' = k \<and> (\<exists>e. r = Inl (Fail e)) \<or> k' = remove_entry d n k \<and> lookup k d n \<noteq> None \<and> r = Inr ()"
  using assms by (auto simp: sys_remove_def with_fault_def split: option.splits if_splits)

lemma set_dir_sel [simp]:
  "descs (set_dir d es k) = descs k" "next_fd (set_dir d es k) = next_fd k"
  "files (set_dir d es k) = files k" "itype (set_dir d es k) = itype k"
  "ctime (set_dir d es k) = ctime k" "clock (set_dir d es k) = clock k"
  "fault (set_dir d es k) = fault k" "next_ino (set_dir d es k) = next_ino k"
  by (simp_all add: set_dir_def)

lemma lock_inv_paths [simp]:
  "lock_inv (set_dir d es k) = lock_inv k" "lock_inv (new_inode d n t k) = lock_inv k"
  "lock_inv (remove_entry d n k) = lock_inv k" "lock_inv (add_entry d n i k) = lock_inv k"
  "lock_inv (moved d n d' n' i k) = lock_inv k"
  by (rule lock_inv_cong; simp)+

lemma mode_of_paths [simp]:
  "mode_of (set_dir d es k) = mode_of k" "mode_of (new_inode d n t k) = mode_of k"
  "mode_of (remove_entry d n k) = mode_of k" "mode_of (add_entry d n i k) = mode_of k"
  "mode_of (moved d n d' n' i k) = mode_of k"
  by (simp_all add: mode_of_def fun_eq_iff)

lemma ino_of_paths [simp]:
  "ino_of (set_dir d es k) = ino_of k" "ino_of (new_inode d n t k) = ino_of k"
  "ino_of (remove_entry d n k) = ino_of k" "ino_of (add_entry d n i k) = ino_of k"
  "ino_of (moved d n d' n' i k) = ino_of k"
  by (simp_all add: ino_of_def fun_eq_iff)

lemma set_mode_same:
  assumes "fds_ok k" and "map_of (descs k) fd = Some (i, m)"
  shows "set_mode fd m k = k"
proof -
  have "map (\<lambda>(fd', i, m'). if fd' = fd then (fd', i, m) else (fd', i, m')) (descs k) = descs k"
    using fds_ok_map_of [OF assms(1)] assms(2) by (intro map_idI) auto
  then show ?thesis by (simp add: set_mode_def)
qed

text \<open>An inode some descriptor has locked exclusively.\<close>

definition exclLocked :: "'d kernel \<Rightarrow> ino \<Rightarrow> bool" where
  "exclLocked k i \<longleftrightarrow> list_ex (\<lambda>(fd, i', m). i' = i \<and> m = ExclusiveLk) (descs k)"

lemma exclLocked_iff: "fds_ok k \<Longrightarrow> exclLocked k i \<longleftrightarrow> (\<exists>fd. map_of (descs k) fd = Some (i, ExclusiveLk))"
  by (auto simp: exclLocked_def list_ex_iff simp flip: fds_ok_map_of)

lemma others_exclusive_fresh:
  assumes "fds_ok k"
  shows "others_exclusive (opened i k) (next_fd k) j = exclLocked k j"
  using fds_ok_next [OF assms]
  by (force simp: others_exclusive_def exclLocked_def list_ex_iff map_of_eq_None_iff)

lemma set_mode_fresh:
  assumes "fds_ok k"
  shows "set_mode (next_fd k) m (k\<lparr>descs := (next_fd k, i, m0) # descs k, next_fd := next_fd k + 1\<rparr>) =
    k\<lparr>descs := (next_fd k, i, m) # descs k, next_fd := next_fd k + 1\<rparr>"
proof -
  have "map (\<lambda>(fd', i, m'). if fd' = next_fd k then (fd', i, m) else (fd', i, m')) (descs k) = descs k"
    using fds_ok_next [OF assms] by (force simp: map_of_eq_None_iff intro: map_idI)
  then show ?thesis by (simp add: set_mode_def)
qed

lemma set_mode_set_mode [simp]: "set_mode fd m (set_mode fd m' k) = set_mode fd m k"
  by (simp add: set_mode_def comp_def split_def cong: map_cong)

lemma others_exclusive_own:
  assumes "fds_ok k" and "mode_of k fd = Unlocked"
  shows "others_exclusive k fd i = exclLocked k i"
proof -
  have "map_of (descs k) fd \<noteq> Some (i, ExclusiveLk)" using assms(2) by (auto simp: mode_of_def)
  then show ?thesis using assms(1) by (auto simp: others_exclusive_iff exclLocked_iff)
qed

section \<open>Errors of the Go library\<close>

text \<open>
  A system call's error reaches the program as a bare \<^verbatim>\<open>syscall.Errno\<close> (package \<^verbatim>\<open>syscall\<close>), or
  inside an \<^verbatim>\<open>os.PathError\<close> or \<^verbatim>\<open>os.LinkError\<close> (package \<^verbatim>\<open>os\<close>). \<open>Msg\<close> is an error made by
  \<^verbatim>\<open>errors.New\<close> or \<^verbatim>\<open>fmt.Errorf\<close> and \<open>Wrap\<close> one whose text ends in that of another error;
  neither is equal to a sentinel.
\<close>

datatype goerr =
    Errno errno | PathError errno | LinkError errno | OsErrNotExist
  | ErrLocked | ErrNotExist | ErrPermission | ErrNotRegular
  | Msg string | Wrap string goerr | StoreRemovalError "goerr list"

fun osIsNotExist :: "goerr \<Rightarrow> bool" where
  "osIsNotExist (Errno e) = (e = ENOENT)"
| "osIsNotExist (PathError e) = (e = ENOENT)"
| "osIsNotExist (LinkError e) = (e = ENOENT)"
| "osIsNotExist OsErrNotExist = True"
| "osIsNotExist _ = False"

type_synonym ('d, 'a) gofs = "('d kernel, goerr, 'a) io"

text \<open>Other processes act on the machine.\<close>

definition others :: "('d kernel \<Rightarrow> 'd kernel) \<Rightarrow> ('d, unit) gofs" where
  "others f k = (f k, Inr ())"

definition mapErr :: "('e \<Rightarrow> 'f) \<Rightarrow> ('s, 'e, 'a) io \<Rightarrow> ('s, 'f, 'a) io" where
  "mapErr f m s =
     (case m s of
        (s', Inl (Fail e)) \<Rightarrow> (s', Inl (Fail (f e)))
      | (s', Inl (Panic p)) \<Rightarrow> (s', Inl (Panic p))
      | (s', Inl Block) \<Rightarrow> (s', Inl Block)
      | (s', Inr a) \<Rightarrow> (s', Inr a))"

lemma mapErr_run [io_simps]:
  "m s = (s', Inr a) \<Longrightarrow> mapErr f m s = (s', Inr a)"
  "m s = (s', Inl (Fail e)) \<Longrightarrow> mapErr f m s = (s', Inl (Fail (f e)))"
  "m s = (s', Inl Block) \<Longrightarrow> mapErr f m s = (s', Inl Block)"
  by (simp_all add: mapErr_def)

lemma mapErr_cases [io_elims]:
  assumes "mapErr f m s = (s', r)"
  obtains (failed) e where "m s = (s', Inl (Fail e))" and "r = Inl (Fail (f e))"
  | (panicked) p where "m s = (s', Inl (Panic p))" and "r = Inl (Panic p)"
  | (blocked) "m s = (s', Inl Block)" and "r = Inl Block"
  | (stepped) a where "m s = (s', Inr a)" and "r = Inr a"
proof -
  have "(\<exists>e. m s = (s', Inl (Fail e)) \<and> r = Inl (Fail (f e))) \<or>
    (\<exists>p. m s = (s', Inl (Panic p)) \<and> r = Inl (Panic p)) \<or>
    (m s = (s', Inl Block) \<and> r = Inl Block) \<or> (\<exists>a. m s = (s', Inr a) \<and> r = Inr a)"
    using assms by (auto simp: mapErr_def split: prod.splits sum.splits stop.splits)
  then show thesis using that by blast
qed

lemma mapErr_Inr: "mapErr f m s = (s', Inr a) \<longleftrightarrow> m s = (s', Inr a)"
  by (auto simp: mapErr_def split: prod.splits sum.splits stop.splits)

lemma mapErr_state: "fst (mapErr f m s) = fst (m s)"
  by (auto simp: mapErr_def split: prod.splits sum.splits stop.splits)

lemma invIO_mapErr [inv_intros]: "invIO I m R \<Longrightarrow> invIO I (mapErr f m) R"
  by (rule invIOI) (auto elim!: mapErr_cases dest: invIOD)

end
