(* ===== verification/Flock.thy ===== *)
theory Flock
  imports Kernel
begin

text \<open>
  Package \<^verbatim>\<open>pkg/lock\<close>, file \<^verbatim>\<open>dir.go\<close>: locks on a file or a directory. A method that changes
  the lock object returns it updated. The locale \<open>rwlock\<close> states what a client of such a
  lock relies on; it is interpreted on the non-blocking and on the blocking methods.
\<close>

section \<open>The lock object and its operations\<close>

record 'd FileLock =
  lk_path :: "'d \<times> string"
  lk_fd :: fdesc

datatype LockType = Dir | RegFile

definition wouldBlock :: "errno \<Rightarrow> goerr" where
  "wouldBlock e = (if e = EWOULDBLOCK then ErrLocked else Errno e)"

definition NewLock :: "'d \<times> string \<Rightarrow> LockType \<Rightarrow> ('d, 'd FileLock) gofs" where
  "NewLock path lockType =
     bindIO (mapErr (\<lambda>e. if e = ENOENT then ErrNotExist else if e = EACCES then ErrPermission
                         else Errno e)
               (sys_open (lockType = Dir) (fst path) (snd path)))
       (\<lambda>lfd. bindIO (mapErr Errno (sys_fstat lfd))
         (\<lambda>(t, i). if lockType = RegFile \<and> t \<noteq> RegT then fail ErrNotRegular
                   else ret \<lparr>lk_path = path, lk_fd = lfd\<rparr>))"

definition FileLock_TryExclusiveLock :: "'d FileLock \<Rightarrow> ('d, unit) gofs" where
  "FileLock_TryExclusiveLock l = mapErr wouldBlock (sys_flock (lk_fd l) LOCK_EX True)"

definition TryExclusiveLock :: "'d \<times> string \<Rightarrow> LockType \<Rightarrow> ('d, 'd FileLock) gofs" where
  "TryExclusiveLock path lockType =
     bindIO (NewLock path lockType) (\<lambda>l. bindIO (FileLock_TryExclusiveLock l) (\<lambda>_. ret l))"

definition FileLock_ExclusiveLock :: "'d FileLock \<Rightarrow> ('d, unit) gofs" where
  "FileLock_ExclusiveLock l = mapErr Errno (sys_flock (lk_fd l) LOCK_EX False)"

definition ExclusiveLock :: "'d \<times> string \<Rightarrow> LockType \<Rightarrow> ('d, 'd FileLock) gofs" where
  "ExclusiveLock path lockType =
     bindIO (NewLock path lockType) (\<lambda>l. bindIO (FileLock_ExclusiveLock l) (\<lambda>_. ret l))"

definition FileLock_TrySharedLock :: "'d FileLock \<Rightarrow> ('d, unit) gofs" where
  "FileLock_TrySharedLock l = mapErr wouldBlock (sys_flock (lk_fd l) LOCK_SH True)"

definition TrySharedLock :: "'d \<times> string \<Rightarrow> LockType \<Rightarrow> ('d, 'd FileLock) gofs" where
  "TrySharedLock path lockType =
     bindIO (NewLock path lockType) (\<lambda>l. bindIO (FileLock_TrySharedLock l) (\<lambda>_. ret l))"

definition FileLock_SharedLock :: "'d FileLock \<Rightarrow> ('d, unit) gofs" where
  "FileLock_SharedLock l = mapErr Errno (sys_flock (lk_fd l) LOCK_SH False)"

definition SharedLock :: "'d \<times> string \<Rightarrow> LockType \<Rightarrow> ('d, 'd FileLock) gofs" where
  "SharedLock path lockType =
     bindIO (NewLock path lockType) (\<lambda>l. bindIO (FileLock_SharedLock l) (\<lambda>_. ret l))"

definition FileLock_Unlock :: "'d FileLock \<Rightarrow> ('d, unit) gofs" where
  "FileLock_Unlock l = mapErr Errno (sys_flock (lk_fd l) LOCK_UN False)"

definition FileLock_Fd :: "'d FileLock \<Rightarrow> goerr + fdesc" where
  "FileLock_Fd l = (if lk_fd l = -1 then Inl (Msg ''lock closed'') else Inr (lk_fd l))"

text \<open>\<^verbatim>\<open>Close\<close> marks the object closed whatever the system call returns.\<close>

definition FileLock_Close :: "'d FileLock \<Rightarrow> ('d, 'd FileLock \<times> goerr option) gofs" where
  "FileLock_Close l =
     tryIO (mapErr Errno (sys_close (lk_fd l)))
       (\<lambda>r. ret (l\<lparr>lk_fd := -1\<rparr>, case r of Inl e \<Rightarrow> Some e | Inr _ \<Rightarrow> None))"

lemmas FileLock_defs =
  FileLock_TryExclusiveLock_def FileLock_ExclusiveLock_def FileLock_TrySharedLock_def
  FileLock_SharedLock_def FileLock_Unlock_def

section \<open>The contract of a read-write lock\<close>

text \<open>
  \<open>call\<close> acquires or releases through a handle; a call that succeeds leaves the handle
  with the mode \<open>grants\<close>. \<open>mode\<close> is what a handle holds, \<open>res\<close> the resource it stands for.
\<close>

locale rwlock =
  fixes call :: "'c \<Rightarrow> 'h \<Rightarrow> 's \<Rightarrow> 's \<times> ('e stop + unit)"
    and grants :: "'c \<Rightarrow> flmode"
    and mode :: "'s \<Rightarrow> 'h \<Rightarrow> flmode"
    and res :: "'s \<Rightarrow> 'h \<Rightarrow> 'r option"
    and inv :: "'s \<Rightarrow> bool"
  assumes inv_call: "inv s \<Longrightarrow> inv (fst (call c h s))"
    and res_call: "res (fst (call c h s)) = res s"
    and other_call: "h' \<noteq> h \<Longrightarrow> mode (fst (call c h s)) h' = mode s h'"
    and got: "call c h s = (s', Inr ()) \<Longrightarrow> mode s' h = grants c"
    and excl: "inv s \<Longrightarrow> res s h = res s h' \<Longrightarrow> h \<noteq> h' \<Longrightarrow> mode s h = ExclusiveLk \<Longrightarrow>
      mode s h' = Unlocked"
begin

text \<open>
  A call is refused while another handle of the resource holds a lock that does not go
  with what the call would grant.
\<close>

lemma refused:
  assumes "inv s" "res s h = res s h'" "h \<noteq> h'"
    and "grants c = ExclusiveLk \<and> mode s h' \<noteq> Unlocked \<or>
         grants c \<noteq> Unlocked \<and> mode s h' = ExclusiveLk"
  shows "call c h s \<noteq> (s', Inr ())"
proof
  assume ok: "call c h s = (s', Inr ())"
  have "inv s'" "res s' = res s" "mode s' h' = mode s h'"
    using inv_call [of s c h] res_call [of c h s] other_call [of h' h c s] assms ok by auto
  then show False
    using excl [of s' h h'] excl [of s' h' h] got [OF ok] assms by auto
qed

text \<open>
  Whatever sequence of calls is made through other handles, a handle keeps its lock, and
  while it is exclusive nobody else has one.
\<close>

lemma undisturbed:
  assumes "inv s" and "\<forall>(c, h') \<in> set calls. h' \<noteq> h"
  shows "inv (fold (\<lambda>(c, h') s. fst (call c h' s)) calls s) \<and>
    res (fold (\<lambda>(c, h') s. fst (call c h' s)) calls s) = res s \<and>
    mode (fold (\<lambda>(c, h') s. fst (call c h' s)) calls s) h = mode s h"
  using assms
proof (induction calls arbitrary: s)
  case (Cons c calls)
  obtain op h' where c: "c = (op, h')" by (cases c)
  with Cons.prems have "h \<noteq> h'" by auto
  with Cons.IH [OF inv_call [OF Cons.prems(1)], of op h'] Cons.prems c show ?case
    using res_call [of op h' s] other_call [of h h' op s] by simp
qed simp

lemma sole_holder:
  assumes "inv s" and "mode s h = ExclusiveLk" and "\<forall>(c, h') \<in> set calls. h' \<noteq> h"
    and "res s g = res s h" and "g \<noteq> h"
  shows "mode (fold (\<lambda>(c, h') s. fst (call c h' s)) calls s) g = Unlocked"
  using undisturbed [OF assms(1,3)] assms(2,4,5) excl by metis

end

section \<open>File locks implement the contract\<close>

text \<open>The five methods that change the state of a lock.\<close>

datatype lockCall = CTryExclusive | CExclusive | CTryShared | CShared | CUnlock

fun runCall :: "lockCall \<Rightarrow> 'd FileLock \<Rightarrow> ('d, unit) gofs" where
  "runCall CTryExclusive l = FileLock_TryExclusiveLock l"
| "runCall CExclusive l = FileLock_ExclusiveLock l"
| "runCall CTryShared l = FileLock_TrySharedLock l"
| "runCall CShared l = FileLock_SharedLock l"
| "runCall CUnlock l = FileLock_Unlock l"

fun callMode :: "lockCall \<Rightarrow> flmode" where
  "callMode CTryExclusive = ExclusiveLk"
| "callMode CExclusive = ExclusiveLk"
| "callMode CTryShared = SharedLk"
| "callMode CShared = SharedLk"
| "callMode CUnlock = Unlocked"

lemma runCall_flock:
  obtains f opn nb where "runCall c l = mapErr f (sys_flock (lk_fd l) opn nb)"
    and "callMode c = (case opn of LOCK_EX \<Rightarrow> ExclusiveLk | LOCK_SH \<Rightarrow> SharedLk | LOCK_UN \<Rightarrow> Unlocked)"
  by (cases c) (auto simp: FileLock_defs)

interpretation file_lock: rwlock
  "\<lambda>c fd. runCall c \<lparr>lk_path = p, lk_fd = fd\<rparr>" callMode mode_of ino_of lock_inv for p :: "'d \<times> string"
proof unfold_locales
  fix s :: "'d kernel" and c and h h' :: fdesc
  obtain f opn nb where *: "runCall c \<lparr>lk_path = p, lk_fd = h\<rparr> = mapErr f (sys_flock h opn nb)"
    and m: "callMode c = (case opn of LOCK_EX \<Rightarrow> ExclusiveLk | LOCK_SH \<Rightarrow> SharedLk | LOCK_UN \<Rightarrow> Unlocked)"
    by (rule runCall_flock [of c "\<lparr>lk_path = p, lk_fd = h\<rparr>"]) auto
  show "lock_inv s \<Longrightarrow> lock_inv (fst (runCall c \<lparr>lk_path = p, lk_fd = h\<rparr> s))"
    and "ino_of (fst (runCall c \<lparr>lk_path = p, lk_fd = h\<rparr> s)) = ino_of s"
    by (simp_all add: * mapErr_state sys_flock_lock_inv)
  show "h' \<noteq> h \<Longrightarrow> mode_of (fst (runCall c \<lparr>lk_path = p, lk_fd = h\<rparr> s)) h' = mode_of s h'"
    by (simp add: * mapErr_state sys_flock_other)
  show "runCall c \<lparr>lk_path = p, lk_fd = h\<rparr> s = (s', Inr ()) \<Longrightarrow> mode_of s' h = callMode c" for s'
    by (simp add: * m mapErr_Inr sys_flock_got(1))
qed (rule lock_inv_excl)

section \<open>Opening and closing\<close>

lemma lock_inv_opened:
  assumes "lock_inv k"
  shows "lock_inv (k\<lparr>descs := (next_fd k, i, Unlocked) # descs k, next_fd := next_fd k + 1\<rparr>)"
proof -
  have "fds_ok k" using assms by (simp add: lock_inv_def)
  then have "map_of (descs k) (next_fd k) = None" by (rule fds_ok_next)
  then show ?thesis
    using assms by (auto simp: lock_inv_def fds_ok_def excl_ok_def map_of_eq_None_iff image_iff)
qed

lemma sys_open_lock_inv: "lock_inv k \<Longrightarrow> lock_inv (fst (sys_open b d n k))"
  by (cases "sys_open b d n k") (auto elim!: sys_open_cases simp: lock_inv_opened)

lemma map_of_closed:
  "map_of (filter (\<lambda>e. fst e \<noteq> fd) ds) fd' = (if fd' = fd then None else map_of ds fd')"
  by (induction ds) auto

lemma lock_inv_closed: "lock_inv k \<Longrightarrow> lock_inv (k\<lparr>descs := filter (\<lambda>e. fst e \<noteq> fd) (descs k)\<rparr>)"
  by (auto simp: lock_inv_def fds_ok_def excl_ok_def map_of_closed distinct_map_filter split: if_splits)

lemma sys_close_lock_inv: "lock_inv k \<Longrightarrow> lock_inv (fst (sys_close fd k))"
  by (auto simp: sys_close_def lock_inv_closed)

text \<open>The new lock refers to the inode at the path and nothing else has changed.\<close>

lemma NewLock_outcome:
  assumes "NewLock (d, n) lt k = (k', r)"
  shows "k' = k \<and> (\<exists>e. r = Inl (Fail e)) \<or>
    (\<exists>i. lookup k d n = Some i \<and>
       k' = k\<lparr>descs := (next_fd k, i, Unlocked) # descs k, next_fd := next_fd k + 1\<rparr> \<and>
       ((\<exists>e. r = Inl (Fail e)) \<or>
        itype k i = (case lt of Dir \<Rightarrow> DirT | RegFile \<Rightarrow> RegT) \<and>
        r = Inr \<lparr>lk_path = (d, n), lk_fd = next_fd k\<rparr>))"
  using assms unfolding NewLock_def
  by (cases lt) (auto simp: ino_of_opened elim!: bindIO_cases mapErr_cases ret_cases stop_cases
      sys_open_cases sys_fstat_cases split: if_splits)

lemma NewLock_cases:
  assumes "NewLock (d, n) lt k = (k', r)"
  obtains (failed) e where "k' = k" and "r = Inl (Fail e)"
  | (leaked) e i where "lookup k d n = Some i" and "r = Inl (Fail e)"
      and "k' = k\<lparr>descs := (next_fd k, i, Unlocked) # descs k, next_fd := next_fd k + 1\<rparr>"
  | (finished) i where "lookup k d n = Some i" and "itype k i = (case lt of Dir \<Rightarrow> DirT | RegFile \<Rightarrow> RegT)"
      and "r = Inr \<lparr>lk_path = (d, n), lk_fd = next_fd k\<rparr>"
      and "k' = k\<lparr>descs := (next_fd k, i, Unlocked) # descs k, next_fd := next_fd k + 1\<rparr>"
  using NewLock_outcome [OF assms] that by blast

lemma NewLock_ok:
  assumes "NewLock (d, n) lt k = (k', Inr l)"
  obtains i where "lookup k d n = Some i" and "itype k i = (case lt of Dir \<Rightarrow> DirT | RegFile \<Rightarrow> RegT)"
    and "l = \<lparr>lk_path = (d, n), lk_fd = next_fd k\<rparr>"
    and "k' = k\<lparr>descs := (next_fd k, i, Unlocked) # descs k, next_fd := next_fd k + 1\<rparr>"
  using NewLock_outcome [OF assms] that by blast

lemma NewLock_notExist:
  assumes "NewLock (d, n) lt k = (k', Inl (Fail ErrNotExist))"
  shows "k' = k"
  using assms unfolding NewLock_def
  by (auto elim!: bindIO_cases mapErr_cases ret_cases stop_cases sys_open_cases split: if_splits)

lemma NewLock_frame:
  assumes "NewLock (d, n) lt k = (k', r)"
  shows "dirs k' = dirs k \<and> itype k' = itype k \<and> files k' = files k \<and> ctime k' = ctime k \<and>
    next_ino k' = next_ino k \<and> clock k' = clock k \<and> fault k' = fault k"
  using assms by (rule NewLock_cases) auto

lemma NewLock_lock_inv: "lock_inv k \<Longrightarrow> lock_inv (fst (NewLock (d, n) lt k))"
  by (cases "NewLock (d, n) lt k") (auto elim!: NewLock_cases simp: lock_inv_opened)

text \<open>A lock taken by path: the holder has the lock of the inode at that path.\<close>

lemma TryExclusiveLock_ok:
  assumes "TryExclusiveLock (d, n) lt k = (k', Inr l)"
  shows "lookup k d n \<noteq> None \<and> ino_of k' (lk_fd l) = lookup k d n \<and> mode_of k' (lk_fd l) = ExclusiveLk"
proof -
  obtain k1 where new: "NewLock (d, n) lt k = (k1, Inr l)"
    and try1: "sys_flock (lk_fd l) LOCK_EX True k1 = (k', Inr ())"
    using assms by (auto simp: TryExclusiveLock_def FileLock_defs elim!: io_elims)
  from new obtain i where "lookup k d n = Some i" "lk_fd l = next_fd k"
    "k1 = k\<lparr>descs := (next_fd k, i, Unlocked) # descs k, next_fd := next_fd k + 1\<rparr>"
    by (rule NewLock_ok) simp
  moreover from this have "ino_of k1 (lk_fd l) = Some i" by (simp add: ino_of_def)
  moreover have "ino_of k' = ino_of k1"
    using sys_flock_ino [of "lk_fd l" LOCK_EX True k1] try1 by simp
  ultimately show ?thesis using sys_flock_got(1) [OF try1] by simp
qed

text \<open>A lock that nobody has is taken, and closing it again leaves the lock table as it was.\<close>

lemma ExclusiveLock_free:
  assumes "lock_inv k" and "fault k = (\<lambda>_. None)" and "lookup k d n = Some i" and "itype k i = DirT"
    and "\<not> (\<exists>fd m. map_of (descs k) fd = Some (i, m) \<and> m \<noteq> Unlocked)"
  shows "ExclusiveLock (d, n) Dir k =
    (set_mode (next_fd k) ExclusiveLk (opened i k), Inr \<lparr>lk_path = (d, n), lk_fd = next_fd k\<rparr>)"
proof -
  have fds: "fds_ok k" using assms(1) by (simp add: lock_inv_def)
  then have "fds_ok (opened i k)" using lock_inv_opened [OF assms(1)] by (simp add: lock_inv_def)
  then have free: "\<not> others_locked (opened i k) (next_fd k) i"
    using assms(5) by (auto simp: others_locked_iff)
  have new: "NewLock (d, n) Dir k = (opened i k, Inr \<lparr>lk_path = (d, n), lk_fd = next_fd k\<rparr>)"
    using assms(2-4) by (simp add: NewLock_def io_simps mapErr_def sys_open_def with_fault_def sys_fstat_def)
  show ?thesis
    using free assms(2) by (simp add: ExclusiveLock_def new io_simps FileLock_defs mapErr_def sys_flock_def)
qed

lemma FileLock_Close_fresh:
  assumes "lock_inv k"
  shows "FileLock_Close \<lparr>lk_path = p, lk_fd = next_fd k\<rparr> (set_mode (next_fd k) m (opened i k)) =
    (k\<lparr>next_fd := next_fd k + 1\<rparr>, Inr (\<lparr>lk_path = p, lk_fd = -1\<rparr>, None))"
proof -
  have "fds_ok k" using assms by (simp add: lock_inv_def)
  then have fresh: "\<forall>e \<in> set (descs k). fst e \<noteq> next_fd k" by (force simp: fds_ok_def)
  then have "map (\<lambda>(fd', i, m'). if fd' = next_fd k then (fd', i, m) else (fd', i, m')) (descs k) = descs k"
    by (intro map_idI) auto
  with fresh show ?thesis
    by (simp add: FileLock_Close_def io_simps mapErr_def sys_close_def set_mode_def)
qed

lemma ExclusiveLock_refused:
  assumes "lock_inv k" and "lookup k d n = Some i" and "map_of (descs k) fd = Some (i, m)" and "m \<noteq> Unlocked"
  shows "ExclusiveLock (d, n) lt k \<noteq> (k', Inr l)"
proof
  assume "ExclusiveLock (d, n) lt k = (k', Inr l)"
  then obtain k1 where new: "NewLock (d, n) lt k = (k1, Inr l)"
    and lk: "mapErr Errno (sys_flock (lk_fd l) LOCK_EX False) k1 = (k', Inr ())"
    by (auto simp: ExclusiveLock_def FileLock_defs elim!: bindIO_cases ret_cases)
  have fds: "fds_ok k" using assms(1) by (simp add: lock_inv_def)
  then have "fd \<noteq> next_fd k" using fds_ok_next assms(3) by fastforce
  moreover have k1: "k1 = opened i k" "lk_fd l = next_fd k" using NewLock_outcome [OF new] assms(2) by auto
  moreover have "fds_ok (opened i k)" using lock_inv_opened [OF assms(1)] by (simp add: lock_inv_def)
  ultimately have "others_locked k1 (lk_fd l) i"
    using assms(3,4) by (auto simp: others_locked_iff)
  then show False using lk k1 by (auto simp: sys_flock_def elim!: mapErr_cases split: option.splits)
qed

section \<open>Invariants that survive a process using locks\<close>

text \<open>
  A fact about the machine that a process cannot break by opening, locking and closing
  descriptors that are not \<open>foreign\<close> and by making missing directories.
\<close>

locale fd_guest =
  fixes I :: "'d kernel \<Rightarrow> bool" and foreign :: "fdesc \<Rightarrow> bool"
  assumes table: "I k \<Longrightarrow> lock_inv k"
    and flocked: "I k \<Longrightarrow> \<not> foreign fd \<Longrightarrow> I (fst (sys_flock fd opn nb k))"
    and opened: "I k \<Longrightarrow> I (opened i k)"
    and fresh: "I k \<Longrightarrow> \<not> foreign (next_fd k)"
    and no_fd: "I k \<Longrightarrow> \<not> foreign (-1)"
    and closed: "I k \<Longrightarrow> \<not> foreign fd \<Longrightarrow> I (k\<lparr>descs := filter (\<lambda>e. fst e \<noteq> fd) (descs k)\<rparr>)"
    and advanced: "I k \<Longrightarrow> I (k\<lparr>next_fd := next_fd k + 1\<rparr>)"
    and made_dir: "I k \<Longrightarrow> dirs k d = None \<Longrightarrow> I (set_dir d [] k)"
begin

lemma NewLock_guest:
  assumes "I k" and "NewLock (d, n) lt k = (k', r)"
  shows "I k' \<and> (case r of Inl e \<Rightarrow> \<exists>x. e = Fail x | Inr l \<Rightarrow> \<not> foreign (lk_fd l))"
  using NewLock_outcome [OF assms(2)] assms(1) opened fresh by auto

lemma call_guest:
  assumes "I k" and "\<not> foreign fd" and "mapErr f (sys_flock fd opn nb) k = (k', r)"
  shows "I k'"
  using flocked [OF assms(1,2), of opn nb] mapErr_state [of f "sys_flock fd opn nb" k] assms(3) by simp

lemma FileLock_Close_guest:
  assumes "I k" and "\<not> foreign (lk_fd l)" and "FileLock_Close l k = (k', r)"
  shows "I k' \<and> (\<exists>err. r = Inr (l\<lparr>lk_fd := -1\<rparr>, err))"
  using assms unfolding FileLock_Close_def
  by (auto elim!: tryIO_cases mapErr_cases ret_cases sys_close_cases intro: closed)

lemma mkdirall_guest: "I k \<Longrightarrow> sys_mkdirall d k = (k', r) \<Longrightarrow> I k' \<and> (\<forall>e. r = Inl e \<longrightarrow> (\<exists>x. e = Fail x))"
  using made_dir by (auto dest!: sys_mkdirall_outcome)

end

text \<open>The lock table itself is such a fact.\<close>

interpretation table_guest: fd_guest lock_inv "\<lambda>_. False"
  by unfold_locales (simp_all add: sys_flock_lock_inv lock_inv_opened lock_inv_closed lock_inv_next_fd)

section \<open>Properties\<close>

text \<open>
  C1. Mutual exclusion of file locks: once a handle has taken the lock of an inode
  exclusively, then after any sequence of lock and unlock calls through other handles it
  still holds it, and no other handle open on that inode holds any lock.
\<close>

theorem flock_mutual_exclusion:
  assumes "lock_inv k" and "runCall c \<lparr>lk_path = p, lk_fd = fd\<rparr> k = (k1, Inr ())"
    and "callMode c = ExclusiveLk" and "\<forall>(c, fd') \<in> set calls. fd' \<noteq> fd"
  defines "k2 \<equiv> fold (\<lambda>(c, h) s. fst (runCall c \<lparr>lk_path = p, lk_fd = h\<rparr> s)) calls k1"
  shows "mode_of k2 fd = ExclusiveLk \<and>
    (\<forall>g. ino_of k2 g = ino_of k2 fd \<and> g \<noteq> fd \<longrightarrow> mode_of k2 g = Unlocked)"
proof -
  have ex: "mode_of k1 fd = ExclusiveLk" using file_lock.got [OF assms(2)] assms(3) by simp
  have inv: "lock_inv k1" using file_lock.inv_call [of k c p fd] assms(1,2) by simp
  have calls: "\<forall>(c, h) \<in> set calls. h \<noteq> fd" using assms(4) .
  show ?thesis
    using file_lock.undisturbed [OF inv calls] file_lock.sole_holder [OF inv ex calls] ex
    by (auto simp: k2_def)
qed

theorem flock_mutual_exclusion_witness:
  "\<exists>k k1 :: unit kernel.
     k = init_kernel\<lparr>descs := [(4, 7, Unlocked), (3, 7, Unlocked)], next_fd := 5\<rparr> \<and> lock_inv k \<and>
     runCall CTryExclusive \<lparr>lk_path = ((), ''pod''), lk_fd = 3\<rparr> k = (k1, Inr ()) \<and>
     mode_of (fst (runCall CTryShared \<lparr>lk_path = ((), ''pod''), lk_fd = 4\<rparr> k1)) 3 = ExclusiveLk"
proof -
  define k :: "unit kernel" where
    "k = init_kernel\<lparr>descs := [(4, 7, Unlocked), (3, 7, Unlocked)], next_fd := 5\<rparr>"
  define k1 where "k1 = set_mode 3 ExclusiveLk k"
  have inv: "lock_inv k"
    by (auto simp: k_def lock_inv_def fds_ok_def excl_ok_def split: if_splits)
  have run: "runCall CTryExclusive \<lparr>lk_path = ((), ''pod''), lk_fd = 3\<rparr> k = (k1, Inr ())"
    by (simp add: k_def k1_def FileLock_defs mapErr_def sys_flock_def init_kernel_def others_locked_def)
  show ?thesis
    using flock_mutual_exclusion [OF inv run, of "[(CTryShared, 4)]"] inv run
    by (intro exI [of _ k] exI [of _ k1]) (simp add: k_def [symmetric])
qed

end
