(* ===== verification/Keylock.thy ===== *)
theory Keylock
  imports Flock "HOL-Library.Word"
begin

text \<open>
  Package \<^verbatim>\<open>pkg/lock\<close>, file \<^verbatim>\<open>keylock.go\<close>: locks on a key, kept as a file named after the key
  in a lock directory. The loop of \<^verbatim>\<open>lock\<close> copes with other processes that replace the file,
  so it takes an argument \<open>env\<close>: what the other processes do to the machine before each
  attempt, and between taking the lock and looking at the path. They are given the
  caller's descriptor, which is the one thing they cannot touch.
\<close>

unbundle bit_operations_syntax

section \<open>Key locks\<close>

type_synonym keyLockMode = "64 word"

definition keyLockExclusive :: keyLockMode where "keyLockExclusive = 1"
definition keyLockShared :: keyLockMode where "keyLockShared = 2"
definition keyLockNonBlocking :: keyLockMode where "keyLockNonBlocking = 4"

definition defaultLockRetries :: int where "defaultLockRetries = 3"

record 'd KeyLock =
  kl_dir :: 'd
  kl_key :: string
  kl_lock :: "'d FileLock"

type_synonym 'd env = "nat \<Rightarrow> fdesc \<Rightarrow> 'd kernel \<Rightarrow> 'd kernel"

definition NewKeyLock :: "'d \<Rightarrow> string \<Rightarrow> ('d, 'd KeyLock) gofs" where
  "NewKeyLock lockDir key =
     bindIO (mapErr PathError (sys_mkdirall lockDir)) (\<lambda>_.
     bindIO (mapErr (\<lambda>e. Wrap ''error creating key lock file: '' (PathError e)) (sys_creat lockDir key)) (\<lambda>_.
     bindIO (mapErr (Wrap ''error opening key lock file: '') (NewLock (lockDir, key) RegFile)) (\<lambda>keyLock.
     ret \<lparr>kl_dir = lockDir, kl_key = key, kl_lock = keyLock\<rparr>)))"

definition KeyLock_Close :: "'d KeyLock \<Rightarrow> ('d, 'd KeyLock) gofs" where
  "KeyLock_Close l = bindIO (FileLock_Close (kl_lock l)) (\<lambda>(lk, err). ret (l\<lparr>kl_lock := lk\<rparr>))"

text \<open>The switch over the two bits of the mode.\<close>

definition KeyLock_acquire :: "keyLockMode \<Rightarrow> 'd FileLock \<Rightarrow> ('d, unit) gofs" where
  "KeyLock_acquire mode lk =
     (let isExclusive = (mode AND keyLockExclusive \<noteq> 0);
          isNonBlocking = (mode AND keyLockNonBlocking \<noteq> 0)
      in if isExclusive \<and> \<not> isNonBlocking then FileLock_ExclusiveLock lk
         else if isExclusive \<and> isNonBlocking then FileLock_TryExclusiveLock lk
         else if \<not> isExclusive \<and> \<not> isNonBlocking then FileLock_SharedLock lk
         else FileLock_TrySharedLock lk)"

text \<open>Is the locked file the one that is now at the path?\<close>

definition KeyLock_isCurrent :: "'d KeyLock \<Rightarrow> ('d, bool) gofs" where
  "KeyLock_isCurrent l =
     (case FileLock_Fd (kl_lock l) of
        Inl e \<Rightarrow> fail e
      | Inr lfd \<Rightarrow>
          bindIO (mapErr Errno (sys_fstat lfd)) (\<lambda>(_, lockIno).
          bindIO (mapErr Errno (sys_open False (kl_dir l) (kl_key l))) (\<lambda>fd.
          tryIO (mapErr Errno (sys_fstat fd)) (\<lambda>r.
          tryIO (mapErr Errno (sys_close fd)) (\<lambda>_.
          case r of
            Inl e \<Rightarrow> fail e
          | Inr (_, curIno) \<Rightarrow> ret (lockIno = curIno))))))"

text \<open>One attempt of the loop: take the lock, then look whether the file has changed.\<close>

definition KeyLock_attempt :: "'d env \<Rightarrow> keyLockMode \<Rightarrow> int \<Rightarrow> 'd KeyLock \<Rightarrow> ('d, bool) gofs" where
  "KeyLock_attempt env mode retries l =
     bindIO (others (env (2 * nat retries) (lk_fd (kl_lock l)))) (\<lambda>_.
     bindIO (KeyLock_acquire mode (kl_lock l)) (\<lambda>_.
     bindIO (others (env (2 * nat retries + 1) (lk_fd (kl_lock l)))) (\<lambda>_.
     KeyLock_isCurrent l)))"

text \<open>The file has changed: discard this lock and open the file that is there now.\<close>

definition KeyLock_reopen :: "'d KeyLock \<Rightarrow> ('d, 'd KeyLock \<times> goerr option) gofs" where
  "KeyLock_reopen l =
     bindIO (KeyLock_Close l) (\<lambda>l'.
     tryIO (NewKeyLock (kl_dir l) (kl_key l)) (\<lambda>r.
     case r of
       Inl e \<Rightarrow> ret (l', Some e)
     | Inr nl \<Rightarrow> ret (l'\<lparr>kl_lock := kl_lock nl\<rparr>, None)))"

text \<open>
  The loop returns the lock object, which it may have reopened, and the error. An attempt
  that waits for the lock is the outcome \<open>Block\<close>.
\<close>

function KeyLock_lock ::
  "'d env \<Rightarrow> keyLockMode \<Rightarrow> int \<Rightarrow> int \<Rightarrow> 'd KeyLock \<Rightarrow> ('d, 'd KeyLock \<times> goerr option) gofs" where
  "KeyLock_lock env mode maxRetries retries l =
     tryIO (KeyLock_attempt env mode retries l) (\<lambda>r.
     case r of
       Inl e \<Rightarrow> ret (l, Some e)
     | Inr current \<Rightarrow>
         if current then ret (l, None)
         else if retries \<ge> maxRetries
         then ret (l, Some (Msg (''cannot acquire lock after '' @ itoa (nat retries) @ '' retries'')))
         else bindIO (KeyLock_reopen l) (\<lambda>(l', err).
              case err of
                Some e \<Rightarrow> ret (l', Some e)
              | None \<Rightarrow> KeyLock_lock env mode maxRetries (retries + 1) l'))"
  by pat_completeness auto
termination by (relation "measure (\<lambda>(env, mode, maxRetries, retries, l). nat (maxRetries - retries))") auto

declare KeyLock_lock.simps [simp del]

definition createAndLock :: "'d env \<Rightarrow> 'd \<Rightarrow> string \<Rightarrow> keyLockMode \<Rightarrow> ('d, 'd KeyLock) gofs" where
  "createAndLock env lockDir key mode =
     bindIO (NewKeyLock lockDir key) (\<lambda>keyLock.
     bindIO (KeyLock_lock env mode defaultLockRetries 0 keyLock) (\<lambda>(l, err).
     case err of
       Some e \<Rightarrow> bindIO (KeyLock_Close l) (\<lambda>_. fail e)
     | None \<Rightarrow> ret l))"

definition KeyLock_TryExclusiveKeyLock :: "'d env \<Rightarrow> 'd KeyLock \<Rightarrow> ('d, 'd KeyLock \<times> goerr option) gofs" where
  "KeyLock_TryExclusiveKeyLock env l =
     KeyLock_lock env (keyLockExclusive OR keyLockNonBlocking) defaultLockRetries 0 l"

definition TryExclusiveKeyLock :: "'d env \<Rightarrow> 'd \<Rightarrow> string \<Rightarrow> ('d, 'd KeyLock) gofs" where
  "TryExclusiveKeyLock env lockDir key =
     createAndLock env lockDir key (keyLockExclusive OR keyLockNonBlocking)"

definition KeyLock_ExclusiveKeyLock :: "'d env \<Rightarrow> 'd KeyLock \<Rightarrow> ('d, 'd KeyLock \<times> goerr option) gofs" where
  "KeyLock_ExclusiveKeyLock env l = KeyLock_lock env keyLockExclusive defaultLockRetries 0 l"

definition ExclusiveKeyLock :: "'d env \<Rightarrow> 'd \<Rightarrow> string \<Rightarrow> ('d, 'd KeyLock) gofs" where
  "ExclusiveKeyLock env lockDir key = createAndLock env lockDir key keyLockExclusive"

definition KeyLock_TrySharedKeyLock :: "'d env \<Rightarrow> 'd KeyLock \<Rightarrow> ('d, 'd KeyLock \<times> goerr option) gofs" where
  "KeyLock_TrySharedKeyLock env l =
     KeyLock_lock env (keyLockShared OR keyLockNonBlocking) defaultLockRetries 0 l"

definition TrySharedKeyLock :: "'d env \<Rightarrow> 'd \<Rightarrow> string \<Rightarrow> ('d, 'd KeyLock) gofs" where
  "TrySharedKeyLock env lockDir key =
     createAndLock env lockDir key (keyLockShared OR keyLockNonBlocking)"

definition KeyLock_SharedKeyLock :: "'d env \<Rightarrow> 'd KeyLock \<Rightarrow> ('d, 'd KeyLock \<times> goerr option) gofs" where
  "KeyLock_SharedKeyLock env l = KeyLock_lock env keyLockShared defaultLockRetries 0 l"

definition SharedKeyLock :: "'d env \<Rightarrow> 'd \<Rightarrow> string \<Rightarrow> ('d, 'd KeyLock) gofs" where
  "SharedKeyLock env lockDir key = createAndLock env lockDir key keyLockShared"

definition KeyLock_Unlock :: "'d KeyLock \<Rightarrow> ('d, unit) gofs" where
  "KeyLock_Unlock l = FileLock_Unlock (kl_lock l)"

fun cleanKeys :: "'d env \<Rightarrow> 'd \<Rightarrow> string list \<Rightarrow> ('d, unit) gofs" where
  "cleanKeys env lockDir [] = ret ()"
| "cleanKeys env lockDir (f # fs) =
     tryIO (TryExclusiveKeyLock env lockDir f) (\<lambda>r.
     case r of
       Inl e \<Rightarrow> if e = ErrLocked then cleanKeys env lockDir fs else fail e
     | Inr keyLock \<Rightarrow>
         tryIO (mapErr PathError (sys_remove lockDir f)) (\<lambda>r.
         bindIO (KeyLock_Close keyLock) (\<lambda>_.
         case r of
           Inl e \<Rightarrow> fail (Wrap ''error removing lock file: '' e)
         | Inr _ \<Rightarrow> cleanKeys env lockDir fs)))"

definition CleanKeyLocks :: "'d env \<Rightarrow> 'd \<Rightarrow> ('d, unit) gofs" where
  "CleanKeyLocks env lockDir =
     bindIO (mapErr (\<lambda>e. Wrap ''error opening lockDir: '' (PathError e)) (sys_opendir lockDir)) (\<lambda>_.
     bindIO (mapErr (\<lambda>e. Wrap ''error getting lock files list: '' (PathError e)) (sys_readdirnames lockDir))
       (cleanKeys env lockDir))"

section \<open>What the steps of the loop do\<close>

text \<open>A key lock is owned when its descriptor holds the lock of the file now at the path.\<close>

definition owns :: "'d kernel \<Rightarrow> 'd KeyLock \<Rightarrow> flmode \<Rightarrow> bool" where
  "owns k l m \<longleftrightarrow> lookup k (kl_dir l) (kl_key l) \<noteq> None \<and>
     ino_of k (lk_fd (kl_lock l)) = lookup k (kl_dir l) (kl_key l) \<and>
     mode_of k (lk_fd (kl_lock l)) = m"

definition lockMode :: "keyLockMode \<Rightarrow> flmode" where
  "lockMode mode = (if mode AND keyLockExclusive \<noteq> 0 then ExclusiveLk else SharedLk)"

lemma KeyLock_acquire_flock:
  obtains f nb where "KeyLock_acquire mode lk =
    mapErr f (sys_flock (lk_fd lk) (if lockMode mode = ExclusiveLk then LOCK_EX else LOCK_SH) nb)"
    and "nb \<longleftrightarrow> mode AND keyLockNonBlocking \<noteq> 0"
    and "nb \<Longrightarrow> f = wouldBlock"
  by (cases "mode AND keyLockExclusive \<noteq> 0"; cases "mode AND keyLockNonBlocking \<noteq> 0")
    (auto simp: KeyLock_acquire_def FileLock_defs lockMode_def)

lemma isCurrent_outcome:
  assumes "KeyLock_isCurrent l k = (k', r)" and "fds_ok k"
  shows "(k' = k \<or> k' = k\<lparr>next_fd := next_fd k + 1\<rparr>) \<and>
    ((\<exists>e. r = Inl (Fail e)) \<or>
     (\<exists>i j. ino_of k (lk_fd (kl_lock l)) = Some i \<and> lookup k (kl_dir l) (kl_key l) = Some j \<and>
        r = Inr (i = j)))"
  using assms(1) closed_again [OF assms(2)] unfolding KeyLock_isCurrent_def FileLock_Fd_def
  by (auto simp: ino_of_opened split: if_splits
      elim!: bindIO_cases tryIO_cases mapErr_cases ret_cases stop_cases
        sys_open_cases sys_fstat_cases sys_close_cases)

section \<open>Invariants that survive a guest\<close>

text \<open>
  A fact about the machine that a process using key locks cannot break: it only touches
  descriptors that are not \<open>foreign\<close>, opens and creates files, and never overwrites an entry.
\<close>

definition envKeeps :: "('d kernel \<Rightarrow> bool) \<Rightarrow> (fdesc \<Rightarrow> bool) \<Rightarrow> 'd env \<Rightarrow> bool" where
  "envKeeps I foreign env \<longleftrightarrow> (\<forall>n fd k. I k \<and> \<not> foreign fd \<longrightarrow>
     I (env n fd k) \<and> map_of (descs (env n fd k)) fd = map_of (descs k) fd)"

locale guest_inv = fd_guest +
  assumes created: "I k \<Longrightarrow> lookup k d n = None \<Longrightarrow> dirs k d \<noteq> None \<Longrightarrow> I (new_inode d n t k)"
begin

lemma creat_guest: "I k \<Longrightarrow> sys_creat d n k = (k', r) \<Longrightarrow> I k' \<and> (\<forall>e. r = Inl e \<longrightarrow> (\<exists>x. e = Fail x))"
  using created by (auto dest!: sys_creat_outcome)

lemma NewKeyLock_guest:
  assumes "I k" and "NewKeyLock d n k = (k', r)"
  shows "I k' \<and> (case r of Inl e \<Rightarrow> \<exists>x. e = Fail x
    | Inr l \<Rightarrow> \<not> foreign (lk_fd (kl_lock l)) \<and> kl_dir l = d \<and> kl_key l = n)"
  using assms unfolding NewKeyLock_def
  by (fastforce elim!: bindIO_cases mapErr_cases ret_cases dest: mkdirall_guest creat_guest NewLock_guest)

lemma Close_guest:
  assumes "I k" and "\<not> foreign (lk_fd (kl_lock l))" and "KeyLock_Close l k = (k', r)"
  shows "I k' \<and> (\<exists>l'. r = Inr l' \<and> l' = l\<lparr>kl_lock := (kl_lock l)\<lparr>lk_fd := -1\<rparr>\<rparr>)"
  using assms unfolding KeyLock_Close_def FileLock_Close_def
  by (auto elim!: bindIO_cases tryIO_cases mapErr_cases ret_cases sys_close_cases intro: closed)

lemma acquire_guest:
  assumes "I k" and "\<not> foreign (lk_fd lk)" and "KeyLock_acquire mode lk k = (k', r)"
  shows "I k' \<and> (case r of Inl e \<Rightarrow> (\<exists>x. e = Fail x) \<or> e = Block \<and> mode AND keyLockNonBlocking = 0
    | Inr _ \<Rightarrow> mode_of k' (lk_fd lk) = lockMode mode)"
proof -
  let ?opn = "if lockMode mode = ExclusiveLk then LOCK_EX else LOCK_SH"
  obtain f nb where acq: "KeyLock_acquire mode lk = mapErr f (sys_flock (lk_fd lk) ?opn nb)"
    and nb: "nb \<longleftrightarrow> mode AND keyLockNonBlocking \<noteq> 0"
    by (rule KeyLock_acquire_flock)
  obtain x where fl: "sys_flock (lk_fd lk) ?opn nb k = (k', x)"
    using assms(3) unfolding acq by (auto elim!: mapErr_cases)
  have "I k'" using flocked [OF assms(1,2), of ?opn nb] fl by simp
  moreover have "x = Inl e \<Longrightarrow> (\<exists>y. e = Fail y) \<or> e = Block \<and> \<not> nb" for e
    using fl by (auto simp: sys_flock_def split: option.splits flockop.splits if_splits)
  moreover have "x = Inr () \<Longrightarrow> mode_of k' (lk_fd lk) = lockMode mode"
    using sys_flock_got(1) [of "lk_fd lk" ?opn nb k k'] fl by (auto simp: lockMode_def)
  ultimately show ?thesis
    using assms(3) fl nb unfolding acq by (auto elim!: mapErr_cases)
qed

lemma isCurrent_guest:
  assumes "I k" and "KeyLock_isCurrent l k = (k', r)"
  shows "I k' \<and> (case r of Inl e \<Rightarrow> \<exists>x. e = Fail x | Inr b \<Rightarrow>
     b \<longrightarrow> mode_of k (lk_fd (kl_lock l)) = m \<longrightarrow> owns k' l m)"
proof -
  have "fds_ok k" using table [OF assms(1)] by (simp add: lock_inv_def)
  from isCurrent_outcome [OF assms(2) this] assms(1) show ?thesis
    by (auto simp: owns_def intro: advanced)
qed

lemma attempt_guest:
  assumes env: "envKeeps I foreign env"
    and k: "I k" and l: "\<not> foreign (lk_fd (kl_lock l))"
    and run: "KeyLock_attempt env mode retries l k = (k', r)"
  shows "I k' \<and> (case r of Inl e \<Rightarrow> (\<exists>x. e = Fail x) \<or> e = Block \<and> mode AND keyLockNonBlocking = 0
    | Inr b \<Rightarrow> b \<longrightarrow> owns k' l (lockMode mode))"
proof -
  let ?fd = "lk_fd (kl_lock l)" and ?env = "\<lambda>j. env (2 * nat retries + j) (lk_fd (kl_lock l))"
  have k1: "I (?env 0 k)" using env k l by (simp add: envKeeps_def)
  have "bindIO (KeyLock_acquire mode (kl_lock l)) (\<lambda>_. bindIO (others (?env 1)) (\<lambda>_. KeyLock_isCurrent l))
    (?env 0 k) = (k', r)"
    using run unfolding KeyLock_attempt_def by (subst (asm) bindIO_def) (simp add: others_def)
  then show ?thesis
  proof (rule bindIO_cases)
    fix e assume "KeyLock_acquire mode (kl_lock l) (?env 0 k) = (k', Inl e)" "r = Inl e"
    then show ?thesis using acquire_guest [OF k1 l, of mode k' "Inl e"] by simp
  next
    fix a k2
    assume acq: "KeyLock_acquire mode (kl_lock l) (?env 0 k) = (k2, Inr a)"
      and rest: "bindIO (others (?env 1)) (\<lambda>_. KeyLock_isCurrent l) k2 = (k', r)"
    have "I k2" "mode_of k2 ?fd = lockMode mode" using acquire_guest [OF k1 l acq] by simp_all
    then have "I (?env 1 k2)" "mode_of (?env 1 k2) ?fd = lockMode mode"
      using env l by (simp_all add: mode_of_def envKeeps_def)
    moreover have "KeyLock_isCurrent l (?env 1 k2) = (k', r)"
      using rest by (simp add: others_def bindIO_def)
    ultimately show ?thesis using isCurrent_guest [of "?env 1 k2" l k' r "lockMode mode"]
      by (auto split: sum.splits)
  qed
qed

lemma reopen_guest:
  assumes "I k" and "\<not> foreign (lk_fd (kl_lock l))" and "KeyLock_reopen l k = (k', r)"
  shows "I k' \<and> (\<exists>l' err. r = Inr (l', err) \<and> \<not> foreign (lk_fd (kl_lock l')) \<and>
    kl_dir l' = kl_dir l \<and> kl_key l' = kl_key l)"
  using assms(3) unfolding KeyLock_reopen_def
proof (rule bindIO_cases)
  fix e assume "KeyLock_Close l k = (k', Inl e)"
  then show ?thesis using Close_guest [OF assms(1,2)] by blast
next
  fix l1 k1
  assume close: "KeyLock_Close l k = (k1, Inr l1)"
    and rest: "tryIO (NewKeyLock (kl_dir l) (kl_key l)) (\<lambda>r. case r of Inl e \<Rightarrow> ret (l1, Some e)
      | Inr nl \<Rightarrow> ret (l1\<lparr>kl_lock := kl_lock nl\<rparr>, None)) k1 = (k', r)"
  have k1: "I k1" and l1: "l1 = l\<lparr>kl_lock := (kl_lock l)\<lparr>lk_fd := -1\<rparr>\<rparr>"
    using Close_guest [OF assms(1,2) close] by auto
  from rest NewKeyLock_guest [OF k1] show ?thesis
    unfolding l1 using no_fd [OF k1] by (fastforce elim!: tryIO_cases ret_cases)
qed

text \<open>
  The loop: the fact survives, the loop only waits in a blocking mode, and when it reports
  success the caller holds the lock of the file that is at the path.
\<close>

lemma lock_guest:
  assumes "envKeeps I foreign env"
    and "I k" and "\<not> foreign (lk_fd (kl_lock l))"
    and "KeyLock_lock env mode maxRetries retries l k = (k', r)"
  shows "I k' \<and> (case r of
      Inl e \<Rightarrow> e = Block \<and> mode AND keyLockNonBlocking = 0
    | Inr (l', err) \<Rightarrow> \<not> foreign (lk_fd (kl_lock l')) \<and>
        (err = None \<longrightarrow> owns k' l' (lockMode mode) \<and> kl_dir l' = kl_dir l \<and> kl_key l' = kl_key l))"
  using assms
proof (induction env mode maxRetries retries l arbitrary: k rule: KeyLock_lock.induct)
  case (1 env mode maxRetries retries l)
  note att = attempt_guest [OF 1(2-4), of mode retries]
  from 1(5) show ?case
    unfolding KeyLock_lock.simps [of env mode maxRetries retries l]
  proof (rule tryIO_cases)
    fix b k2
    assume b: "KeyLock_attempt env mode retries l k = (k2, Inr b)"
      and go: "(case Inr b of Inl e \<Rightarrow> ret (l, Some e) | Inr current \<Rightarrow> if current then ret (l, None)
         else if maxRetries \<le> retries
         then ret (l, Some (Msg (''cannot acquire lock after '' @ itoa (nat retries) @ '' retries'')))
         else bindIO (KeyLock_reopen l) (\<lambda>(l', err). case err of Some e \<Rightarrow> ret (l', Some e)
           | None \<Rightarrow> KeyLock_lock env mode maxRetries (retries + 1) l')) k2 = (k', r)"
    have k2: "I k2" "b \<longrightarrow> owns k2 l (lockMode mode)" using att [OF b] by auto
    show ?thesis
    proof (cases "b \<or> maxRetries \<le> retries")
      case True
      then show ?thesis using go k2 1(4) by (auto elim!: ret_cases split: if_splits)
    next
      case False
      obtain l' err k3 where re: "KeyLock_reopen l k2 = (k3, Inr (l', err))"
        using reopen_guest [OF k2(1) 1(4)] by (cases "KeyLock_reopen l k2") blast
      with go False have next1: "(case err of Some e \<Rightarrow> ret (l', Some e)
           | None \<Rightarrow> KeyLock_lock env mode maxRetries (retries + 1) l') k3 = (k', r)"
        by (simp add: bindIO_def)
      have k3: "I k3" "\<not> foreign (lk_fd (kl_lock l'))" "kl_dir l' = kl_dir l" "kl_key l' = kl_key l"
        using reopen_guest [OF k2(1) 1(4) re] by auto
      show ?thesis
      proof (cases err)
        case None
        with next1 have "KeyLock_lock env mode maxRetries (retries + 1) l' k3 = (k', r)" by simp
        from 1(1) [of b, OF _ _ 1(2) k3(1,2) this] False k3 show ?thesis by (auto split: sum.splits)
      next
        case (Some e)
        with next1 k3 show ?thesis by (auto elim!: ret_cases)
      qed
    qed
  qed (use att 1(4) in \<open>fastforce elim!: ret_cases\<close>)+
qed

lemma createAndLock_guest:
  assumes env: "envKeeps I foreign env"
    and k: "I k" and run: "createAndLock env d key mode k = (k', r)"
  shows "I k' \<and> (case r of Inl e \<Rightarrow> (\<exists>x. e = Fail x) \<or> e = Block \<and> mode AND keyLockNonBlocking = 0
    | Inr l \<Rightarrow> \<not> foreign (lk_fd (kl_lock l)) \<and> owns k' l (lockMode mode) \<and> kl_dir l = d \<and> kl_key l = key)"
  using run unfolding createAndLock_def
proof (rule bindIO_cases)
  fix e assume "NewKeyLock d key k = (k', Inl e)" "r = Inl e"
  then show ?thesis using NewKeyLock_guest [OF k, of d key k' "Inl e"] by auto
next
  fix l k1
  assume new: "NewKeyLock d key k = (k1, Inr l)"
    and rest: "bindIO (KeyLock_lock env mode defaultLockRetries 0 l) (\<lambda>(l, err). case err of
      Some e \<Rightarrow> bindIO (KeyLock_Close l) (\<lambda>_. fail e) | None \<Rightarrow> ret l) k1 = (k', r)"
  have l: "I k1" "\<not> foreign (lk_fd (kl_lock l))" "kl_dir l = d" "kl_key l = key"
    using NewKeyLock_guest [OF k new] by simp_all
  note lock = lock_guest [OF env l(1,2), of mode defaultLockRetries 0]
  from rest show ?thesis
  proof (rule bindIO_cases)
    fix e assume "KeyLock_lock env mode defaultLockRetries 0 l k1 = (k', Inl e)" "r = Inl e"
    then show ?thesis using lock [of k' "Inl e"] by simp
  next
    fix x k2
    assume x: "KeyLock_lock env mode defaultLockRetries 0 l k1 = (k2, Inr x)"
      and go: "(case x of (l, err) \<Rightarrow> case err of Some e \<Rightarrow> bindIO (KeyLock_Close l) (\<lambda>_. fail e)
        | None \<Rightarrow> ret l) k2 = (k', r)"
    obtain l' err where [simp]: "x = (l', err)" by (cases x)
    have "I k2" "\<not> foreign (lk_fd (kl_lock l'))" using lock [OF x] by simp_all
    note close = Close_guest [OF this]
    show ?thesis
      using go lock [OF x] l by (cases err) (auto elim!: bindIO_cases ret_cases stop_cases dest: close)
  qed
qed

end

section \<open>Two invariants that survive\<close>

interpretation guest: guest_inv lock_inv "\<lambda>_. False"
  by unfold_locales simp

text \<open>The file of a key on which a descriptor holds a lock.\<close>

definition held :: "'d \<Rightarrow> string \<Rightarrow> fdesc \<Rightarrow> 'd kernel \<Rightarrow> bool" where
  "held d f fd k \<longleftrightarrow> lock_inv k \<and> lookup k d f \<noteq> None \<and> ino_of k fd = lookup k d f \<and> mode_of k fd \<noteq> Unlocked"

lemma held_fd: "held d f fd k \<Longrightarrow> 0 \<le> fd \<and> fd < next_fd k"
  by (force simp: held_def lock_inv_def fds_ok_def ino_of_def dest!: map_of_SomeD)

lemma ino_of_closed:
  "ino_of (k\<lparr>descs := filter (\<lambda>e. fst e \<noteq> fd) (descs k)\<rparr>) g = (if g = fd then None else ino_of k g)"
  "mode_of (k\<lparr>descs := filter (\<lambda>e. fst e \<noteq> fd) (descs k)\<rparr>) g = (if g = fd then Unlocked else mode_of k g)"
  by (simp_all add: ino_of_def mode_of_def map_of_closed)

lemma held_table:
  assumes "held d f fd k" and "lock_inv k'" and "lookup k' d f = lookup k d f"
    and "ino_of k' fd = ino_of k fd" and "mode_of k' fd = mode_of k fd"
  shows "held d f fd k'"
  using assms by (simp add: held_def)

interpretation held_guest: guest_inv "held d f fd" "\<lambda>g. g = fd" for d f fd
proof unfold_locales
  fix k :: "'a kernel"
  assume h: "held d f fd k"
  then have inv: "lock_inv k" and lk: "lookup k d f \<noteq> None" by (simp_all add: held_def)
  show "lock_inv k" by (rule inv)
  show "next_fd k \<noteq> fd" using held_fd [OF h] by simp
  show "g \<noteq> fd \<Longrightarrow> held d f fd (fst (sys_flock g opn nb k))" for g opn nb
    using h sys_flock_frame [of g opn nb k, OF surjective_pairing]
    by (intro held_table [OF h]) (auto simp: sys_flock_lock_inv inv sys_flock_other lookup_def)
  show "held d f fd (k\<lparr>descs := (next_fd k, i, Unlocked) # descs k, next_fd := next_fd k + 1\<rparr>)" for i
    using held_fd [OF h] by (intro held_table [OF h]) (simp_all add: lock_inv_opened inv ino_of_opened)
  show "g \<noteq> fd \<Longrightarrow> held d f fd (k\<lparr>descs := filter (\<lambda>e. fst e \<noteq> g) (descs k)\<rparr>)" for g
    by (intro held_table [OF h]) (simp_all add: lock_inv_closed inv ino_of_closed)
  show "held d f fd (k\<lparr>next_fd := next_fd k + 1\<rparr>)"
    by (intro held_table [OF h]) (simp_all add: lock_inv_next_fd inv)
  show "dirs k c = None \<Longrightarrow> held d f fd (set_dir c [] k)" for c
    using lk by (intro held_table [OF h]) (auto simp: inv dest: lookup_Some_dir)
  show "lookup k c n = None \<Longrightarrow> dirs k c \<noteq> None \<Longrightarrow> held d f fd (new_inode c n t k)" for c n t
    using lk by (intro held_table [OF h]) (auto simp: inv lookup_new_inode)
  show "- 1 \<noteq> fd" using held_fd [OF h] by simp
qed

text \<open>A file that is locked through another descriptor cannot be the one a process owns.\<close>

lemma owns_not_held:
  assumes "owns k l ExclusiveLk" and "held d f fd k" and "lk_fd (kl_lock l) \<noteq> fd"
  shows "\<not> (kl_dir l = d \<and> kl_key l = f)"
  using assms lock_inv_excl [of k "lk_fd (kl_lock l)" fd] by (auto simp: owns_def held_def)

lemma owns_excl:
  assumes "lock_inv k" and "owns k l ExclusiveLk" and "owns k g m"
    and "kl_dir g = kl_dir l" and "kl_key g = kl_key l" and "lk_fd (kl_lock g) \<noteq> lk_fd (kl_lock l)"
  shows "m = Unlocked"
  using assms lock_inv_excl [of k "lk_fd (kl_lock l)" "lk_fd (kl_lock g)"] by (auto simp: owns_def)

lemma lockMode_simps [simp]:
  "lockMode (keyLockExclusive OR keyLockNonBlocking) = ExclusiveLk"
  "lockMode keyLockExclusive = ExclusiveLk"
  "lockMode (keyLockShared OR keyLockNonBlocking) = SharedLk"
  "lockMode keyLockShared = SharedLk"
  by (simp_all add: lockMode_def keyLockExclusive_def keyLockNonBlocking_def keyLockShared_def)

lemma cleanKeys_held:
  assumes "envKeeps (held d f fd) (\<lambda>g. g = fd) env" and "held d f fd k"
    and "cleanKeys env lockDir fs k = (k', r)"
  shows "held d f fd k'"
  using assms(2,3)
proof (induction fs arbitrary: k)
  case Nil
  then show ?case by (auto elim!: ret_cases)
next
  case (Cons g fs)
  note attempt = held_guest.createAndLock_guest [OF assms(1) Cons.prems(1), of lockDir g
      "keyLockExclusive OR keyLockNonBlocking", folded TryExclusiveKeyLock_def]
  have removed: "held d f fd (remove_entry lockDir g k1)"
    if "held d f fd k1" "owns k1 l ExclusiveLk" "kl_dir l = lockDir" "kl_key l = g" "lk_fd (kl_lock l) \<noteq> fd" for k1 l
    using owns_not_held [OF that(2,1,5)] that by (auto simp: held_def)
  from Cons.prems(2) show ?case
    unfolding cleanKeys.simps
  proof (rule tryIO_cases)
    fix l k1
    assume got: "TryExclusiveKeyLock env lockDir g k = (k1, Inr l)"
      and rest: "(case Inr l of Inl e \<Rightarrow> if e = ErrLocked then cleanKeys env lockDir fs else fail e
       | Inr keyLock \<Rightarrow> tryIO (mapErr PathError (sys_remove lockDir g)) (\<lambda>r. bindIO (KeyLock_Close keyLock)
          (\<lambda>_. case r of Inl e \<Rightarrow> fail (Wrap ''error removing lock file: '' e)
             | Inr _ \<Rightarrow> cleanKeys env lockDir fs))) k1 = (k', r)"
    have l: "held d f fd k1" "owns k1 l ExclusiveLk" "kl_dir l = lockDir" "kl_key l = g" "lk_fd (kl_lock l) \<noteq> fd"
      using attempt [OF got] by simp_all
    have close: "held d f fd k2 \<Longrightarrow> KeyLock_Close l k2 = (k3, x) \<Longrightarrow> held d f fd k3" for k2 k3 x
      using held_guest.Close_guest [of d f fd k2 l k3 x] l(5) by simp
    from rest removed [OF l] l(1) close Cons.IH show ?thesis
      by (auto elim!: tryIO_cases bindIO_cases mapErr_cases stop_cases dest!: sys_remove_outcome; blast)
  qed (use attempt Cons.IH in \<open>auto elim!: stop_cases split: if_splits\<close>)
qed

section \<open>Properties\<close>

text \<open>
  C2. The loop that takes a key lock, whatever other processes do to the lock directory
  meanwhile: it stops after its retries, waits only in a blocking mode, and when it reports
  success the caller holds the lock of the file now at the path; if the lock is exclusive, no
  other handle owns a lock on that key, also when the file was replaced while waiting.
\<close>

theorem keylock_lock_correct:
  assumes "lock_inv k" and "envKeeps lock_inv (\<lambda>_. False) env"
  shows "case KeyLock_lock env mode maxRetries retries l k of (k', r) \<Rightarrow> lock_inv k' \<and> (case r of
      Inl e \<Rightarrow> e = Block \<and> mode AND keyLockNonBlocking = 0
    | Inr (l', Some e) \<Rightarrow> True
    | Inr (l', None) \<Rightarrow> owns k' l' (lockMode mode) \<and> kl_dir l' = kl_dir l \<and> kl_key l' = kl_key l \<and>
        (\<forall>g m. lockMode mode = ExclusiveLk \<and> kl_dir g = kl_dir l \<and> kl_key g = kl_key l \<and>
           lk_fd (kl_lock g) \<noteq> lk_fd (kl_lock l') \<and> owns k' g m \<longrightarrow> m = Unlocked))"
proof -
  obtain k' r where run: "KeyLock_lock env mode maxRetries retries l k = (k', r)" by fastforce
  show ?thesis
    using guest.lock_guest [OF assms(2,1) _ run] run
    by (auto split: sum.splits option.splits intro: owns_excl)
qed

text \<open>Another process replaces the lock file before the first attempt; the second one succeeds.\<close>

theorem keylock_lock_correct_witness:
  "\<exists>(k :: unit kernel) env l. lock_inv k \<and> envKeeps lock_inv (\<lambda>_. False) env \<and>
     env = (\<lambda>n fd k. if n = 0 then add_entry () ''key'' 2 k else k) \<and>
     (case KeyLock_lock env keyLockExclusive 3 0 l k of
        (k', Inr (l', None)) \<Rightarrow> lk_fd (kl_lock l') \<noteq> lk_fd (kl_lock l) \<and> owns k' l' ExclusiveLk
      | _ \<Rightarrow> False)"
proof -
  define k :: "unit kernel" where "k = init_kernel\<lparr>dirs := \<lambda>_. Some [(''key'', 1)],
     descs := [(3, 1, Unlocked)], next_fd := 4, next_ino := 5\<rparr>"
  define env :: "unit env" where "env = (\<lambda>n fd k. if n = 0 then add_entry () ''key'' 2 k else k)"
  define l :: "unit KeyLock" where
    "l = \<lparr>kl_dir = (), kl_key = ''key'', kl_lock = \<lparr>lk_path = ((), ''key''), lk_fd = 3\<rparr>\<rparr>"
  have inv: "lock_inv k" by (auto simp: k_def lock_inv_def fds_ok_def excl_ok_def split: if_splits)
  have env: "envKeeps lock_inv (\<lambda>_. False) env" by (simp add: env_def envKeeps_def)
  have run: "case KeyLock_lock env keyLockExclusive 3 0 l k of
      (k', Inr (l', None)) \<Rightarrow> lk_fd (kl_lock l') \<noteq> lk_fd (kl_lock l) | _ \<Rightarrow> False"
    unfolding k_def env_def l_def init_kernel_def by code_simp
  show ?thesis
    using keylock_lock_correct [OF inv env, where mode = keyLockExclusive and maxRetries = 3 and retries = 0 and l = l] run inv env
    by (intro exI [of _ k] exI [of _ env] exI [of _ l])
      (auto simp: env_def split: sum.splits option.splits prod.splits)
qed

text \<open>
  C13. \<^verbatim>\<open>CleanKeyLocks\<close> never removes the file of a key that somebody else has locked, whichever
  of its system calls fail and whatever other processes do, as long as they leave that lock
  alone: afterwards the file is still there and the lock is still held on it.
\<close>

theorem clean_key_locks_keeps_held:
  assumes "held d f fd k" and "envKeeps (held d f fd) (\<lambda>g. g = fd) env"
  shows "held d f fd (fst (CleanKeyLocks env lockDir k))"
proof -
  obtain k' r where run: "CleanKeyLocks env lockDir k = (k', r)" by fastforce
  then have "held d f fd k'"
    using assms(1) cleanKeys_held [OF assms(2)] unfolding CleanKeyLocks_def
    by (auto elim!: bindIO_cases mapErr_cases dest!: sys_opendir_frame sys_readdirnames_frame)
  with run show ?thesis by simp
qed

theorem clean_key_locks_keeps_held_witness:
  "\<exists>k :: unit kernel. k = init_kernel\<lparr>dirs := \<lambda>_. Some [(''a'', 1), (''b'', 2)],
       descs := [(3, 1, SharedLk)], next_fd := 4, next_ino := 5\<rparr> \<and> held () ''a'' 3 k \<and>
     held () ''a'' 3 (fst (CleanKeyLocks (\<lambda>n fd k. k) () k))"
proof -
  define k :: "unit kernel" where "k = init_kernel\<lparr>dirs := \<lambda>_. Some [(''a'', 1), (''b'', 2)],
     descs := [(3, 1, SharedLk)], next_fd := 4, next_ino := 5\<rparr>"
  have "held () ''a'' 3 k"
    by (auto simp: k_def held_def lock_inv_def fds_ok_def excl_ok_def lookup_def ino_of_def mode_of_def
        init_kernel_def split: if_splits)
  moreover have "envKeeps (held () ''a'' 3) (\<lambda>g. g = 3) (\<lambda>n fd k. k)" by (simp add: envKeeps_def)
  ultimately show ?thesis
    using clean_key_locks_keeps_held [of "()" "''a''" 3 k "\<lambda>n fd k. k" "()"] by (auto simp: k_def)
qed

end
