(* ===== verification/Appc_Types.thy ===== *)
theory Appc_Types
  imports Rkt_Prelude "HOL-Library.Word"
begin

text \<open>
  The identifiers of the App Container types the runtime works with: UUIDs, by which pods are
  named, and image hashes (\<^verbatim>\<open>schema/types/uuid.go\<close> and \<^verbatim>\<open>hash.go\<close> of the vendored \<^verbatim>\<open>appc/spec\<close>).
\<close>

section \<open>UUIDs\<close>

type_synonym UUID = "8 word list"

definition hexDigit :: "nat \<Rightarrow> char" where
  "hexDigit n = (if n < 10 then char_of (48 + n) else char_of (87 + n))"

text \<open>
  The verb \<^verbatim>\<open>%q\<close>: quotes, backslashes and control characters are escaped; bytes from 128 on are
  taken to be parts of printable characters.
\<close>

definition quoteChar :: "char \<Rightarrow> string" where
  "quoteChar c =
     (let n = (of_char c :: nat); bs = CHR 0x5C in
      if c = CHR 0x22 \<or> c = bs then [bs, c]
      else if n = 7 then [bs, CHR ''a''] else if n = 8 then [bs, CHR ''b''] else if n = 9 then [bs, CHR ''t'']
      else if n = 10 then [bs, CHR ''n''] else if n = 11 then [bs, CHR ''v''] else if n = 12 then [bs, CHR ''f'']
      else if n = 13 then [bs, CHR ''r'']
      else if n < 32 \<or> n = 127 then [bs, CHR ''x'', hexDigit (n div 16), hexDigit (n mod 16)]
      else [c])"

definition quoted :: "string \<Rightarrow> string" where
  "quoted s = [CHR 0x22] @ concat (map quoteChar s) @ [CHR 0x22]"

fun fromHexChar :: "char \<Rightarrow> nat option" where
  "fromHexChar c = (let n = of_char c in
     if 48 \<le> n \<and> n \<le> 57 then Some (n - 48)
     else if 97 \<le> n \<and> n \<le> 102 then Some (n - 87)
     else if 65 \<le> n \<and> n \<le> 70 then Some (n - 55)
     else None)"

text \<open>\<^verbatim>\<open>hex.DecodeString\<close>: an odd length or a character that is no hex digit is an error.\<close>

fun hexDecode :: "string \<Rightarrow> 8 word list option" where
  "hexDecode [] = Some []"
| "hexDecode [c] = None"
| "hexDecode (c # d # s) =
     (case (fromHexChar c, fromHexChar d, hexDecode s) of
        (Some h, Some l, Some bs) \<Rightarrow> Some (word_of_nat (16 * h + l) # bs)
      | _ \<Rightarrow> None)"

text \<open>The verb \<^verbatim>\<open>%x\<close> on a byte slice.\<close>

definition hexByte :: "8 word \<Rightarrow> string" where
  "hexByte b = [hexDigit (unat b div 16), hexDigit (unat b mod 16)]"

definition hexEncode :: "8 word list \<Rightarrow> string" where
  "hexEncode bs = concat (map hexByte bs)"

definition UUID_String :: "UUID \<Rightarrow> string" where
  "UUID_String u =
     hexEncode (take 4 u) @ ''-'' @ hexEncode (take 2 (drop 4 u)) @ ''-'' @ hexEncode (take 2 (drop 6 u)) @
     ''-'' @ hexEncode (take 2 (drop 8 u)) @ ''-'' @ hexEncode (take 6 (drop 10 u))"

definition NewUUID :: "string \<Rightarrow> string + UUID" where
  "NewUUID s0 =
     (let s = filter (\<lambda>c. c \<noteq> CHR ''-'') s0 in
      if length s \<noteq> 32 then Inl ''bad UUID length != 32''
      else case hexDecode s of None \<Rightarrow> Inl ''encoding/hex: invalid byte'' | Some bs \<Rightarrow> Inr bs)"

definition UUID_Empty :: "UUID \<Rightarrow> bool" where
  "UUID_Empty u \<longleftrightarrow> u = replicate 16 0"

section \<open>Hashes\<close>

record Hash =
  hash_typ :: string
  Val :: string

definition Hash_assertValid :: "Hash \<Rightarrow> string option" where
  "Hash_assertValid h =
     (if hash_typ h = ''sha512'' then
        (if Val h = '''' then Some ''unexpected empty hash value'' else None)
      else if hash_typ h = '''' then Some ''unexpected empty hash type''
      else Some (''unrecognized hash type: '' @ hash_typ h))"

definition NewHash :: "string \<Rightarrow> string + Hash" where
  "NewHash s =
     (case splitOn CHR ''-'' s of
        [t, v] \<Rightarrow>
          (let nh = \<lparr>hash_typ = t, Val = v\<rparr> in
           case Hash_assertValid nh of Some e \<Rightarrow> Inl e | None \<Rightarrow> Inr nh)
      | _ \<Rightarrow> Inl ''badly formatted hash string'')"

definition Hash_String :: "Hash \<Rightarrow> string" where
  "Hash_String h = hash_typ h @ ''-'' @ Val h"

definition Hash_Empty :: "Hash \<Rightarrow> bool" where
  "Hash_Empty h \<longleftrightarrow> h = \<lparr>hash_typ = '''', Val = ''''\<rparr>"

text \<open>\<open>maxHashSize\<close> is half the size of a SHA-512 sum plus the length of the prefix.\<close>

definition maxHashSize :: nat where
  "maxHashSize = 64 div 2 + length ''sha512-''"

definition ShortHash :: "string \<Rightarrow> string" where
  "ShortHash h = (if length h > maxHashSize then take maxHashSize h else h)"

section \<open>Round trips\<close>

lemma lt16_cases:
  fixes n :: nat
  assumes "n < 16"
  shows "n \<in> {0, 1, 2, 3, 4, 5, 6, 7, 8, 9, 10, 11, 12, 13, 14, 15}"
  using assms by (simp, presburger)

lemma fromHexChar_hexDigit [simp]: "n < 16 \<Longrightarrow> fromHexChar (hexDigit n) = Some n"
  using lt16_cases [of n] by (auto simp: hexDigit_def)

lemma hexDigit_not_dash [simp]: "n < 16 \<Longrightarrow> hexDigit n \<noteq> CHR ''-''"
  using fromHexChar_hexDigit [of n] by (auto simp del: fromHexChar_hexDigit)

lemma unat_byte: "unat (b :: 8 word) < 256"
  using unsigned_less [of b] by simp

lemma hexDecode_hexEncode [simp]: "hexDecode (hexEncode bs) = Some bs"
proof (induction bs)
  case (Cons b bs)
  have "unat b div 16 < 16" "unat b mod 16 < 16" using unat_byte [of b] by auto
  then show ?case
    using Cons by (simp add: hexEncode_def hexByte_def mult.commute [of 16] div_mult_mod_eq del: fromHexChar.simps)
qed (simp add: hexEncode_def)

lemma hexEncode_append: "hexEncode (xs @ ys) = hexEncode xs @ hexEncode ys"
  by (simp add: hexEncode_def)

lemma length_hexEncode [simp]: "length (hexEncode bs) = 2 * length bs"
  by (induction bs) (simp_all add: hexEncode_def hexByte_def)

lemma hexEncode_no_dash: "filter (\<lambda>c. c \<noteq> CHR ''-'') (hexEncode bs) = hexEncode bs"
proof (induction bs)
  case (Cons b bs)
  have "unat b div 16 < 16" "unat b mod 16 < 16" using unat_byte [of b] by auto
  then show ?case using Cons by (simp add: hexEncode_def hexByte_def)
qed (simp add: hexEncode_def)

lemma UUID_String_digits:
  assumes "length u = 16"
  shows "filter (\<lambda>c. c \<noteq> CHR ''-'') (UUID_String u) = hexEncode u"
proof -
  have "u = take 4 u @ take 2 (drop 4 u) @ take 2 (drop 6 u) @ take 2 (drop 8 u) @ take 6 (drop 10 u)"
    using append_take_drop_id [of 4 u] append_take_drop_id [of 2 "drop 4 u"]
      append_take_drop_id [of 2 "drop 6 u"] append_take_drop_id [of 2 "drop 8 u"] assms
    by simp
  then have "hexEncode u = hexEncode (take 4 u) @ hexEncode (take 2 (drop 4 u)) @
    hexEncode (take 2 (drop 6 u)) @ hexEncode (take 2 (drop 8 u)) @ hexEncode (take 6 (drop 10 u))"
    by (metis hexEncode_append)
  then show ?thesis by (simp add: UUID_String_def hexEncode_no_dash)
qed

text \<open>The name of a pod reads back as the same UUID.\<close>

lemma NewUUID_String: "length u = 16 \<Longrightarrow> NewUUID (UUID_String u) = Inr u"
  by (simp add: NewUUID_def UUID_String_digits)

lemma length_hexDecode: "hexDecode s = Some bs \<Longrightarrow> length s = 2 * length bs"
  by (induction s arbitrary: bs rule: hexDecode.induct) (auto split: option.splits)

lemma NewUUID_length: "NewUUID s = Inr u \<Longrightarrow> length u = 16"
  by (auto simp: NewUUID_def Let_def split: if_splits option.splits dest: length_hexDecode)

lemma UUID_String_inj: "length u = 16 \<Longrightarrow> length v = 16 \<Longrightarrow> UUID_String u = UUID_String v \<Longrightarrow> u = v"
  using NewUUID_String by (metis sum.inject(2))

text \<open>Parsing a hash and printing it gives the string back.\<close>

lemma NewHash_String: "NewHash s = Inr h \<Longrightarrow> Hash_String h = s"
  using joinWith_splitOn [of "CHR ''-''" s]
  by (auto simp: NewHash_def Hash_String_def Let_def split: list.splits option.splits)

end
