(* ===== verification/Pods.thy ===== *)
theory Pods
  imports Flock Appc_Types
begin

text \<open>
  Pods on disk (\<^verbatim>\<open>rkt/pods.go\<close>). A pod is a directory, named by a UUID, in one of six phase
  directories; an exclusive lock on it tells an active pod from an abandoned one. The model
  has the cached flags of the \<^verbatim>\<open>pod\<close> struct, the scan that finds a pod, the transitions between
  phases and the queries on a pod's files. The pod struct is passed and returned where
  the code mutates it.
\<close>

unbundle bit_operations_syntax

section \<open>Phases and the pod object\<close>

datatype phase = EmbryoDir | PrepareDir | PreparedDir | RunDir | ExitedGarbageDir | GarbageDir

text \<open>The order in which the states occur, which is the order the code scans the directories in.\<close>

fun phase_rank :: "phase \<Rightarrow> nat" where
  "phase_rank EmbryoDir = 0"
| "phase_rank PrepareDir = 1"
| "phase_rank PreparedDir = 2"
| "phase_rank RunDir = 3"
| "phase_rank ExitedGarbageDir = 4"
| "phase_rank GarbageDir = 5"

lemma phase_rank_inj: "phase_rank a = phase_rank b \<Longrightarrow> a = b"
  by (cases a; cases b) simp_all

instantiation phase :: linorder
begin

definition less_eq_phase :: "phase \<Rightarrow> phase \<Rightarrow> bool" where
  "less_eq_phase a b \<longleftrightarrow> phase_rank a \<le> phase_rank b"

definition less_phase :: "phase \<Rightarrow> phase \<Rightarrow> bool" where
  "less_phase a b \<longleftrightarrow> phase_rank a < phase_rank b"

instance
  by standard (auto simp: less_eq_phase_def less_phase_def dest: phase_rank_inj)

end

record NetInfo =
  NetName :: string
  ConfPath :: string
  IfName :: string
  IP :: string
  Args :: string
  Mask :: string
  HostIP :: string

record pod =
  p_lock :: "phase FileLock"
  p_uuid :: UUID
  createdByMe :: bool
  nets :: "NetInfo list"
  isEmbryo :: bool
  isPreparing :: bool
  isAbortedPrepare :: bool
  isPrepared :: bool
  isExited :: bool
  isExitedGarbage :: bool
  isExitedDeleting :: bool
  isGarbage :: bool
  isDeleting :: bool
  isGone :: bool

type_synonym 'a podio = "(phase, 'a) gofs"

abbreviation podName :: "pod \<Rightarrow> string" where
  "podName p \<equiv> UUID_String (p_uuid p)"

text \<open>A struct literal with the given UUID; every other field has its zero value.\<close>

definition zeroPod :: "UUID \<Rightarrow> pod" where
  "zeroPod u = \<lparr>p_lock = \<lparr>lk_path = (EmbryoDir, ''''), lk_fd = -1\<rparr>, p_uuid = u, createdByMe = False, nets = [],
     isEmbryo = False, isPreparing = False, isAbortedPrepare = False, isPrepared = False,
     isExited = False, isExitedGarbage = False, isExitedDeleting = False, isGarbage = False,
     isDeleting = False, isGone = False\<rparr>"

lemma zeroPod_uuid [simp]: "p_uuid (zeroPod u) = u"
  by (simp add: zeroPod_def)

definition isRunning :: "pod \<Rightarrow> bool" where
  "isRunning p \<longleftrightarrow> \<not> isEmbryo p \<and> \<not> isAbortedPrepare p \<and> \<not> isPreparing p \<and> \<not> isPrepared p \<and>
     \<not> isExited p \<and> \<not> isExitedGarbage p \<and> \<not> isExitedDeleting p \<and> \<not> isGarbage p \<and> \<not> isDeleting p \<and>
     \<not> isGone p"

text \<open>The directory of a pod according to its cached state; a pod that is gone has none.\<close>

definition path :: "pod \<Rightarrow> (phase \<times> string) option" where
  "path p =
     (if isEmbryo p then Some (EmbryoDir, podName p)
      else if isPreparing p \<or> isAbortedPrepare p then Some (PrepareDir, podName p)
      else if isPrepared p then Some (PreparedDir, podName p)
      else if isExitedGarbage p then Some (ExitedGarbageDir, podName p)
      else if isGarbage p then Some (GarbageDir, podName p)
      else if isGone p then None
      else Some (RunDir, podName p))"

definition getState :: "pod \<Rightarrow> string" where
  "getState p =
     (if isEmbryo p then ''embryo''
      else if isPreparing p then ''preparing''
      else if isAbortedPrepare p then ''aborted prepare''
      else if isPrepared p then ''prepared''
      else if isExitedDeleting p \<or> isDeleting p then ''deleting''
      else if isExited p then ''exited''
      else if isGarbage p then ''garbage''
      else ''running'')"

section \<open>Finding a pod\<close>

text \<open>\<^verbatim>\<open>podsInitialized\<close> is passed in; after a call that succeeds it is true.\<close>

fun mkdirAlls :: "phase list \<Rightarrow> unit podio" where
  "mkdirAlls [] = ret ()"
| "mkdirAlls (d # ds) =
     bindIO (mapErr (\<lambda>e. Wrap ''error creating directory: '' (PathError e)) (sys_mkdirall d)) (\<lambda>_. mkdirAlls ds)"

definition initPods :: "bool \<Rightarrow> bool podio" where
  "initPods podsInitialized =
     (if \<not> podsInitialized
      then bindIO (mkdirAlls [EmbryoDir, PrepareDir, PreparedDir, RunDir, ExitedGarbageDir, GarbageDir])
             (\<lambda>_. ret True)
      else ret podsInitialized)"

text \<open>One step of the cascade: the pod is here, or it does not exist here, or there is an error.\<close>

definition openOr :: "phase \<Rightarrow> (pod \<Rightarrow> pod) \<Rightarrow> (pod \<times> phase FileLock) podio \<Rightarrow> pod \<Rightarrow> (pod \<times> phase FileLock) podio" where
  "openOr d flag alternative p =
     tryIO (NewLock (d, podName p) Dir) (\<lambda>r.
     case r of
       Inr l \<Rightarrow> ret (flag p, l)
     | Inl e \<Rightarrow> if e = ErrNotExist then alternative
              else fail (Wrap (''error opening pod '' @ podName p) e))"

definition openPod :: "pod \<Rightarrow> (pod \<times> phase FileLock) podio" where
  "openPod p =
     openOr EmbryoDir (isEmbryo_update (\<lambda>_. True))
      (openOr PrepareDir (isAbortedPrepare_update (\<lambda>_. True))
       (openOr PreparedDir (isPrepared_update (\<lambda>_. True))
        (openOr RunDir (isExited_update (\<lambda>_. True))
         (openOr ExitedGarbageDir (\<lambda>p. p\<lparr>isExitedGarbage := True, isExited := True\<rparr>)
          (tryIO (NewLock (GarbageDir, podName p) Dir) (\<lambda>r.
             case r of
               Inr l \<Rightarrow> ret (p\<lparr>isGarbage := True\<rparr>, l)
             | Inl _ \<Rightarrow> fail (Msg (''pod '' @ podName p @ '' not found'')))) p) p) p) p) p"

text \<open>What finding the pod locked says about it.\<close>

definition lockedFlags :: "pod \<Rightarrow> pod" where
  "lockedFlags p =
     (if isExitedGarbage p then p\<lparr>isExitedDeleting := True\<rparr>
      else if isExited p then p\<lparr>isExited := False\<rparr>
      else if isAbortedPrepare p then p\<lparr>isAbortedPrepare := False, isPreparing := True\<rparr>
      else if isGarbage p then p\<lparr>isDeleting := True\<rparr>
      else p)"

definition testLock :: "phase FileLock \<Rightarrow> pod \<Rightarrow> pod podio" where
  "testLock l p =
     tryIO (FileLock_TrySharedLock l) (\<lambda>r.
     case r of
       Inl e \<Rightarrow> if e \<noteq> ErrLocked
              then bindIO (FileLock_Close l) (\<lambda>_. fail (Wrap ''unexpected lock error: '' e))
              else ret (lockedFlags p)
     | Inr _ \<Rightarrow> tryIO (FileLock_Unlock l) (\<lambda>_. ret p))"

text \<open>\<^verbatim>\<open>netinfo.LoadAt\<close>; \<open>decode\<close> is the JSON decoder.\<close>

definition LoadAt :: "(string \<Rightarrow> goerr + NetInfo list) \<Rightarrow> fdesc \<Rightarrow> NetInfo list podio" where
  "LoadAt decode fd =
     bindIO (mapErr Errno (sys_readat fd ''net-info.json'')) (\<lambda>c.
     case decode c of Inl e \<Rightarrow> fail e | Inr info \<Rightarrow> ret info)"

definition loadNets :: "(string \<Rightarrow> goerr + NetInfo list) \<Rightarrow> pod \<Rightarrow> pod podio" where
  "loadNets decode p =
     (if isRunning p then
        (case FileLock_Fd (p_lock p) of
           Inl e \<Rightarrow> fail (Wrap (''error acquiring pod dir fd: '' @ podName p) e)
         | Inr cfd \<Rightarrow> tryIO (LoadAt decode cfd) (\<lambda>r.
             case r of
               Inr info \<Rightarrow> ret (p\<lparr>nets := info\<rparr>)
             | Inl e \<Rightarrow> if \<not> osIsNotExist e
                      then fail (Wrap (''error opening pod netinfo: '' @ podName p) e)
                      else ret (p\<lparr>nets := []\<rparr>)))
      else ret p)"

definition getPod :: "(string \<Rightarrow> goerr + NetInfo list) \<Rightarrow> bool \<Rightarrow> UUID \<Rightarrow> pod podio" where
  "getPod decode inited u =
     bindIO (initPods inited) (\<lambda>_.
     bindIO (openPod (zeroPod u)) (\<lambda>(p, l).
     bindIO (if \<not> isPrepared p \<and> \<not> isEmbryo p then testLock l p else ret p) (\<lambda>p.
     loadNets decode (p\<lparr>p_lock := l\<rparr>))))"

section \<open>Refreshing the cached state\<close>

definition clearFlags :: "pod \<Rightarrow> pod" where
  "clearFlags p = p\<lparr>isEmbryo := False, isPreparing := False, isAbortedPrepare := False, isPrepared := False,
     isExited := False, isExitedGarbage := False, isExitedDeleting := False, isGarbage := False,
     isDeleting := False, isGone := False\<rparr>"

text \<open>
  The inner calls of \<^verbatim>\<open>os.Stat\<close> declare their own \<^verbatim>\<open>err\<close>, so an error of theirs other than
  \<^verbatim>\<open>ENOENT\<close> is dropped and leaves every flag unset.
\<close>

definition statOr :: "phase \<Rightarrow> (pod \<Rightarrow> pod) \<Rightarrow> pod podio \<Rightarrow> pod \<Rightarrow> pod podio" where
  "statOr d flag alternative p =
     tryIO (mapErr PathError (sys_stat d (podName p))) (\<lambda>r.
     case r of
       Inr _ \<Rightarrow> ret (flag p)
     | Inl e \<Rightarrow> if osIsNotExist e then alternative else ret p)"

definition statPod :: "pod \<Rightarrow> pod podio" where
  "statPod p =
     tryIO (mapErr PathError (sys_stat EmbryoDir (podName p))) (\<lambda>r.
     case r of
       Inr _ \<Rightarrow> ret (p\<lparr>isEmbryo := True\<rparr>)
     | Inl e \<Rightarrow>
         if osIsNotExist e then
           statOr PrepareDir (isAbortedPrepare_update (\<lambda>_. True))
            (statOr PreparedDir (isPrepared_update (\<lambda>_. True))
             (statOr RunDir (isExited_update (\<lambda>_. True))
              (statOr ExitedGarbageDir (\<lambda>p. p\<lparr>isExitedGarbage := True, isExited := True\<rparr>)
               (statOr GarbageDir (isGarbage_update (\<lambda>_. True)) (ret (p\<lparr>isGone := True\<rparr>)) p) p) p) p) p
         else fail (Wrap (''error refreshing state of pod '' @ podName p) e))"

definition refreshState :: "pod \<Rightarrow> pod podio" where
  "refreshState p0 =
     bindIO (statPod (clearFlags p0)) (\<lambda>p.
     if \<not> isPrepared p \<and> \<not> isEmbryo p \<and> \<not> isGone p then testLock (p_lock p) p else ret p)"

text \<open>
  Waiting for a pod to exit. \<open>env n\<close> is what other processes do while the loop waits for the
  lock the \<open>n\<close>-th time (or sleeps before that); \<open>None\<close> is a loop that is still going after
  \<open>fuel\<close> rounds.
\<close>

definition doneWaiting :: "pod \<Rightarrow> bool" where
  "doneWaiting p \<longleftrightarrow> isExited p \<or> isAbortedPrepare p \<or> isGarbage p \<or> isGone p"

fun waitExited :: "nat \<Rightarrow> nat \<Rightarrow> (nat \<Rightarrow> phase kernel \<Rightarrow> phase kernel) \<Rightarrow> pod \<Rightarrow> pod option podio" where
  "waitExited 0 n env p = ret (if doneWaiting p then Some p else None)"
| "waitExited (Suc fuel) n env p =
     (if doneWaiting p then ret (Some p)
      else bindIO (others (env n)) (\<lambda>_.
           bindIO (FileLock_SharedLock (p_lock p)) (\<lambda>_.
           bindIO (FileLock_Unlock (p_lock p)) (\<lambda>_.
           bindIO (refreshState p) (\<lambda>p'.
           waitExited fuel (Suc n) env p')))))"

section \<open>Transitions\<close>

definition osRename :: "(phase \<times> string) option \<Rightarrow> phase \<times> string \<Rightarrow> unit podio" where
  "osRename src dst =
     (case src of
        None \<Rightarrow> fail (LinkError ENOENT)
      | Some (d, n) \<Rightarrow> mapErr LinkError (sys_rename d n (fst dst) (snd dst)))"

text \<open>Open the directory the pod has been moved to and sync it.\<close>

definition syncDir :: "phase \<Rightarrow> unit podio" where
  "syncDir d =
     bindIO (mapErr PathError (sys_opendir d)) (\<lambda>_. mapErr (\<lambda>e. Wrap ''fsync: '' (Errno e)) (sys_syncdir d))"

definition xToPreparing :: "pod \<Rightarrow> pod podio" where
  "xToPreparing p =
     bindIO (guardIO (createdByMe p) (Msg ''bug: only pods created by me may transition to preparing'')) (\<lambda>_.
     bindIO (guardIO (isEmbryo p) (Msg ''bug: only embryonic pods can transition to preparing'')) (\<lambda>_.
     bindIO (FileLock_ExclusiveLock (p_lock p)) (\<lambda>_.
     bindIO (osRename (Some (EmbryoDir, podName p)) (PrepareDir, podName p)) (\<lambda>_.
     bindIO (syncDir PrepareDir) (\<lambda>_.
     ret (p\<lparr>isEmbryo := False, isPreparing := True\<rparr>))))))"

definition xToPrepared :: "pod \<Rightarrow> pod podio" where
  "xToPrepared p =
     bindIO (guardIO (createdByMe p) (Msg ''bug: only pods created by me may transition to prepared'')) (\<lambda>_.
     bindIO (guardIO (isPreparing p) (Msg ''bug: only preparing pods may transition to prepared'')) (\<lambda>_.
     bindIO (osRename (path p) (PreparedDir, podName p)) (\<lambda>_.
     bindIO (FileLock_Unlock (p_lock p)) (\<lambda>_.
     bindIO (syncDir PreparedDir) (\<lambda>_.
     ret (p\<lparr>isPreparing := False, isPrepared := True\<rparr>))))))"

definition xToRun :: "pod \<Rightarrow> pod podio" where
  "xToRun p =
     bindIO (guardIO (\<not> (\<not> createdByMe p \<and> \<not> isPrepared p))
       (Msg ''bug: only prepared pods may transition to run'')) (\<lambda>_.
     bindIO (guardIO (\<not> (createdByMe p \<and> \<not> isPrepared p \<and> \<not> isPreparing p))
       (Msg ''bug: only prepared or preparing pods may transition to run'')) (\<lambda>_.
     bindIO (FileLock_ExclusiveLock (p_lock p)) (\<lambda>_.
     bindIO (osRename (path p) (RunDir, podName p)) (\<lambda>_.
     bindIO (syncDir RunDir) (\<lambda>_.
     ret (p\<lparr>isPreparing := False, isPrepared := False\<rparr>))))))"

definition xToExitedGarbage :: "pod \<Rightarrow> pod podio" where
  "xToExitedGarbage p =
     bindIO (guardIO (\<not> (\<not> isExited p \<or> isExitedGarbage p))
       (Msg ''bug: only exited non-garbage pods may transition to exited-garbage'')) (\<lambda>_.
     bindIO (osRename (Some (RunDir, podName p)) (ExitedGarbageDir, podName p)) (\<lambda>_.
     bindIO (syncDir ExitedGarbageDir) (\<lambda>_.
     ret (p\<lparr>isExitedGarbage := True\<rparr>))))"

definition xToGarbage :: "pod \<Rightarrow> pod podio" where
  "xToGarbage p =
     bindIO (guardIO (\<not> (\<not> isAbortedPrepare p \<and> \<not> isPrepared p))
       (Msg ''bug: only failed prepare or prepared pods may transition to garbage'')) (\<lambda>_.
     bindIO (osRename (path p) (GarbageDir, podName p)) (\<lambda>_.
     bindIO (syncDir GarbageDir) (\<lambda>_.
     ret (p\<lparr>isAbortedPrepare := False, isPrepared := False, isGarbage := True\<rparr>))))"

text \<open>A new pod; \<open>u\<close> is the random UUID.\<close>

definition newPod :: "bool \<Rightarrow> string \<Rightarrow> pod podio" where
  "newPod inited uuidString =
     bindIO (initPods inited) (\<lambda>_.
     case NewUUID uuidString of
       Inl e \<Rightarrow> fail (Msg (''error creating UUID: '' @ e))
     | Inr u \<Rightarrow>
         (let p = (zeroPod u)\<lparr>createdByMe := True, isEmbryo := True\<rparr> in
          bindIO (mapErr PathError (sys_mkdir EmbryoDir (podName p))) (\<lambda>_.
          tryIO (NewLock (EmbryoDir, podName p) Dir) (\<lambda>r.
          case r of
            Inl e \<Rightarrow> tryIO (mapErr PathError (sys_remove EmbryoDir (podName p))) (\<lambda>_. fail e)
          | Inr l \<Rightarrow> xToPreparing (p\<lparr>p_lock := l\<rparr>)))))"

section \<open>Listing\<close>

type_synonym includeMask = "8 word"

definition includeEmbryoDir :: includeMask where "includeEmbryoDir = 1"
definition includePrepareDir :: includeMask where "includePrepareDir = 2"
definition includePreparedDir :: includeMask where "includePreparedDir = 4"
definition includeRunDir :: includeMask where "includeRunDir = 8"
definition includeExitedGarbageDir :: includeMask where "includeExitedGarbageDir = 16"
definition includeGarbageDir :: includeMask where "includeGarbageDir = 32"

definition includeMostDirs :: includeMask where
  "includeMostDirs = includeRunDir OR includeExitedGarbageDir OR includePrepareDir OR includePreparedDir"

definition includeAllDirs :: includeMask where
  "includeAllDirs = includeMostDirs OR includeEmbryoDir OR includeGarbageDir"

definition listPodsFromDir :: "phase \<Rightarrow> string list podio" where
  "listPodsFromDir d =
     tryIO (mapErr PathError (sys_readdir d)) (\<lambda>r.
     case r of
       Inl e \<Rightarrow> if osIsNotExist e then ret [] else fail (Wrap ''cannot read pods directory: '' e)
     | Inr ls \<Rightarrow> ret (map fst (filter (\<lambda>(n, t). t = DirT) ls)))"

definition listDirs :: "(includeMask \<times> phase) list" where
  "listDirs = [(includeEmbryoDir, EmbryoDir), (includePrepareDir, PrepareDir), (includePreparedDir, PreparedDir),
     (includeRunDir, RunDir), (includeExitedGarbageDir, ExitedGarbageDir), (includeGarbageDir, GarbageDir)]"

fun collectDirs :: "includeMask \<Rightarrow> (includeMask \<times> phase) list \<Rightarrow> string list podio" where
  "collectDirs include [] = ret []"
| "collectDirs include ((kind, d) # ds) =
     (if include AND kind \<noteq> 0
      then bindIO (listPodsFromDir d) (\<lambda>ps. bindIO (collectDirs include ds) (\<lambda>rest. ret (ps @ rest)))
      else collectDirs include ds)"

text \<open>The names are collected in a Go map, so each occurs once and the order is not specified.\<close>

definition listPods :: "includeMask \<Rightarrow> string list podio" where
  "listPods include = bindIO (collectDirs include listDirs) (\<lambda>ps. ret (remdups ps))"

text \<open>Pods found in a state that was not asked for are left out.\<close>

definition omitted :: "includeMask \<Rightarrow> pod \<Rightarrow> bool" where
  "omitted include p \<longleftrightarrow>
     isEmbryo p \<and> include AND includeEmbryoDir = 0 \<or>
     isExitedGarbage p \<and> include AND includeExitedGarbageDir = 0 \<or>
     isGarbage p \<and> include AND includeGarbageDir = 0 \<or>
     isPrepared p \<and> include AND includePreparedDir = 0 \<or>
     (isPreparing p \<or> isAbortedPrepare p) \<and> include AND includePrepareDir = 0 \<or>
     isRunning p \<and> include AND includeRunDir = 0"

text \<open>
  The callback may change the pod and the variables \<open>acc\<close> it captures; the first failure of a
  callback (a panic) ends the walk.
\<close>

fun walkList :: "(string \<Rightarrow> goerr + NetInfo list) \<Rightarrow> includeMask \<Rightarrow> (pod \<Rightarrow> 'acc \<Rightarrow> (pod \<times> 'acc) podio) \<Rightarrow>
    string list \<Rightarrow> 'acc \<Rightarrow> 'acc podio" where
  "walkList decode include f [] acc = ret acc"
| "walkList decode include f (n # ns) acc =
     (case NewUUID n of
        Inl _ \<Rightarrow> walkList decode include f ns acc
      | Inr u \<Rightarrow>
          tryIO (getPod decode True u) (\<lambda>r.
          case r of
            Inl _ \<Rightarrow> walkList decode include f ns acc
          | Inr p \<Rightarrow>
              if omitted include p
              then bindIO (FileLock_Close (p_lock p)) (\<lambda>_. walkList decode include f ns acc)
              else bindIO (f p acc) (\<lambda>(p', acc').
                   bindIO (FileLock_Close (p_lock p')) (\<lambda>_. walkList decode include f ns acc'))))"

definition walkPods :: "(string \<Rightarrow> goerr + NetInfo list) \<Rightarrow> bool \<Rightarrow> includeMask \<Rightarrow>
    (pod \<Rightarrow> 'acc \<Rightarrow> (pod \<times> 'acc) podio) \<Rightarrow> 'acc \<Rightarrow> 'acc podio" where
  "walkPods decode inited include f acc =
     bindIO (initPods inited) (\<lambda>_.
     bindIO (mapErr (Wrap ''failed to get pods: '') (listPods include)) (\<lambda>ls.
     walkList decode include f (sort ls) acc))"

section \<open>What the documentation says a pod's state is\<close>

text \<open>
  The states of \<^verbatim>\<open>Documentation/devel/pod-lifecycle.md\<close>: the directory a pod is in and whether it
  is locked there determine its state.
\<close>

datatype lifecycle =
    Embryo | Preparing | AbortedPrepare | Prepared | Running | Exited
  | ExitedGarbage | ExitedDeleting | Garbage | Deleting | Gone

fun docState :: "phase \<Rightarrow> bool \<Rightarrow> lifecycle" where
  "docState EmbryoDir locked = Embryo"
| "docState PrepareDir locked = (if locked then Preparing else AbortedPrepare)"
| "docState PreparedDir locked = Prepared"
| "docState RunDir locked = (if locked then Running else Exited)"
| "docState ExitedGarbageDir locked = (if locked then ExitedDeleting else ExitedGarbage)"
| "docState GarbageDir locked = (if locked then Deleting else Garbage)"

text \<open>The flags that stand for a state.\<close>

definition podIn :: "lifecycle \<Rightarrow> pod \<Rightarrow> pod" where
  "podIn s p = p\<lparr>isEmbryo := (s = Embryo), isPreparing := (s = Preparing),
     isAbortedPrepare := (s = AbortedPrepare), isPrepared := (s = Prepared),
     isExited := (s \<in> {Exited, ExitedGarbage, ExitedDeleting}),
     isExitedGarbage := (s \<in> {ExitedGarbage, ExitedDeleting}),
     isExitedDeleting := (s = ExitedDeleting), isGarbage := (s \<in> {Garbage, Deleting}),
     isDeleting := (s = Deleting), isGone := (s = Gone)\<rparr>"

definition hasState :: "lifecycle \<Rightarrow> pod \<Rightarrow> bool" where
  "hasState s p \<longleftrightarrow> podIn s p = p"

text \<open>The first directory, in the order of the scan, that has the pod.\<close>

definition scanOrder :: "phase list" where
  "scanOrder = [EmbryoDir, PrepareDir, PreparedDir, RunDir, ExitedGarbageDir, GarbageDir]"

definition location :: "phase kernel \<Rightarrow> string \<Rightarrow> phase option" where
  "location k n = List.find (\<lambda>d. lookup k d n \<noteq> None) scanOrder"

definition lockedAt :: "phase kernel \<Rightarrow> phase \<Rightarrow> string \<Rightarrow> bool" where
  "lockedAt k d n \<longleftrightarrow> (case lookup k d n of None \<Rightarrow> False | Some i \<Rightarrow> exclLocked k i)"

definition actualState :: "phase kernel \<Rightarrow> string \<Rightarrow> lifecycle" where
  "actualState k n = (case location k n of None \<Rightarrow> Gone | Some d \<Rightarrow> docState d (lockedAt k d n))"

text \<open>A machine that reports no spurious errors, on which a pod is a directory wherever it is.\<close>

definition quiet :: "phase kernel \<Rightarrow> string \<Rightarrow> bool" where
  "quiet k n \<longleftrightarrow> fault k = (\<lambda>_. None) \<and> lock_inv k \<and>
     (\<forall>d i. lookup k d n = Some i \<longrightarrow> itype k i = DirT) \<and> (\<forall>d. dirs k d \<noteq> None)"

section \<open>The cached state is well formed\<close>

lemma podIn_sel [simp]:
  "isEmbryo (podIn s p) = (s = Embryo)" "isPreparing (podIn s p) = (s = Preparing)"
  "isAbortedPrepare (podIn s p) = (s = AbortedPrepare)" "isPrepared (podIn s p) = (s = Prepared)"
  "isExited (podIn s p) = (s \<in> {Exited, ExitedGarbage, ExitedDeleting})"
  "isExitedGarbage (podIn s p) = (s \<in> {ExitedGarbage, ExitedDeleting})"
  "isExitedDeleting (podIn s p) = (s = ExitedDeleting)" "isGarbage (podIn s p) = (s \<in> {Garbage, Deleting})"
  "isDeleting (podIn s p) = (s = Deleting)" "isGone (podIn s p) = (s = Gone)"
  "p_lock (podIn s p) = p_lock p" "p_uuid (podIn s p) = p_uuid p" "nets (podIn s p) = nets p"
  "createdByMe (podIn s p) = createdByMe p"
  by (simp_all add: podIn_def)

lemma hasState_iff:
  "hasState s p \<longleftrightarrow> isEmbryo p = (s = Embryo) \<and> isPreparing p = (s = Preparing) \<and>
     isAbortedPrepare p = (s = AbortedPrepare) \<and> isPrepared p = (s = Prepared) \<and>
     isExited p = (s \<in> {Exited, ExitedGarbage, ExitedDeleting}) \<and>
     isExitedGarbage p = (s \<in> {ExitedGarbage, ExitedDeleting}) \<and>
     isExitedDeleting p = (s = ExitedDeleting) \<and> isGarbage p = (s \<in> {Garbage, Deleting}) \<and>
     isDeleting p = (s = Deleting) \<and> isGone p = (s = Gone)"
proof -
  have "hasState s p \<longleftrightarrow> isEmbryo (podIn s p) = isEmbryo p \<and> isPreparing (podIn s p) = isPreparing p \<and>
     isAbortedPrepare (podIn s p) = isAbortedPrepare p \<and> isPrepared (podIn s p) = isPrepared p \<and>
     isExited (podIn s p) = isExited p \<and> isExitedGarbage (podIn s p) = isExitedGarbage p \<and>
     isExitedDeleting (podIn s p) = isExitedDeleting p \<and> isGarbage (podIn s p) = isGarbage p \<and>
     isDeleting (podIn s p) = isDeleting p \<and> isGone (podIn s p) = isGone p"
    unfolding hasState_def by (cases p) (auto simp: podIn_def)
  then show ?thesis by auto
qed

lemma hasState_unique: "hasState s p \<Longrightarrow> hasState t p \<Longrightarrow> s = t"
  by (cases s; cases t) (auto simp: hasState_iff)

fun statePath :: "lifecycle \<Rightarrow> phase option" where
  "statePath Embryo = Some EmbryoDir"
| "statePath Preparing = Some PrepareDir"
| "statePath AbortedPrepare = Some PrepareDir"
| "statePath Prepared = Some PreparedDir"
| "statePath Running = Some RunDir"
| "statePath Exited = Some RunDir"
| "statePath ExitedGarbage = Some ExitedGarbageDir"
| "statePath ExitedDeleting = Some ExitedGarbageDir"
| "statePath Garbage = Some GarbageDir"
| "statePath Deleting = Some GarbageDir"
| "statePath Gone = None"

lemma path_hasState: "hasState s p \<Longrightarrow> path p = map_option (\<lambda>d. (d, podName p)) (statePath s)"
  by (cases s) (auto simp: hasState_iff path_def)

lemma statePath_docState [simp]: "statePath (docState d b) = Some d"
  by (cases d) auto

lemma isRunning_hasState: "hasState s p \<Longrightarrow> isRunning p \<longleftrightarrow> s = Running"
  by (cases s) (auto simp: hasState_iff isRunning_def)

section \<open>Finding a pod on a quiet machine\<close>

lemma quiet_fds: "quiet k n \<Longrightarrow> fds_ok k"
  by (simp add: quiet_def lock_inv_def)

lemma NewLock_quiet:
  assumes "quiet k n"
  shows "NewLock (d, n) Dir k =
    (case lookup k d n of
       None \<Rightarrow> (k, Inl (Fail ErrNotExist))
     | Some i \<Rightarrow> (opened i k, Inr \<lparr>lk_path = (d, n), lk_fd = next_fd k\<rparr>))"
  using assms
  by (auto simp: quiet_def NewLock_def bindIO_def mapErr_def sys_open_def with_fault_def sys_fstat_def
      ret_def split: option.splits)

text \<open>The flag each directory stands for before the lock has been tested.\<close>

fun foundFlag :: "phase \<Rightarrow> pod \<Rightarrow> pod" where
  "foundFlag EmbryoDir p = p\<lparr>isEmbryo := True\<rparr>"
| "foundFlag PrepareDir p = p\<lparr>isAbortedPrepare := True\<rparr>"
| "foundFlag PreparedDir p = p\<lparr>isPrepared := True\<rparr>"
| "foundFlag RunDir p = p\<lparr>isExited := True\<rparr>"
| "foundFlag ExitedGarbageDir p = p\<lparr>isExitedGarbage := True, isExited := True\<rparr>"
| "foundFlag GarbageDir p = p\<lparr>isGarbage := True\<rparr>"

lemma openOr_quiet:
  assumes "quiet k (podName p)"
  shows "openOr d flag alternative p k =
    (case lookup k d (podName p) of
       None \<Rightarrow> alternative k
     | Some i \<Rightarrow> (opened i k, Inr (flag p, \<lparr>lk_path = (d, podName p), lk_fd = next_fd k\<rparr>)))"
  by (simp add: openOr_def tryIO_def NewLock_quiet [OF assms] ret_def split: option.splits)

lemma openPod_quiet:
  assumes "quiet k (podName p)"
  shows "openPod p k =
    (case location k (podName p) of
       None \<Rightarrow> (k, Inl (Fail (Msg (''pod '' @ podName p @ '' not found''))))
     | Some d \<Rightarrow> (opened (the (lookup k d (podName p))) k,
         Inr (foundFlag d p, \<lparr>lk_path = (d, podName p), lk_fd = next_fd k\<rparr>)))"
  unfolding openPod_def openOr_quiet [OF assms] location_def scanOrder_def
  by (simp add: tryIO_def NewLock_quiet [OF assms] ret_def stop_def split: option.splits)

lemma location_lookup: "location k n = Some d \<Longrightarrow> lookup k d n \<noteq> None"
  by (auto simp: location_def find_Some_iff)

lemma location_None: "location k n = None \<longleftrightarrow> (\<forall>d. lookup k d n = None)"
proof -
  have "d \<in> set scanOrder" for d by (cases d) (simp_all add: scanOrder_def)
  then show ?thesis by (auto simp: location_def find_None_iff)
qed

text \<open>Testing the lock on a descriptor that has just been opened leaves no trace.\<close>

lemma testLock_fresh:
  assumes "fds_ok k" and "fault k = (\<lambda>_. None)"
  shows "testLock \<lparr>lk_path = pa, lk_fd = next_fd k\<rparr> p (opened i k) =
    (opened i k, Inr (if exclLocked k i then lockedFlags p else p))"
  using others_exclusive_fresh [OF assms(1), of i i] set_mode_fresh [OF assms(1), of _ i] assms(2)
  by (simp add: testLock_def tryIO_def FileLock_defs mapErr_def sys_flock_def ret_def wouldBlock_def)

lemma foundFlag_state:
  "(if b \<and> d \<noteq> PreparedDir \<and> d \<noteq> EmbryoDir then lockedFlags (foundFlag d (zeroPod u)) else foundFlag d (zeroPod u)) =
     podIn (docState d b) (zeroPod u)"
  by (cases d) (simp_all add: podIn_def lockedFlags_def zeroPod_def)

lemma foundFlag_tested [simp]:
  "(\<not> isPrepared (foundFlag d (zeroPod u)) \<and> \<not> isEmbryo (foundFlag d (zeroPod u))) \<longleftrightarrow>
     d \<noteq> PreparedDir \<and> d \<noteq> EmbryoDir"
  by (cases d) (simp_all add: zeroPod_def)

lemma getPod_quiet:
  assumes "quiet k (UUID_String u)" and "location k (UUID_String u) = Some d"
    and "lookup k d (UUID_String u) = Some i"
  shows "getPod decode True u k =
    loadNets decode ((podIn (docState d (exclLocked k i)) (zeroPod u))
      \<lparr>p_lock := \<lparr>lk_path = (d, UUID_String u), lk_fd = next_fd k\<rparr>\<rparr>) (opened i k)"
proof -
  have name: "podName (zeroPod u) = UUID_String u" by (simp add: zeroPod_def)
  have "openPod (zeroPod u) k = (opened i k, Inr (foundFlag d (zeroPod u),
      \<lparr>lk_path = (d, UUID_String u), lk_fd = next_fd k\<rparr>))"
    using openPod_quiet [of k "zeroPod u"] assms by (simp add: name)
  then show ?thesis
    using testLock_fresh [OF quiet_fds [OF assms(1)], of "(d, UUID_String u)" "foundFlag d (zeroPod u)" i] assms
      foundFlag_state [of "exclLocked k i" d u]
    by (cases "d \<noteq> PreparedDir \<and> d \<noteq> EmbryoDir"; cases "exclLocked k i")
      (auto simp: getPod_def initPods_def bindIO_def ret_def quiet_def)
qed

lemma getPod_quiet_none:
  assumes "quiet k (UUID_String u)" and "location k (UUID_String u) = None"
  shows "getPod decode True u k = (k, Inl (Fail (Msg (''pod '' @ UUID_String u @ '' not found''))))"
  using openPod_quiet [of k "zeroPod u"] assms
  by (simp add: getPod_def initPods_def bindIO_def ret_def zeroPod_def)

lemma loadNets_outcome:
  assumes "loadNets decode p k = (k', r)"
  shows "k' = k \<and> (case r of
      Inr p' \<Rightarrow> \<exists>ns. p' = p\<lparr>nets := ns\<rparr>
    | Inl e \<Rightarrow> isRunning p \<and> (\<exists>x. e = Fail x))"
proof (cases "isRunning p")
  case True
  then show ?thesis
    using assms unfolding loadNets_def LoadAt_def FileLock_Fd_def
    by (auto split: if_splits sum.splits simp: sys_readat_def
        elim!: ret_cases stop_cases tryIO_cases bindIO_cases mapErr_cases split: option.splits)
next
  case False
  then have "k' = k" "r = Inr p" using assms unfolding loadNets_def by (auto elim!: ret_cases)
  moreover have "\<exists>ns. p = p\<lparr>nets := ns\<rparr>" by (rule exI [of _ "nets p"]) simp
  ultimately show ?thesis by simp
qed

lemma hasState_podIn [simp]:
  "hasState s (podIn s p)" "hasState s (p\<lparr>p_lock := l\<rparr>) = hasState s p" "hasState s (p\<lparr>nets := ns\<rparr>) = hasState s p"
  by (auto simp: hasState_iff)

text \<open>A machine with one pod, which has exited and on which one descriptor is open.\<close>

definition sampleUUID :: UUID where
  "sampleUUID = replicate 16 0"

definition sampleKernel :: "phase kernel" where
  "sampleKernel = init_kernel\<lparr>dirs := \<lambda>d. Some (if d = RunDir then [(UUID_String sampleUUID, 1)] else []),
     itype := \<lambda>_. DirT, descs := [(3, 1, Unlocked)], next_fd := 4, next_ino := 2\<rparr>"

lemma sample_lookup: "lookup sampleKernel d n = (if d = RunDir \<and> n = UUID_String sampleUUID then Some 1 else None)"
  by (simp add: lookup_def sampleKernel_def)

lemma sample_quiet: "quiet sampleKernel n"
  by (auto simp: quiet_def sample_lookup lock_inv_def fds_ok_def excl_ok_def)
    (simp_all add: sampleKernel_def init_kernel_def split: if_splits)

lemma sample_location: "location sampleKernel (UUID_String sampleUUID) = Some RunDir"
  by (simp add: location_def scanOrder_def sample_lookup)

lemma sample_state: "actualState sampleKernel (UUID_String sampleUUID) = Exited"
  by (simp add: actualState_def sample_location lockedAt_def sample_lookup exclLocked_def)
    (simp add: sampleKernel_def)

text \<open>
  C8. On a machine that reports no spurious errors, \<^verbatim>\<open>getPod\<close> finds exactly the pods that are
  there, its only effect is one open, unlocked descriptor on the pod's directory, and the
  flags it caches are those of the state that the documentation assigns to the directory the
  pod is in and to whether it is locked; it fails only when the pod is nowhere or when it is
  running and its network information cannot be read.
\<close>

theorem getPod_classifies:
  assumes "quiet k (UUID_String u)"
  shows "case getPod decode True u k of (k', r) \<Rightarrow>
    (case location k (UUID_String u) of
       None \<Rightarrow> k' = k \<and> r = Inl (Fail (Msg (''pod '' @ UUID_String u @ '' not found'')))
     | Some d \<Rightarrow> k' = opened (the (lookup k d (UUID_String u))) k \<and>
         (case r of
            Inr p \<Rightarrow> hasState (actualState k (UUID_String u)) p \<and> path p = Some (d, UUID_String u) \<and>
              p_uuid p = u \<and> p_lock p = \<lparr>lk_path = (d, UUID_String u), lk_fd = next_fd k\<rparr> \<and> \<not> createdByMe p
          | Inl e \<Rightarrow> actualState k (UUID_String u) = Running \<and> (\<exists>x. e = Fail x)))"
proof (cases "location k (UUID_String u)")
  case None
  then show ?thesis using getPod_quiet_none [OF assms None] by simp
next
  case (Some d)
  then obtain i where i: "lookup k d (UUID_String u) = Some i" using location_lookup by blast
  let ?s = "docState d (exclLocked k i)"
  let ?p = "(podIn ?s (zeroPod u))\<lparr>p_lock := \<lparr>lk_path = (d, UUID_String u), lk_fd = next_fd k\<rparr>\<rparr>"
  have s: "actualState k (UUID_String u) = ?s" using Some i by (simp add: actualState_def lockedAt_def)
  obtain k' r where run: "getPod decode True u k = (k', r)" by fastforce
  then have load: "loadNets decode ?p (opened i k) = (k', r)"
    using getPod_quiet [OF assms Some i] by simp
  have "hasState ?s ?p" by simp
  then have running: "isRunning ?p \<longleftrightarrow> ?s = Running" by (rule isRunning_hasState)
  have good: "hasState ?s p \<and> path p = Some (d, UUID_String u) \<and> p_uuid p = u \<and>
      p_lock p = \<lparr>lk_path = (d, UUID_String u), lk_fd = next_fd k\<rparr> \<and> \<not> createdByMe p"
    if "p = ?p\<lparr>nets := ns\<rparr>" for p ns
  proof -
    have st: "hasState ?s p" using that by simp
    then show ?thesis using path_hasState [OF st] that by (simp add: zeroPod_def)
  qed
  show ?thesis
  proof (cases r)
    case (Inl e)
    then show ?thesis using loadNets_outcome [OF load] running Some i run s by simp
  next
    case (Inr p)
    then obtain ns where "k' = opened i k" "p = ?p\<lparr>nets := ns\<rparr>" using loadNets_outcome [OF load] by auto
    with good [OF this(2)] show ?thesis using Inr Some i run s by simp
  qed
qed

theorem getPod_classifies_witness:
  "quiet sampleKernel (UUID_String sampleUUID) \<and>
   (case getPod (\<lambda>_. Inr []) True sampleUUID sampleKernel of
      (k', Inr p) \<Rightarrow> hasState Exited p \<and> path p = Some (RunDir, UUID_String sampleUUID)
    | _ \<Rightarrow> False)"
  using getPod_classifies [OF sample_quiet, of sampleUUID "\<lambda>_. Inr []"] sample_quiet
  by (auto simp: sample_location sample_state split: prod.splits sum.splits)

section \<open>Refreshing agrees with finding\<close>

lemma sys_stat_quiet:
  assumes "quiet k n"
  shows "sys_stat d n k =
    (case lookup k d n of None \<Rightarrow> (k, Inl (Fail ENOENT)) | Some i \<Rightarrow> (k, Inr (itype k i, i)))"
  using assms by (simp add: quiet_def sys_stat_def with_fault_def)

lemma statOr_quiet:
  assumes "quiet k (podName p)"
  shows "statOr d flag alternative p k =
    (case lookup k d (podName p) of None \<Rightarrow> alternative k | Some i \<Rightarrow> (k, Inr (flag p)))"
  by (simp add: statOr_def tryIO_def mapErr_def sys_stat_quiet [OF assms] ret_def split: option.splits)

lemma statPod_quiet:
  assumes "quiet k (podName p)"
  shows "statPod p k =
    (k, Inr (case location k (podName p) of None \<Rightarrow> p\<lparr>isGone := True\<rparr> | Some d \<Rightarrow> foundFlag d p))"
  unfolding statPod_def tryIO_def mapErr_def sys_stat_quiet [OF assms] statOr_quiet [OF assms]
    location_def scanOrder_def
  by (simp add: ret_def statOr_quiet [OF assms] split: option.splits)

text \<open>Testing the lock through an open, unlocked descriptor.\<close>

lemma testLock_open:
  assumes "fds_ok k" and "fault k = (\<lambda>_. None)"
    and "ino_of k (lk_fd l) = Some i" and "mode_of k (lk_fd l) = Unlocked"
  shows "testLock l p k = (k, Inr (if exclLocked k i then lockedFlags p else p))"
proof -
  have fd: "map_of (descs k) (lk_fd l) = Some (i, Unlocked)"
    using assms(3,4) by (auto simp: ino_of_def mode_of_def split: option.splits)
  note same = set_mode_same [OF assms(1) fd]
  have fd': "map_of (descs (set_mode (lk_fd l) SharedLk k)) (lk_fd l) = Some (i, SharedLk)"
    by (simp add: map_of_set_mode fd)
  show ?thesis
    using others_exclusive_own [OF assms(1,4), of i] assms(2) fd fd' same
    by (simp add: testLock_def tryIO_def FileLock_defs mapErr_def sys_flock_def ret_def wouldBlock_def)
qed

lemma clearFlags_sel [simp]:
  "p_uuid (clearFlags p) = p_uuid p" "p_lock (clearFlags p) = p_lock p"
  by (simp_all add: clearFlags_def)

lemma clearFlags_found:
  "(if b \<and> d \<noteq> PreparedDir \<and> d \<noteq> EmbryoDir then lockedFlags (foundFlag d (clearFlags p))
    else foundFlag d (clearFlags p)) = podIn (docState d b) p"
  by (cases d) (simp_all add: podIn_def lockedFlags_def clearFlags_def)

lemma clearFlags_tested:
  "(\<not> isPrepared (foundFlag d (clearFlags p)) \<and> \<not> isEmbryo (foundFlag d (clearFlags p)) \<and>
    \<not> isGone (foundFlag d (clearFlags p))) \<longleftrightarrow> d \<noteq> PreparedDir \<and> d \<noteq> EmbryoDir"
  "p_lock (foundFlag d (clearFlags p)) = p_lock p"
  by (cases d; simp add: clearFlags_def)+

lemma clearFlags_gone: "(clearFlags p)\<lparr>isGone := True\<rparr> = podIn Gone p"
  by (simp add: podIn_def clearFlags_def)

lemma refreshState_quiet:
  assumes "quiet k (podName p)" and "mode_of k (lk_fd (p_lock p)) = Unlocked"
    and "\<And>d. location k (podName p) = Some d \<Longrightarrow> ino_of k (lk_fd (p_lock p)) = lookup k d (podName p)"
  shows "refreshState p k = (k, Inr (podIn (actualState k (podName p)) p))"
proof -
  have stat: "statPod (clearFlags p) k = (k, Inr (case location k (podName p) of
      None \<Rightarrow> (clearFlags p)\<lparr>isGone := True\<rparr> | Some d \<Rightarrow> foundFlag d (clearFlags p)))"
    using statPod_quiet [of k "clearFlags p"] assms(1) by simp
  show ?thesis
  proof (cases "location k (podName p)")
    case None
    then show ?thesis
      using stat by (simp add: refreshState_def bindIO_def ret_def actualState_def clearFlags_gone)
  next
    case (Some d)
    then obtain i where i: "lookup k d (podName p) = Some i" using location_lookup by blast
    have st: "actualState k (podName p) = docState d (exclLocked k i)"
      using Some i by (simp add: actualState_def lockedAt_def)
    have test: "testLock (p_lock p) q k = (k, Inr (if exclLocked k i then lockedFlags q else q))" for q
      using assms(1) assms(3) [OF Some] i
      by (intro testLock_open [OF quiet_fds [OF assms(1)] _ _ assms(2)]) (simp_all add: quiet_def)
    show ?thesis
      using stat Some test clearFlags_found [of "exclLocked k i" d p]
      by (cases "d \<noteq> PreparedDir \<and> d \<noteq> EmbryoDir"; cases "exclLocked k i")
        (auto simp: refreshState_def bindIO_def ret_def st clearFlags_tested)
  qed
qed

text \<open>
  C16. Refreshing is equivalent to finding the pod anew: for a pod whose open descriptor is
  unlocked and is the directory that the scan finds, \<^verbatim>\<open>refreshState\<close> changes nothing on the
  machine and leaves exactly the flags of the documented state, the ones \<^verbatim>\<open>getPod\<close> would cache;
  a pod that is nowhere is marked gone.
\<close>

theorem refreshState_agrees:
  assumes "quiet k (podName p)" and "mode_of k (lk_fd (p_lock p)) = Unlocked"
    and "\<And>d. location k (podName p) = Some d \<Longrightarrow> ino_of k (lk_fd (p_lock p)) = lookup k d (podName p)"
  shows "refreshState p k = (k, Inr (podIn (actualState k (podName p)) p))"
  using assms by (rule refreshState_quiet)

theorem refreshState_agrees_witness:
  "\<exists>p. podName p = UUID_String sampleUUID \<and> isPrepared p \<and>
     refreshState p sampleKernel = (sampleKernel, Inr (podIn Exited p))"
proof -
  let ?p = "(zeroPod sampleUUID)\<lparr>p_lock := \<lparr>lk_path = (PreparedDir, UUID_String sampleUUID), lk_fd = 3\<rparr>,
    isPrepared := True\<rparr>"
  have name: "podName ?p = UUID_String sampleUUID" by (simp add: zeroPod_def)
  have "refreshState ?p sampleKernel = (sampleKernel, Inr (podIn (actualState sampleKernel (podName ?p)) ?p))"
  proof (rule refreshState_agrees)
    show "quiet sampleKernel (podName ?p)" by (rule sample_quiet)
    show "mode_of sampleKernel (lk_fd (p_lock ?p)) = Unlocked" by (simp add: mode_of_def sampleKernel_def)
    show "ino_of sampleKernel (lk_fd (p_lock ?p)) = lookup sampleKernel d (podName ?p)"
      if "location sampleKernel (podName ?p) = Some d" for d
      using that name sample_location by (simp add: sample_lookup ino_of_def) (simp add: sampleKernel_def)
  qed
  then show ?thesis using name sample_state by (intro exI [of _ ?p]) simp
qed

end
