(* ===== verification/Pod_Transitions.thy ===== *)
theory Pod_Transitions
  imports Pods
begin

text \<open>
  The transitions of \<^verbatim>\<open>rkt/pods.go\<close> against the documented state machine, on a machine whose system
  calls may fail in any way.
\<close>

section \<open>The documented state machine\<close>

datatype xop = ToPreparing | ToPrepared | ToRun | ToExitedGarbage | ToGarbage

fun xto :: "xop \<Rightarrow> pod \<Rightarrow> pod podio" where
  "xto ToPreparing = xToPreparing"
| "xto ToPrepared = xToPrepared"
| "xto ToRun = xToRun"
| "xto ToExitedGarbage = xToExitedGarbage"
| "xto ToGarbage = xToGarbage"

text \<open>What a transition leads to; \<open>mine\<close> says that the process created the pod.\<close>

fun docStep :: "bool \<Rightarrow> xop \<Rightarrow> lifecycle \<Rightarrow> lifecycle option" where
  "docStep mine ToPreparing Embryo = (if mine then Some Preparing else None)"
| "docStep mine ToPrepared Preparing = (if mine then Some Prepared else None)"
| "docStep mine ToRun Prepared = Some Running"
| "docStep mine ToRun Preparing = (if mine then Some Running else None)"
| "docStep mine ToExitedGarbage Exited = Some ExitedGarbage"
| "docStep mine ToGarbage AbortedPrepare = Some Garbage"
| "docStep mine ToGarbage Prepared = Some Garbage"
| "docStep mine _ _ = None"

text \<open>The lock on the pod's directory after a transition.\<close>

fun lockAfter :: "xop \<Rightarrow> flmode \<Rightarrow> flmode" where
  "lockAfter ToPreparing m = ExclusiveLk"
| "lockAfter ToPrepared m = Unlocked"
| "lockAfter ToRun m = ExclusiveLk"
| "lockAfter ToExitedGarbage m = m"
| "lockAfter ToGarbage m = m"

text \<open>The machine after the pod has been renamed, and otherwise unchanged paths.\<close>

definition movedPod :: "phase kernel \<Rightarrow> phase kernel \<Rightarrow> string \<Rightarrow> phase option \<Rightarrow> phase option \<Rightarrow> bool" where
  "movedPod k k' n src dst \<longleftrightarrow>
     (case (src, dst) of
        (Some d, Some d') \<Rightarrow>
          (\<exists>i. lookup k d n = Some i \<and>
             (\<forall>c m. lookup k' c m = (if (c, m) = (d', n) then Some i else if (c, m) = (d, n) then None else lookup k c m)))
      | _ \<Rightarrow> False)"

section \<open>The steps of a transition\<close>

lemma osRename_outcome:
  assumes "osRename (Some (d, n)) (d', n) k = (k', r)" and "d \<noteq> d'"
  shows "k' = k \<and> (\<exists>e. r = Inl (Fail e)) \<or>
    (\<exists>i. lookup k d n = Some i \<and> dirs k d' \<noteq> None \<and> k' = moved d n d' n i k \<and> r = Inr ())"
  using assms by (auto simp: osRename_def elim!: mapErr_cases dest!: sys_rename_outcome)

lemma movedPod_moved:
  "lookup k d n = Some i \<Longrightarrow> dirs k d' \<noteq> None \<Longrightarrow> movedPod k (moved d n d' n i k) n (Some d) (Some d')"
  by (auto simp: movedPod_def lookup_moved)

lemma movedPod_cong:
  "lookup k1 = lookup k \<Longrightarrow> lookup k1' = lookup k' \<Longrightarrow> movedPod k1 k1' n s d = movedPod k k' n s d"
  by (simp only: movedPod_def)

lemma syncDir_outcome: "syncDir d k = (k', r) \<Longrightarrow> k' = k \<and> (r = Inr () \<or> (\<exists>e. r = Inl (Fail e)))"
  unfolding syncDir_def
  by (auto simp: sys_opendir_def sys_syncdir_def with_fault_def elim!: bindIO_cases mapErr_cases
      split: option.splits if_splits)

lemma flock_ino_eq: "sys_flock fd opn nb k = (k', r) \<Longrightarrow> ino_of k' = ino_of k"
  using sys_flock_ino [of fd opn nb k] by (metis fst_conv)

lemma flock_outcome:
  assumes "mapErr f (sys_flock fd opn nb) k = (k', r)"
  shows "lookup k' = lookup k \<and> dirs k' = dirs k \<and> ino_of k' = ino_of k \<and>
    (r = Inr () \<and> mode_of k' fd = (case opn of LOCK_EX \<Rightarrow> ExclusiveLk | LOCK_SH \<Rightarrow> SharedLk | LOCK_UN \<Rightarrow> Unlocked) \<or>
     (\<exists>e. r = Inl e))"
proof -
  obtain x where fl: "sys_flock fd opn nb k = (k', x)" and r: "x = Inr () \<longrightarrow> r = Inr ()" "x \<noteq> Inr () \<longrightarrow> (\<exists>e. r = Inl e)"
    using assms by (auto elim!: mapErr_cases)
  have "dirs k' = dirs k" using sys_flock_frame [OF fl] by simp
  then have "lookup k' = lookup k" by (simp add: lookup_def fun_eq_iff)
  moreover have "x = Inr () \<longrightarrow> mode_of k' fd =
    (case opn of LOCK_EX \<Rightarrow> ExclusiveLk | LOCK_SH \<Rightarrow> SharedLk | LOCK_UN \<Rightarrow> Unlocked)"
    using sys_flock_got(1) fl by blast
  ultimately show ?thesis using \<open>dirs k' = dirs k\<close> flock_ino_eq [OF fl] r by blast
qed

text \<open>
  Every transition is a rename, possibly after taking the lock exclusively and possibly before
  releasing it, followed by a sync of the directory.
\<close>

definition acquire :: "bool \<Rightarrow> pod \<Rightarrow> unit podio" where
  "acquire b p = (if b then FileLock_ExclusiveLock (p_lock p) else ret ())"

definition release :: "bool \<Rightarrow> pod \<Rightarrow> unit podio" where
  "release b p = (if b then FileLock_Unlock (p_lock p) else ret ())"

definition transit :: "bool \<Rightarrow> bool \<Rightarrow> pod \<Rightarrow> phase \<Rightarrow> phase \<Rightarrow> pod \<Rightarrow> pod podio" where
  "transit acq rel p d d' q =
     bindIO (acquire acq p) (\<lambda>_.
     bindIO (osRename (Some (d, podName p)) (d', podName p)) (\<lambda>_.
     bindIO (release rel p) (\<lambda>_.
     bindIO (syncDir d') (\<lambda>_. ret q))))"

lemma acquire_outcome:
  assumes "acquire b p k = (k', r)"
  shows "lookup k' = lookup k \<and> dirs k' = dirs k \<and> ino_of k' = ino_of k \<and>
    (r = Inr () \<longrightarrow> mode_of k' (lk_fd (p_lock p)) = (if b then ExclusiveLk else mode_of k (lk_fd (p_lock p))))"
  using assms by (auto simp: acquire_def FileLock_defs elim!: ret_cases split: if_splits dest!: flock_outcome)

lemma release_outcome:
  assumes "release b p k = (k', r)"
  shows "lookup k' = lookup k \<and> ino_of k' = ino_of k \<and>
    (r = Inr () \<longrightarrow> mode_of k' (lk_fd (p_lock p)) = (if b then Unlocked else mode_of k (lk_fd (p_lock p))))"
  using assms by (auto simp: release_def FileLock_defs elim!: ret_cases split: if_splits dest!: flock_outcome)

lemma transit_outcome:
  assumes "transit acq rel p d d' q k = (k', r)" and "d \<noteq> d'"
  shows "(lookup k' = lookup k \<or> movedPod k k' (podName p) (Some d) (Some d')) \<and> ino_of k' = ino_of k \<and>
    (\<forall>p'. r = Inr p' \<longrightarrow> p' = q \<and> movedPod k k' (podName p) (Some d) (Some d') \<and>
       mode_of k' (lk_fd (p_lock p)) =
         (if rel then Unlocked else if acq then ExclusiveLk else mode_of k (lk_fd (p_lock p))))"
  using assms(1) unfolding transit_def
proof (rule bindIO_cases)
  fix e assume "acquire acq p k = (k', Inl e)" "r = Inl e"
  then show ?thesis using acquire_outcome [of acq p k k' "Inl e"] by simp
next
  fix a k1
  assume a: "acquire acq p k = (k1, Inr a)"
    and rest: "bindIO (osRename (Some (d, podName p)) (d', podName p)) (\<lambda>_. bindIO (release rel p)
      (\<lambda>_. bindIO (syncDir d') (\<lambda>_. ret q))) k1 = (k', r)"
  note k1 = acquire_outcome [OF a]
  from rest show ?thesis
  proof (rule bindIO_cases)
    fix e assume "osRename (Some (d, podName p)) (d', podName p) k1 = (k', Inl e)" "r = Inl e"
    then show ?thesis using osRename_outcome [of d "podName p" d' k1 k' "Inl e"] assms(2) k1 by auto
  next
    fix b k2
    assume b: "osRename (Some (d, podName p)) (d', podName p) k1 = (k2, Inr b)"
      and tail: "bindIO (release rel p) (\<lambda>_. bindIO (syncDir d') (\<lambda>_. ret q)) k2 = (k', r)"
    obtain i where i: "lookup k1 d (podName p) = Some i" "dirs k1 d' \<noteq> None" "k2 = moved d (podName p) d' (podName p) i k1"
      using osRename_outcome [OF b assms(2)] by auto
    have m: "movedPod k k2 (podName p) (Some d) (Some d')"
      using movedPod_moved [OF i(1,2)] k1 i(3) movedPod_cong [of k1 k k2 k2] by simp
    have m2: "mode_of k2 = mode_of k1" "ino_of k2 = ino_of k1" by (simp_all add: i(3))
    show ?thesis
      using tail m m2 k1 movedPod_cong [of k k k' k2]
      by (auto elim!: bindIO_cases ret_cases dest!: release_outcome syncDir_outcome)
  qed
qed

text \<open>The transitions, with their guards, in this form.\<close>

lemma xto_guards:
  assumes "hasState s p" and "docStep (createdByMe p) x s = None" and "xto x p k = (k', r)"
  shows "k' = k \<and> (\<exists>m. r = Inl (Fail (Msg m)))"
  using assms
  by (cases x; cases s)
    (auto simp: hasState_iff xToPreparing_def xToPrepared_def xToRun_def xToExitedGarbage_def xToGarbage_def
      elim!: bindIO_cases guardIO_cases split: if_splits)

lemma xto_transit:
  assumes "hasState s p" and "docStep (createdByMe p) x s = Some s'"
  shows "xto x p = transit (lockAfter x Unlocked = ExclusiveLk) (x = ToPrepared) p
    (the (statePath s)) (the (statePath s')) (podIn s' p)"
proof -
  have step: "bindIO (ret ()) f = f ()" for f :: "unit \<Rightarrow> 'b podio" by (rule bindIO_ret)
  show ?thesis
    using assms path_hasState [OF assms(1)]
    by (cases p; cases x; cases s)
      (auto simp: hasState_iff xToPreparing_def xToPrepared_def xToRun_def xToExitedGarbage_def xToGarbage_def
        transit_def acquire_def release_def guardIO_def step podIn_def split: if_splits)
qed

text \<open>Transitions only go forward in the order of the directories.\<close>

lemma docStep_forward:
  "docStep mine x s = Some s' \<Longrightarrow> \<exists>d d'. statePath s = Some d \<and> statePath s' = Some d' \<and> d < d'"
  by (cases x; cases s) (auto simp: less_phase_def split: if_splits)

section \<open>Creating a pod\<close>

lemma mkdirAlls_outcome:
  assumes "mkdirAlls ds k = (k', r)"
  shows "lookup k' = lookup k \<and> descs k' = descs k \<and> next_fd k' = next_fd k \<and> next_ino k' = next_ino k \<and>
    itype k' = itype k"
  using assms
proof (induction ds arbitrary: k)
  case Nil
  then show ?case by (auto elim!: ret_cases)
next
  case (Cons d ds)
  have step: "lookup k1 = lookup k \<and> descs k1 = descs k \<and> next_fd k1 = next_fd k \<and> next_ino k1 = next_ino k \<and>
    itype k1 = itype k"
    if "sys_mkdirall d k = (k1, x)" for k1 x
    using sys_mkdirall_outcome [OF that] by (auto simp: fun_eq_iff) (simp add: lookup_def)
  from Cons.prems show ?case
    by (auto elim!: bindIO_cases mapErr_cases dest!: step dest: Cons.IH)
qed

lemma initPods_outcome:
  assumes "initPods b k = (k', r)"
  shows "lookup k' = lookup k \<and> descs k' = descs k \<and> next_fd k' = next_fd k \<and> next_ino k' = next_ino k \<and>
    itype k' = itype k"
  using assms unfolding initPods_def
  by (auto elim!: bindIO_cases ret_cases split: if_splits dest!: mkdirAlls_outcome simp del: mkdirAlls.simps)

section \<open>What finding a pod says when system calls may fail\<close>

definition foundAt :: "phase \<Rightarrow> pod \<Rightarrow> phase kernel \<Rightarrow> phase kernel \<Rightarrow> pod \<Rightarrow> phase FileLock \<Rightarrow> bool" where
  "foundAt d p k k' q l \<longleftrightarrow> (\<exists>i. lookup k d (podName p) = Some i \<and> q = foundFlag d p \<and> k' = opened i k \<and>
     l = \<lparr>lk_path = (d, podName p), lk_fd = next_fd k\<rparr>)"

lemma openOr_Inr:
  assumes "openOr d flag alternative p k = (k', Inr (q, l))" and "flag p = foundFlag d p"
  shows "foundAt d p k k' q l \<or> alternative k = (k', Inr (q, l))"
  using assms unfolding openOr_def foundAt_def
  by (auto elim!: tryIO_cases ret_cases stop_cases NewLock_ok split: if_splits dest: NewLock_notExist)

lemma openPod_found:
  assumes "openPod p k = (k', Inr (q, l))"
  shows "\<exists>d. foundAt d p k k' q l"
proof -
  have last: "tryIO (NewLock (GarbageDir, podName p) Dir) (\<lambda>r. case r of Inr l \<Rightarrow> ret (p\<lparr>isGarbage := True\<rparr>, l)
      | Inl _ \<Rightarrow> fail (Msg (''pod '' @ podName p @ '' not found''))) k = (k', Inr (q, l)) \<Longrightarrow>
    foundAt GarbageDir p k k' q l"
    by (auto simp: foundAt_def elim!: tryIO_cases ret_cases stop_cases NewLock_ok)
  from assms show ?thesis
    unfolding openPod_def
    by (elim openOr_Inr [THEN disjE]) (blast dest: last | (simp; fail))+
qed

lemma testLock_Inr:
  assumes "testLock l p k = (k', Inr p')" and "mode_of k (lk_fd l) = Unlocked" and "ino_of k (lk_fd l) = Some i"
  shows "p' = lockedFlags p \<or> p' = p \<and> \<not> others_exclusive k (lk_fd l) i"
proof -
  have fd: "map_of (descs k) (lk_fd l) = Some (i, Unlocked)"
    using assms(2,3) by (auto simp: mode_of_def ino_of_def split: option.splits)
  show ?thesis
    using assms(1) unfolding testLock_def
  proof (rule tryIO_cases)
    fix a k1
    assume "FileLock_TrySharedLock l k = (k1, Inr a)"
      and rest: "(case Inr a of Inl e \<Rightarrow> if e \<noteq> ErrLocked then bindIO (FileLock_Close l) (\<lambda>_. fail (Wrap ''unexpected lock error: '' e))
        else ret (lockedFlags p) | Inr _ \<Rightarrow> tryIO (FileLock_Unlock l) (\<lambda>_. ret p)) k1 = (k', Inr p')"
    then have "\<not> others_exclusive k (lk_fd l) i"
      using fd by (auto simp: FileLock_defs sys_flock_def elim!: mapErr_cases split: option.splits if_splits)
    moreover have "p' = p" using rest by (auto elim!: tryIO_cases ret_cases)
    ultimately show ?thesis by simp
  qed (auto elim!: ret_cases bindIO_cases stop_cases split: if_splits)
qed

text \<open>
  A pod that is found is in a directory, has the flags of that directory, and is taken for
  unlocked only if it is.
\<close>

lemma getPod_found:
  assumes "getPod decode b u k = (k', Inr p)" and "lock_inv k"
  shows "\<exists>d i c. lookup k d (UUID_String u) = Some i \<and> hasState (docState d c) p \<and> p_uuid p = u \<and>
    (exclLocked k i \<and> d \<noteq> PreparedDir \<and> d \<noteq> EmbryoDir \<longrightarrow> c)"
proof -
  obtain b' k0 where init: "initPods b k = (k0, Inr b')"
    using assms(1) unfolding getPod_def by (auto elim!: bindIO_cases)
  note k0 = initPods_outcome [OF init]
  obtain q l k1 where "openPod (zeroPod u) k0 = (k1, Inr (q, l))"
    and rest: "bindIO (if \<not> isPrepared q \<and> \<not> isEmbryo q then testLock l q else ret q)
      (\<lambda>p. loadNets decode (p\<lparr>p_lock := l\<rparr>)) k1 = (k', Inr p)"
    using assms(1) init unfolding getPod_def by (auto simp: bindIO_def split: prod.splits sum.splits)
  then obtain d i where d: "lookup k0 d (UUID_String u) = Some i" "q = foundFlag d (zeroPod u)" "k1 = opened i k0"
    "l = \<lparr>lk_path = (d, UUID_String u), lk_fd = next_fd k0\<rparr>"
    by (auto dest!: openPod_found simp: foundAt_def)
  obtain p1 k2 where p1: "(if \<not> isPrepared q \<and> \<not> isEmbryo q then testLock l q else ret q) k1 = (k2, Inr p1)"
    and load: "loadNets decode (p1\<lparr>p_lock := l\<rparr>) k2 = (k', Inr p)"
    using rest by (auto elim!: bindIO_cases)
  obtain ns where p: "p = p1\<lparr>p_lock := l, nets := ns\<rparr>" using loadNets_outcome [OF load] by auto
  have inv0: "fds_ok k0" using assms(2) k0 lock_inv_cong [of k0 k] by (simp add: lock_inv_def)
  have tested: "p1 = lockedFlags q \<or> p1 = q \<and> \<not> exclLocked k i" if "d \<noteq> PreparedDir \<and> d \<noteq> EmbryoDir"
  proof -
    have "testLock l q k1 = (k2, Inr p1)" using p1 that d(2) by simp
    from testLock_Inr [OF this, of i] show ?thesis
      using d others_exclusive_fresh [OF inv0, of i i] k0 by (simp add: ino_of_opened exclLocked_def)
  qed
  have "p1 = q" if "\<not> (d \<noteq> PreparedDir \<and> d \<noteq> EmbryoDir)"
    using p1 that d(2) by (auto elim!: ret_cases)
  with tested obtain c where c: "p1 = podIn (docState d c) (zeroPod u)"
    "exclLocked k i \<and> d \<noteq> PreparedDir \<and> d \<noteq> EmbryoDir \<longrightarrow> c"
    using foundFlag_state [of _ d u] d(2) by (metis (full_types))
  have "hasState (docState d c) p" "p_uuid p = u" by (simp_all add: p c(1))
  then show ?thesis
    using d(1) k0 c(2) by (intro exI [of _ d] exI [of _ i] exI [of _ c]) simp
qed

section \<open>Properties\<close>

text \<open>
  C5. Every transition implements the documented state machine, whichever system calls fail. In
  a state where the documentation has no such transition it is refused and nothing changes;
  otherwise, when it succeeds, the pod's directory has moved from the directory of the old
  state to that of the new one and nothing else has, the cached flags are those of the
  new state and the lock is as the new state wants it; when it fails, the pod is
  in one of the two places.
\<close>

theorem transitions_implement_lifecycle:
  assumes "hasState s p"
  shows "case xto x p k of (k', r) \<Rightarrow>
    (case docStep (createdByMe p) x s of
       None \<Rightarrow> k' = k \<and> (\<exists>m. r = Inl (Fail (Msg m)))
     | Some s' \<Rightarrow>
         (case r of
            Inr p' \<Rightarrow> hasState s' p' \<and> p' = podIn s' p \<and>
              movedPod k k' (podName p) (statePath s) (statePath s') \<and>
              mode_of k' (lk_fd (p_lock p)) = lockAfter x (mode_of k (lk_fd (p_lock p)))
          | Inl e \<Rightarrow> lookup k' = lookup k \<or> movedPod k k' (podName p) (statePath s) (statePath s')))"
proof (cases "docStep (createdByMe p) x s")
  case None
  then show ?thesis using xto_guards [OF assms None] by (simp split: prod.splits)
next
  case (Some s')
  obtain d d' where d: "statePath s = Some d" "statePath s' = Some d'" "d < d'"
    using docStep_forward [OF Some] by blast
  then have "d \<noteq> d'" by simp
  obtain k' r where run: "xto x p k = (k', r)" by fastforce
  then have "transit (lockAfter x Unlocked = ExclusiveLk) (x = ToPrepared) p d d' (podIn s' p) k = (k', r)"
    using xto_transit [OF assms Some] d by simp
  note out = transit_outcome [OF this \<open>d \<noteq> d'\<close>]
  have lock: "lockAfter x m =
      (if x = ToPrepared then Unlocked else if lockAfter x Unlocked = ExclusiveLk then ExclusiveLk else m)" for m
    by (cases x) simp_all
  show ?thesis
    unfolding run by (cases r) (use out Some d lock in simp_all)
qed

theorem transitions_implement_lifecycle_witness:
  "\<exists>p. hasState Exited p \<and> podName p = UUID_String sampleUUID \<and>
     (case xto ToExitedGarbage p sampleKernel of
        (k', Inr p') \<Rightarrow> hasState ExitedGarbage p' \<and>
          lookup k' ExitedGarbageDir (UUID_String sampleUUID) = Some 1 \<and> lookup k' RunDir (UUID_String sampleUUID) = None
      | _ \<Rightarrow> False)"
proof -
  let ?p = "podIn Exited (zeroPod sampleUUID)"
  have p: "hasState Exited ?p" "podName ?p = UUID_String sampleUUID" "createdByMe ?p = False"
    by (simp_all add: zeroPod_def)
  have quiet: "fault sampleKernel = (\<lambda>_. None)" "dirs sampleKernel d \<noteq> None" for d
    using sample_quiet [of "UUID_String sampleUUID"] by (auto simp: quiet_def)
  obtain k' p' where run: "xto ToExitedGarbage ?p sampleKernel = (k', Inr p')"
    using p quiet
    by (simp add: xToExitedGarbage_def bindIO_def guardIO_def ret_def osRename_def mapErr_def sys_rename_def
        with_fault_def sample_lookup syncDir_def sys_opendir_def sys_syncdir_def)
  have "hasState ExitedGarbage p' \<and> movedPod sampleKernel k' (UUID_String sampleUUID) (Some RunDir) (Some ExitedGarbageDir)"
    using transitions_implement_lifecycle [OF p(1), where x = ToExitedGarbage and k = sampleKernel] p run by simp
  then show ?thesis
    using run p sample_lookup by (intro exI [of _ ?p]) (simp add: movedPod_def)
qed

text \<open>
  C28. \<^verbatim>\<open>newPod\<close> gives its caller a pod that is being prepared: when it succeeds, the pod is a fresh
  directory at its name under \<^verbatim>\<open>prepare\<close>, the caller's descriptor is open on it and holds its lock
  exclusively, the embryo is gone and no other pod has been touched.
\<close>

theorem newPod_prepares:
  assumes "newPod inited uuidString k = (k', Inr p)"
  shows "NewUUID uuidString = Inr (p_uuid p) \<and> hasState Preparing p \<and> createdByMe p \<and>
    lookup k' PrepareDir (podName p) = Some (next_ino k) \<and> ino_of k' (lk_fd (p_lock p)) = Some (next_ino k) \<and>
    mode_of k' (lk_fd (p_lock p)) = ExclusiveLk \<and> lookup k' EmbryoDir (podName p) = None \<and>
    (\<forall>c m. (c, m) \<notin> {(EmbryoDir, podName p), (PrepareDir, podName p)} \<longrightarrow> lookup k' c m = lookup k c m)"
proof -
  obtain b k1 where init: "initPods inited k = (k1, Inr b)"
    using assms unfolding newPod_def by (auto elim!: bindIO_cases)
  note k1 = initPods_outcome [OF init]
  obtain u where u: "NewUUID uuidString = Inr u"
    using assms init unfolding newPod_def by (auto simp: bindIO_def stop_def split: sum.splits)
  define q where "q = (zeroPod u)\<lparr>createdByMe := True, isEmbryo := True\<rparr>"
  have name: "podName q = UUID_String u" by (simp add: q_def zeroPod_def)
  obtain k2 where mk: "sys_mkdir EmbryoDir (UUID_String u) k1 = (k2, Inr ())"
    and rest: "tryIO (NewLock (EmbryoDir, UUID_String u) Dir) (\<lambda>r. case r of
      Inl e \<Rightarrow> tryIO (mapErr PathError (sys_remove EmbryoDir (UUID_String u))) (\<lambda>_. fail e)
      | Inr l \<Rightarrow> xToPreparing (q\<lparr>p_lock := l\<rparr>)) k2 = (k', Inr p)"
    using assms init u name unfolding newPod_def Let_def q_def
    by (auto simp: bindIO_def elim!: mapErr_cases split: prod.splits sum.splits)
  have k2: "k2 = new_inode EmbryoDir (UUID_String u) DirT k1" "dirs k1 EmbryoDir \<noteq> None"
    using mk by (auto simp: sys_mkdir_def with_fault_def split: option.splits if_splits)
  obtain l k3 where lk: "NewLock (EmbryoDir, UUID_String u) Dir k2 = (k3, Inr l)"
    and x: "xToPreparing (q\<lparr>p_lock := l\<rparr>) k3 = (k', Inr p)"
    using rest by (auto elim!: tryIO_cases stop_cases)
  have look2: "lookup k2 EmbryoDir (UUID_String u) = Some (next_ino k)"
    using k2 k1 by (simp add: lookup_new_inode)
  have k3: "k3 = opened (next_ino k) k2" "lk_fd l = next_fd k2"
    using lk look2 by (auto elim!: NewLock_ok)
  let ?p = "q\<lparr>p_lock := l\<rparr>"
  have st: "hasState Embryo ?p" "createdByMe ?p" "podName ?p = UUID_String u" "p_uuid q = u"
    by (simp_all add: hasState_iff q_def zeroPod_def)
  have "transit True False ?p EmbryoDir PrepareDir (podIn Preparing ?p) k3 = (k', Inr p)"
    using xto_transit [OF st(1), of ToPreparing Preparing] st(2) x by simp
  from transit_outcome [OF this] have out: "p = podIn Preparing ?p" "ino_of k' = ino_of k3"
    "movedPod k3 k' (UUID_String u) (Some EmbryoDir) (Some PrepareDir)" "mode_of k' (lk_fd l) = ExclusiveLk"
    using st(3) by simp_all
  have look3: "lookup k3 c m = (if (c, m) = (EmbryoDir, UUID_String u) then Some (next_ino k) else lookup k c m)" for c m
    using k3 k2 k1 by (auto simp: lookup_new_inode)
  have "ino_of k3 (lk_fd l) = Some (next_ino k)" by (simp add: k3 ino_of_opened)
  then show ?thesis
    using out st u look3 by (auto simp: movedPod_def)
qed

theorem newPod_prepares_witness:
  "\<exists>k' p. newPod False ''000000000000000000000000000000ff'' init_kernel = (k', Inr p) \<and>
     hasState Preparing p \<and> mode_of k' (lk_fd (p_lock p)) = ExclusiveLk"
proof -
  have "case snd (newPod False ''000000000000000000000000000000ff'' init_kernel) of Inr p \<Rightarrow> True | Inl _ \<Rightarrow> False"
    by code_simp
  then obtain k' p where run: "newPod False ''000000000000000000000000000000ff'' init_kernel = (k', Inr p)"
    by (cases "newPod False ''000000000000000000000000000000ff'' init_kernel") (auto split: sum.splits)
  then show ?thesis using newPod_prepares [OF run] by blast
qed

text \<open>The descriptor of a waiting process can take the lock, and is the pod's directory.\<close>

definition waitable :: "phase kernel \<Rightarrow> pod \<Rightarrow> bool" where
  "waitable k p \<longleftrightarrow> quiet k (podName p) \<and> mode_of k (lk_fd (p_lock p)) = Unlocked \<and>
     (case ino_of k (lk_fd (p_lock p)) of
        None \<Rightarrow> False
      | Some i \<Rightarrow> \<not> exclLocked k i \<and> (\<forall>d \<in> set_option (location k (podName p)). lookup k d (podName p) = Some i))"

text \<open>The machine in successive rounds of the loop.\<close>

fun rounds :: "(nat \<Rightarrow> phase kernel \<Rightarrow> phase kernel) \<Rightarrow> nat \<Rightarrow> phase kernel \<Rightarrow> nat \<Rightarrow> phase kernel" where
  "rounds env n k 0 = env n k"
| "rounds env n k (Suc j) = rounds env (Suc n) (env n k) j"

definition finalState :: "lifecycle \<Rightarrow> bool" where
  "finalState s \<longleftrightarrow> s \<in> {AbortedPrepare, Exited, ExitedGarbage, ExitedDeleting, Garbage, Deleting, Gone}"

lemma doneWaiting_podIn [simp]: "doneWaiting (podIn s p) = finalState s"
  by (cases s) (simp_all add: doneWaiting_def finalState_def)

lemma podIn_podIn [simp]: "podIn s (podIn t p) = podIn s p"
  by (simp add: podIn_def)

lemma waitable_podIn [simp]: "waitable k (podIn s p) = waitable k p"
  by (simp only: waitable_def podIn_sel)

lemma shared_and_back:
  assumes "waitable k p"
  shows "\<exists>k1. FileLock_SharedLock (p_lock p) k = (k1, Inr ()) \<and> FileLock_Unlock (p_lock p) k1 = (k, Inr ())"
proof -
  obtain i where fd: "map_of (descs k) (lk_fd (p_lock p)) = Some (i, Unlocked)" and free: "\<not> exclLocked k i"
    using assms by (auto simp: waitable_def ino_of_def mode_of_def split: option.splits)
  have ok: "fds_ok k" "fault k = (\<lambda>_. None)" using assms by (auto simp: waitable_def quiet_def lock_inv_def)
  have "\<not> others_exclusive k (lk_fd (p_lock p)) i"
    using others_exclusive_own [OF ok(1)] fd free by (simp add: mode_of_def)
  then show ?thesis
    using fd ok set_mode_same [OF ok(1) fd]
    by (simp add: FileLock_defs mapErr_def sys_flock_def map_of_set_mode)
qed

lemma wait_round:
  assumes "waitable (env n k) p" and "\<not> doneWaiting p"
  shows "waitExited (Suc f) n env p k =
    waitExited f (Suc n) env (podIn (actualState (env n k) (podName p)) p) (env n k)"
proof -
  obtain k1 where "FileLock_SharedLock (p_lock p) (env n k) = (k1, Inr ())"
    "FileLock_Unlock (p_lock p) k1 = (env n k, Inr ())"
    using shared_and_back [OF assms(1)] by blast
  moreover have "refreshState p (env n k) = (env n k, Inr (podIn (actualState (env n k) (podName p)) p))"
    using assms(1) by (intro refreshState_quiet) (auto simp: waitable_def split: option.splits)
  ultimately show ?thesis using assms(2) by (simp add: bindIO_def others_def)
qed

lemma wait_rounds:
  assumes "\<forall>j \<le> m. waitable (rounds env n k j) p" and "\<not> doneWaiting p"
    and "finalState (actualState (rounds env n k m) (podName p))"
  shows "\<exists>j \<le> m. waitExited (Suc m) n env p k =
      (rounds env n k j, Inr (Some (podIn (actualState (rounds env n k j) (podName p)) p))) \<and>
    finalState (actualState (rounds env n k j) (podName p)) \<and>
    (\<forall>i < j. \<not> finalState (actualState (rounds env n k i) (podName p)))"
  using assms
proof (induction m arbitrary: n k p)
  case 0
  then show ?case using wait_round [of env n k p 0] by (simp add: ret_def)
next
  case (Suc m)
  let ?p = "podIn (actualState (env n k) (podName p)) p"
  have first: "waitable (env n k) p" using Suc.prems(1) by (metis le0 rounds.simps(1))
  note round = wait_round [of env n k p, OF first Suc.prems(2), of "Suc m"]
  show ?case
  proof (cases "finalState (actualState (env n k) (podName p))")
    case True
    then show ?thesis using round by (intro exI [of _ 0]) (simp add: ret_def)
  next
    case False
    have "\<forall>j \<le> m. waitable (rounds env (Suc n) (env n k) j) ?p"
      using Suc.prems(1) by (metis Suc_le_mono rounds.simps(2) waitable_podIn)
    then obtain j where j: "j \<le> m" "waitExited (Suc m) (Suc n) env ?p (env n k) =
        (rounds env n k (Suc j), Inr (Some (podIn (actualState (rounds env n k (Suc j)) (podName p)) p)))"
      "finalState (actualState (rounds env n k (Suc j)) (podName p))"
      "\<forall>i < j. \<not> finalState (actualState (rounds env n k (Suc i)) (podName p))"
      using Suc.IH [of "Suc n" "env n k" ?p] Suc.prems(3) False by auto
    have "\<not> finalState (actualState (rounds env n k i) (podName p))" if "i < Suc j" for i
      using that False j(4) by (cases i) auto
    then show ?thesis using round j by (intro exI [of _ "Suc j"]) (simp del: waitExited.simps)
  qed
qed

text \<open>
  C29. Waiting for a pod to exit comes to an end: if in some round of the loop the pod has reached
  a state from which it will not run (exited, aborted, garbage or gone), and until then the
  waiting process can get the shared lock in each round, then \<^verbatim>\<open>waitExited\<close> returns, in the
  first such round, with the flags of that state, and has left the machine as the others made it.
\<close>

theorem waitExited_returns:
  assumes "\<forall>j \<le> m. waitable (rounds env 0 k j) p" and "\<not> doneWaiting p"
    and "finalState (actualState (rounds env 0 k m) (podName p))"
  shows "\<exists>j \<le> m. waitExited (Suc m) 0 env p k =
      (rounds env 0 k j, Inr (Some (podIn (actualState (rounds env 0 k j) (podName p)) p))) \<and>
    finalState (actualState (rounds env 0 k j) (podName p)) \<and>
    (\<forall>i < j. \<not> finalState (actualState (rounds env 0 k i) (podName p)))"
  using assms by (rule wait_rounds)

theorem waitExited_returns_witness:
  "\<exists>p. isRunning p \<and>
     waitExited 1 0 (\<lambda>n k. sampleKernel) p sampleKernel = (sampleKernel, Inr (Some (podIn Exited p)))"
proof -
  let ?p = "(zeroPod sampleUUID)\<lparr>p_lock := \<lparr>lk_path = (RunDir, UUID_String sampleUUID), lk_fd = 3\<rparr>\<rparr>"
  have p: "podName ?p = UUID_String sampleUUID" "lk_fd (p_lock ?p) = 3" by (simp_all add: zeroPod_def)
  have d: "descs sampleKernel = [(3, 1, Unlocked)]" by (simp add: sampleKernel_def)
  have w: "waitable sampleKernel ?p"
    using sample_quiet sample_location
    by (simp add: waitable_def p d ino_of_def mode_of_def exclLocked_def sample_lookup)
  have "\<not> doneWaiting ?p" by (simp add: doneWaiting_def zeroPod_def)
  moreover have "isRunning ?p" by (simp add: isRunning_def zeroPod_def)
  ultimately show ?thesis
    using waitExited_returns [of 0 "\<lambda>n k. sampleKernel" sampleKernel ?p] w sample_state p
    by (intro exI [of _ ?p]) (simp add: finalState_def del: waitExited.simps)
qed

end
