(* ===== verification/Go_Scan.thy ===== *)
theory Go_Scan
  imports Kernel
begin

text \<open>
  What the sources use of \<^verbatim>\<open>fmt.Sscanf\<close>: decimal numbers, signed into an \<^verbatim>\<open>int\<close> and unsigned into a
  \<^verbatim>\<open>uint32\<close>. A scan returns the number and what is left of the input.
\<close>

section \<open>Reading numbers\<close>

text \<open>\<^verbatim>\<open>fmt.Sscanf\<close> with \<^verbatim>\<open>%d\<close>: blanks, an optional sign and decimal digits; what follows is left.\<close>

definition isBlank :: "char \<Rightarrow> bool" where
  "isBlank c \<longleftrightarrow> of_char c \<in> {9 :: nat, 11, 12, 13, 32}"

fun skipSpace :: "string \<Rightarrow> goerr + string" where
  "skipSpace [] = Inr []"
| "skipSpace (c # s) =
     (if of_char c = (10 :: nat) then Inl (Msg ''unexpected newline'')
      else if of_char c = (13 :: nat) \<and> s \<noteq> [] \<and> of_char (hd s) = (10 :: nat) then Inl (Msg ''unexpected newline'')
      else if isBlank c then skipSpace s
      else Inr (c # s))"

definition scanInt :: "string \<Rightarrow> goerr + (int \<times> string)" where
  "scanInt s0 =
     (case skipSpace s0 of
        Inl e \<Rightarrow> Inl e
      | Inr s \<Rightarrow>
          if s = [] then Inl (Msg ''unexpected EOF'')
          else
            let neg = (hd s = CHR ''-'');
                s' = (if hd s = CHR ''-'' \<or> hd s = CHR ''+'' then tl s else s);
                ds = takeWhile isDigit s';
                rest = dropWhile isDigit s'
            in if ds = [] then Inl (Msg ''expected integer'')
               else if neg then
                 (if decVal ds \<le> 2 ^ 63 then Inr (- int (decVal ds), rest) else Inl (Msg ''integer overflow''))
               else (if decVal ds < 2 ^ 63 then Inr (int (decVal ds), rest) else Inl (Msg ''integer overflow'')))"

definition printInt :: "int \<Rightarrow> string" where
  "printInt i = (if i < 0 then ''-'' @ itoa (nat (- i)) else itoa (nat i))"

text \<open>
  \<^verbatim>\<open>%d\<close> into a \<^verbatim>\<open>uint32\<close> takes no sign; a number that has more than 32 bits is an error.
\<close>

definition scanUint32 :: "string \<Rightarrow> goerr + (nat \<times> string)" where
  "scanUint32 s0 =
     (case skipSpace s0 of
        Inl e \<Rightarrow> Inl e
      | Inr s \<Rightarrow>
          if s = [] then Inl (Msg ''unexpected EOF'')
          else
            let ds = takeWhile isDigit s in
            if ds = [] then Inl (Msg ''expected integer'')
            else if 2 ^ 32 \<le> decVal ds then Inl (Msg ''unsigned integer overflow'')
            else Inr (decVal ds, dropWhile isDigit s))"

section \<open>Scanning what was printed\<close>

lemma isDigit_not_blank: "isDigit c \<Longrightarrow> \<not> isBlank c \<and> of_char c \<noteq> (10 :: nat) \<and> of_char c \<noteq> (13 :: nat) \<and> c \<noteq> CHR ''-'' \<and> c \<noteq> CHR ''+''"
  by (auto simp: isDigit_def isBlank_def)

lemma skipSpace_word:
  "s \<noteq> [] \<Longrightarrow> isDigit (hd s) \<or> hd s = CHR ''-'' \<Longrightarrow> skipSpace s = Inr s"
  by (cases s) (auto simp: isBlank_def dest: isDigit_not_blank)

lemma digits_split:
  assumes "rest = [] \<or> \<not> isDigit (hd rest)"
  shows "takeWhile isDigit (itoa n @ rest) = itoa n" "dropWhile isDigit (itoa n @ rest) = rest"
  using itoa_digits [of n] assms
  by (cases rest; simp add: takeWhile_append dropWhile_append list_all_iff)+

lemma hd_itoa: "isDigit (hd (itoa n @ rest))"
  using itoa_digits [of n] by (cases "itoa n") (auto simp: list_all_iff)

lemma scanInt_printInt:
  assumes "- (2 ^ 63) \<le> i" and "i < 2 ^ 63" and "rest = [] \<or> \<not> isDigit (hd rest)"
  shows "scanInt (printInt i @ rest) = Inr (i, rest)"
proof (cases "i < 0")
  case True
  have "nat (- i) \<le> 2 ^ 63" using assms(1) by simp
  then show ?thesis
    using True digits_split [OF assms(3), of "nat (- i)"]
    by (simp add: scanInt_def printInt_def isBlank_def Let_def)
next
  case False
  have "nat i < 2 ^ 63" using assms(2) False by simp
  then show ?thesis
    using False digits_split [OF assms(3), of "nat i"] hd_itoa [of "nat i" rest]
    by (auto simp: scanInt_def printInt_def skipSpace_word Let_def dest: isDigit_not_blank)
qed

lemma scanUint32_itoa:
  assumes "n < 2 ^ 32" and "rest = [] \<or> \<not> isDigit (hd rest)"
  shows "scanUint32 (itoa n @ rest) = Inr (n, rest)"
  using assms(1) digits_split [OF assms(2), of n] hd_itoa [of n rest]
  by (simp add: scanUint32_def skipSpace_word Let_def)

lemma scanUint32_bound: "scanUint32 s = Inr (n, rest) \<Longrightarrow> n < 2 ^ 32"
  by (auto simp: scanUint32_def Let_def split: sum.splits if_splits)

end
