(* ===== verification/Appc_Names.thy ===== *)
theory Appc_Names
  imports Appc_Types
begin

text \<open>
  App container names and identifiers, \<^verbatim>\<open>schema/types/acname.go\<close> and \<^verbatim>\<open>acidentifier.go\<close> of the vendored
  \<^verbatim>\<open>appc/spec\<close>: when a string is one, and how a string is turned into one. The two types have the same
  code over different separators. Strings are taken to be ASCII.
\<close>

section \<open>Validity\<close>

definition isAlnum :: "char \<Rightarrow> bool" where
  "isAlnum c \<longleftrightarrow> (let n = of_char c :: nat in 97 \<le> n \<and> n \<le> 122 \<or> 48 \<le> n \<and> n \<le> 57)"

definition nameSeps :: string where "nameSeps = ''-''"

definition identifierSeps :: string where "identifierSeps = ''-._~/''"

text \<open>A match of \<^verbatim>\<open>[^a-z0-9-]\<close>, and one of \<^verbatim>\<open>(^[-]+)|([-]+$)\<close>.\<close>

definition invalidChars :: "string \<Rightarrow> string \<Rightarrow> bool" where
  "invalidChars seps s \<longleftrightarrow> list_ex (\<lambda>c. \<not> isAlnum c \<and> c \<notin> set seps) s"

definition invalidEdges :: "string \<Rightarrow> string \<Rightarrow> bool" where
  "invalidEdges seps s \<longleftrightarrow> s \<noteq> [] \<and> (hd s \<in> set seps \<or> last s \<in> set seps)"

definition assertValidName :: "string \<Rightarrow> string \<Rightarrow> string + unit" where
  "assertValidName seps s =
     (if length s = 0 then Inl ''cannot be empty''
      else if invalidChars seps s then Inl ''must contain only lower case alphanumeric characters''
      else if invalidEdges seps s then Inl ''must start and end with only lower case alphanumeric characters''
      else Inr ())"

definition NewACName :: "string \<Rightarrow> string + string" where
  "NewACName s = (case assertValidName nameSeps s of Inl e \<Rightarrow> Inl e | Inr _ \<Rightarrow> Inr s)"

definition NewACIdentifier :: "string \<Rightarrow> string + string" where
  "NewACIdentifier s = (case assertValidName identifierSeps s of Inl e \<Rightarrow> Inl e | Inr _ \<Rightarrow> Inr s)"

definition ACName_Equals :: "string \<Rightarrow> string \<Rightarrow> bool" where
  "ACName_Equals n m \<longleftrightarrow> toLower n = toLower m"

definition ACName_Empty :: "string \<Rightarrow> bool" where
  "ACName_Empty n \<longleftrightarrow> n = ''''"

section \<open>Suggestions\<close>

definition trimEdges :: "string \<Rightarrow> string \<Rightarrow> string" where
  "trimEdges seps s = rev (dropWhile (\<lambda>c. c \<in> set seps) (rev (dropWhile (\<lambda>c. c \<in> set seps) s)))"

definition sanitize :: "string \<Rightarrow> char \<Rightarrow> string \<Rightarrow> string + string" where
  "sanitize seps repl s =
     (let s1 = toLower s;
          s2 = map (\<lambda>c. if \<not> isAlnum c \<and> c \<notin> set seps then repl else c) s1;
          s3 = trimEdges seps s2
      in if s3 = '''' then Inl ''must contain at least one valid character'' else Inr s3)"

definition SanitizeACName :: "string \<Rightarrow> string + string" where
  "SanitizeACName = sanitize nameSeps CHR ''-''"

definition SanitizeACIdentifier :: "string \<Rightarrow> string + string" where
  "SanitizeACIdentifier = sanitize identifierSeps CHR ''_''"

section \<open>Facts\<close>

lemma assertValidName_iff:
  "assertValidName seps s = Inr () \<longleftrightarrow>
     s \<noteq> [] \<and> (\<forall>c \<in> set s. isAlnum c \<or> c \<in> set seps) \<and> hd s \<notin> set seps \<and> last s \<notin> set seps"
  by (auto simp: assertValidName_def invalidChars_def invalidEdges_def list_ex_iff)

lemma trimEdges_edges:
  assumes "trimEdges seps s \<noteq> []"
  shows "hd (trimEdges seps s) \<notin> set seps \<and> last (trimEdges seps s) \<notin> set seps \<and> set (trimEdges seps s) \<subseteq> set s"
proof -
  let ?P = "\<lambda>c. c \<in> set seps" and ?d = "dropWhile (\<lambda>c. c \<in> set seps)"
  obtain pre post where split: "rev (?d s) = pre @ ?d (rev (?d s))" "?d s = rev (?d (rev (?d s))) @ rev pre"
    by (metis rev_append rev_rev_ident takeWhile_dropWhile_id)
  have t: "trimEdges seps s = rev (?d (rev (?d s)))" by (simp add: trimEdges_def)
  then have "hd (trimEdges seps s) = hd (?d s)" using split(2) assms by (metis hd_append2)
  moreover have "?d s \<noteq> []" using assms t by (metis dropWhile.simps(1) rev.simps(1))
  ultimately have "hd (trimEdges seps s) \<notin> set seps" using hd_dropWhile [of ?P s] by simp
  moreover have "last (trimEdges seps s) \<notin> set seps"
    using assms hd_dropWhile [of ?P "rev (?d s)"] by (simp add: t last_rev)
  moreover have "set (trimEdges seps s) \<subseteq> set s"
    by (auto simp: t dest!: set_dropWhileD)
  ultimately show ?thesis by simp
qed

lemma sanitize_valid:
  assumes "sanitize seps repl s = Inr t" and "repl \<in> set seps"
  shows "assertValidName seps t = Inr ()"
proof -
  let ?s2 = "map (\<lambda>c. if \<not> isAlnum c \<and> c \<notin> set seps then repl else c) (toLower s)"
  have t: "t = trimEdges seps ?s2" "t \<noteq> []" using assms(1) by (auto simp: sanitize_def Let_def split: if_splits)
  have "hd t \<notin> set seps \<and> last t \<notin> set seps \<and> set t \<subseteq> set ?s2"
    using trimEdges_edges [of seps ?s2] t by metis
  moreover have "\<forall>c \<in> set ?s2. isAlnum c \<or> c \<in> set seps" using assms(2) by auto
  ultimately show ?thesis using t(2) unfolding assertValidName_iff by blast
qed

text \<open>
  What the two functions suggest is valid. The check accepts more than the regular expression that its comment names: two separators may stand next to
  each other.
\<close>

theorem sanitized_names_are_valid:
  "(case SanitizeACName s of Inl _ \<Rightarrow> True | Inr t \<Rightarrow> NewACName t = Inr t) \<and>
   (case SanitizeACIdentifier s of Inl _ \<Rightarrow> True | Inr t \<Rightarrow> NewACIdentifier t = Inr t) \<and>
   NewACName ''a--b'' = Inr ''a--b''"
proof -
  have "NewACName t = Inr t" if "SanitizeACName s = Inr t" for t
    using sanitize_valid [of nameSeps "CHR ''-''" s t] that by (simp add: SanitizeACName_def NewACName_def nameSeps_def)
  moreover have "NewACIdentifier t = Inr t" if "SanitizeACIdentifier s = Inr t" for t
    using sanitize_valid [of identifierSeps "CHR ''_''" s t] that by (simp add: SanitizeACIdentifier_def NewACIdentifier_def identifierSeps_def)
  moreover have "NewACName ''a--b'' = Inr ''a--b''" by code_simp
  ultimately show ?thesis by (simp split: sum.split)
qed

end
