(* ===== verification/Appc_Schema.thy ===== *)
theory Appc_Schema
  imports Appc_Names
begin

text \<open>
  The parts of the appc schema that the runtime reads: annotations, labels, dependencies, image
  manifests and pod manifests.
\<close>

record Annotation =
  a_Name :: string
  a_Value :: string

fun Annotations_Get :: "Annotation list \<Rightarrow> string \<Rightarrow> string option" where
  "Annotations_Get [] name = None"
| "Annotations_Get (anno # as) name = (if a_Name anno = name then Some (a_Value anno) else Annotations_Get as name)"

text \<open>The first annotation of that name, up to case, is overwritten; otherwise one is appended.\<close>

fun Annotations_Set :: "Annotation list \<Rightarrow> string \<Rightarrow> string \<Rightarrow> Annotation list" where
  "Annotations_Set [] name v = [\<lparr>a_Name = name, a_Value = v\<rparr>]"
| "Annotations_Set (anno # as) name v =
     (if ACName_Equals (a_Name anno) name then \<lparr>a_Name = name, a_Value = v\<rparr> # as else anno # Annotations_Set as name v)"

record Label =
  l_Name :: string
  l_Value :: string

record Dependency =
  ImageName :: string
  ImageID :: "Hash option"
  dep_Labels :: "Label list"

record ImageManifest =
  im_Name :: string
  im_Labels :: "Label list"
  im_Dependencies :: "Dependency list"
  im_PathWhitelist :: "string list"
  im_Annotations :: "Annotation list"

record RuntimeApp =
  ra_name :: string
  ra_image :: Hash
  ra_Annotations :: "Annotation list"

record PodManifest =
  pm_Apps :: "RuntimeApp list"
  pm_Annotations :: "Annotation list"

fun AppList_Get :: "RuntimeApp list \<Rightarrow> string \<Rightarrow> RuntimeApp option" where
  "AppList_Get [] name = None"
| "AppList_Get (a # al) name = (if ACName_Equals name (ra_name a) then Some a else AppList_Get al name)"

fun Labels_Get :: "Label list \<Rightarrow> string \<Rightarrow> string option" where
  "Labels_Get [] name = None"
| "Labels_Get (lbl # ls) name = (if l_Name lbl = name then Some (l_Value lbl) else Labels_Get ls name)"

lemma Labels_Get_iff: "Labels_Get ls name \<noteq> None \<longleftrightarrow> (\<exists>l \<in> set ls. l_Name l = name)"
  by (induction ls) auto

text \<open>\<^verbatim>\<open>Labels.assertValid\<close>: no label called \<^verbatim>\<open>name\<close>, no duplicates, and a known system and architecture.\<close>

definition ValidOSArch :: "string \<Rightarrow> string list option" where
  "ValidOSArch = [''linux'' \<mapsto> [''amd64'', ''i386'', ''aarch64'', ''aarch64_be'', ''armv6l'', ''armv7l'', ''armv7b''],
     ''freebsd'' \<mapsto> [''amd64'', ''i386'', ''arm''], ''darwin'' \<mapsto> [''x86_64'', ''i386'']]"

fun seenLabels :: "Label list \<Rightarrow> (string \<Rightarrow> string option) \<Rightarrow> string + (string \<Rightarrow> string option)" where
  "seenLabels [] seen = Inr seen"
| "seenLabels (lbl # ls) seen =
     (if l_Name lbl = ''name'' then Inl ''invalid label name: \"name\"''
      else if seen (l_Name lbl) \<noteq> None then Inl (''duplicate labels of name '' @ l_Name lbl)
      else seenLabels ls (seen(l_Name lbl \<mapsto> l_Value lbl)))"

definition Labels_assertValid :: "Label list \<Rightarrow> string + unit" where
  "Labels_assertValid l =
     (case seenLabels l Map.empty of
        Inl e \<Rightarrow> Inl e
      | Inr seen \<Rightarrow>
          (case seen ''os'' of
             None \<Rightarrow> Inr ()
           | Some os \<Rightarrow>
               (case ValidOSArch os of
                  None \<Rightarrow> Inl (''bad os '' @ os)
                | Some validArchs \<Rightarrow>
                    (case seen ''arch'' of
                       None \<Rightarrow> Inr ()
                     | Some arch \<Rightarrow> if arch \<in> set validArchs then Inr () else Inl (''bad arch '' @ arch @ '' for '' @ os)))))"

lemma seenLabels_ok:
  "seenLabels ls seen = Inr seen' \<Longrightarrow>
     distinct (map l_Name ls) \<and> (\<forall>l \<in> set ls. l_Name l \<noteq> ''name'' \<and> seen (l_Name l) = None)"
proof (induction ls arbitrary: seen)
  case (Cons a ls)
  then have "seenLabels ls (seen(l_Name a \<mapsto> l_Value a)) = Inr seen'" "l_Name a \<noteq> ''name''" "seen (l_Name a) = None"
    by (auto split: if_splits)
  then show ?case using Cons.IH by (fastforce split: if_splits)
qed simp

text \<open>Labels that pass the check have one value per name, the one \<^verbatim>\<open>Get\<close> returns.\<close>

lemma Labels_valid_distinct: "Labels_assertValid ls = Inr () \<Longrightarrow> distinct (map l_Name ls)"
  by (auto simp: Labels_assertValid_def split: sum.splits dest!: seenLabels_ok)

lemma Labels_valid_Get:
  assumes "Labels_assertValid ls = Inr ()" and "l \<in> set ls"
  shows "Labels_Get ls (l_Name l) = Some (l_Value l)"
  using Labels_valid_distinct [OF assms(1)] assms(2) by (induction ls) (auto simp: image_iff)

end
