(* ===== verification/Pod_Files.thy ===== *)
theory Pod_Files
  imports Pods Go_Scan Appc_Schema
begin

text \<open>
  The queries of \<^verbatim>\<open>rkt/pods.go\<close> on the files of a pod: its pid, the images it uses and the exit
  statuses of its apps. The JSON decoder is a parameter; a snapshot of \<^verbatim>\<open>/proc\<close> is another.
\<close>

section \<open>Files of a pod\<close>

definition readFile :: "pod \<Rightarrow> string \<Rightarrow> string podio" where
  "readFile p f =
     (case FileLock_Fd (p_lock p) of
        Inl e \<Rightarrow> fail e
      | Inr cdirfd \<Rightarrow> mapErr Errno (sys_readat cdirfd f))"

definition readIntFromFile :: "pod \<Rightarrow> string \<Rightarrow> int podio" where
  "readIntFromFile p f =
     bindIO (readFile p f) (\<lambda>b.
     case scanInt b of Inl e \<Rightarrow> fail e | Inr (i, _) \<Rightarrow> ret i)"

text \<open>A snapshot of \<^verbatim>\<open>/proc\<close>: whether \<^verbatim>\<open>children\<close> files exist, their contents, and the stat files.\<close>

record procfs =
  hasChildren :: bool
  childrenFile :: "int \<Rightarrow> string option"
  procEntries :: "goerr + string list"
  statFile :: "int \<Rightarrow> string option"

datatype childErr = ChildNotReady | ChildErr goerr

fun splitN :: "nat \<Rightarrow> char \<Rightarrow> string \<Rightarrow> string list" where
  "splitN 0 c s = []"
| "splitN (Suc 0) c s = [s]"
| "splitN (Suc (Suc n)) c s =
     (case splitN2 c s of [a, b] \<Rightarrow> a # splitN (Suc n) c b | _ \<Rightarrow> [s])"

fun scanStats :: "procfs \<Rightarrow> int \<Rightarrow> string list \<Rightarrow> childErr + int" where
  "scanStats pr ppid [] = Inl ChildNotReady"
| "scanStats pr ppid (n # ns) =
     (case atoi n of
        None \<Rightarrow> scanStats pr ppid ns
      | Some pid64 \<Rightarrow>
          (case statFile pr pid64 of
             None \<Rightarrow> scanStats pr ppid ns
           | Some b \<Rightarrow>
               let statFields = splitN 5 CHR '' '' b in
               if length statFields \<noteq> 5
               then Inl (ChildErr (Msg (''incomplete file /proc/'' @ printInt pid64 @ ''/stat'')))
               else if statFields ! 3 = printInt ppid then Inr pid64
               else scanStats pr ppid ns))"

definition getChildPID :: "procfs \<Rightarrow> int \<Rightarrow> childErr + int" where
  "getChildPID pr ppid =
     (if hasChildren pr then
        (case childrenFile pr ppid of
           None \<Rightarrow> Inl ChildNotReady
         | Some b \<Rightarrow>
             let children = splitN2 CHR '' '' b in
             if length children = 2 \<and> children ! 1 \<noteq> '''' then
               Inl (ChildErr (Msg (''too many children of pid '' @ printInt ppid)))
             else
               (case scanInt (children ! 0) of
                  Inl _ \<Rightarrow> Inl ChildNotReady
                | Inr (pid, rest) \<Rightarrow> if rest = [] \<or> isBlank (hd rest) then Inr pid else Inl ChildNotReady))
      else
        (case procEntries pr of
           Inl e \<Rightarrow> Inl (ChildErr e)
         | Inr ns \<Rightarrow> scanStats pr ppid ns))"

text \<open>
  The loop that waits for the pid. \<open>env n\<close> and \<open>proc n\<close> are what the other processes do during the
  \<open>n\<close>-th nap and the state of \<^verbatim>\<open>/proc\<close> before it; \<open>None\<close> is a loop still going after \<open>fuel\<close> rounds. The
  result is the pod with its refreshed state and the pair of pid and error of the source.
\<close>

fun getPID :: "nat \<Rightarrow> nat \<Rightarrow> (nat \<Rightarrow> phase kernel \<Rightarrow> phase kernel) \<Rightarrow> (nat \<Rightarrow> procfs) \<Rightarrow> pod \<Rightarrow>
    (pod \<times> int \<times> goerr option) option podio" where
  "getPID 0 n env proc p = ret None"
| "getPID (Suc fuel) n env proc p =
     (let wait = (\<lambda>err.
            bindIO (others (env n)) (\<lambda>_.
            tryIO (refreshState p) (\<lambda>r.
            case r of
              Inl e \<Rightarrow> ret (Some (p, -1, Some e))
            | Inr p' \<Rightarrow>
                if \<not> (case err of None \<Rightarrow> False | Some e \<Rightarrow> osIsNotExist e) \<or> \<not> isRunning p'
                then ret (Some (p', -1, err))
                else getPID fuel (Suc n) env proc p')))
      in tryIO (readIntFromFile p ''pid'') (\<lambda>r.
         case r of
           Inr pid \<Rightarrow> ret (Some (p, pid, None))
         | Inl _ \<Rightarrow>
             tryIO (readIntFromFile p ''ppid'') (\<lambda>r.
             case r of
               Inl e \<Rightarrow> wait (Some e)
             | Inr ppid \<Rightarrow>
                 (case getChildPID (proc n) ppid of
                    Inr pid \<Rightarrow> ret (Some (p, pid, None))
                  | Inl ChildNotReady \<Rightarrow> wait None
                  | Inl (ChildErr e) \<Rightarrow> ret (Some (p, -1, Some e))))))"

section \<open>Images and statuses\<close>

type_synonym decodePod = "string \<Rightarrow> goerr + RuntimeApp list"

definition getStage1Hash :: "pod \<Rightarrow> Hash podio" where
  "getStage1Hash p =
     bindIO (readFile p ''stage1ID'') (\<lambda>b.
     case NewHash b of Inl e \<Rightarrow> fail (Msg e) | Inr h \<Rightarrow> ret h)"

definition getApps :: "decodePod \<Rightarrow> pod \<Rightarrow> RuntimeApp list podio" where
  "getApps decode p =
     bindIO (readFile p ''pod'') (\<lambda>pmb.
     case decode pmb of Inl e \<Rightarrow> fail e | Inr apps \<Rightarrow> ret apps)"

definition getAppsHashes :: "decodePod \<Rightarrow> pod \<Rightarrow> Hash list podio" where
  "getAppsHashes decode p = bindIO (getApps decode p) (\<lambda>apps. ret (map ra_image apps))"

definition getDirNames :: "pod \<Rightarrow> string \<Rightarrow> string list podio" where
  "getDirNames p f =
     mapErr (Wrap ''unable to open directory: '')
       (case FileLock_Fd (p_lock p) of
          Inl e \<Rightarrow> fail e
        | Inr cdirfd \<Rightarrow> mapErr Errno (sys_readdirat cdirfd f))"

definition getAppCount :: "decodePod \<Rightarrow> pod \<Rightarrow> int podio" where
  "getAppCount decode p =
     bindIO (guardIO (isPrepared p) (Msg ''error: only prepared pods can get their app count'')) (\<lambda>_.
     bindIO (mapErr (Wrap ''error reading pod manifest: '')
       (case path p of
          None \<Rightarrow> fail (PathError ENOENT)
        | Some (d, n) \<Rightarrow> mapErr PathError (sys_readfile d n ''pod''))) (\<lambda>b.
     case decode b of
       Inl e \<Rightarrow> fail (Wrap ''unable to load manifest: '' e)
     | Inr apps \<Rightarrow> ret (int (length apps))))"

definition usesOverlay :: "pod \<Rightarrow> bool podio" where
  "usesOverlay p = tryIO (readFile p ''overlay-prepared'') (\<lambda>r. ret (case r of Inl _ \<Rightarrow> False | Inr _ \<Rightarrow> True))"

definition regularStatusDir :: string where
  "regularStatusDir = ''stage1/rootfs/rkt/status''"

definition overlayStatusDir :: "string \<Rightarrow> string" where
  "overlayStatusDir h = ''overlay/'' @ h @ ''/upper/rkt/status''"

definition getStatusDir :: "pod \<Rightarrow> string podio" where
  "getStatusDir p =
     bindIO (usesOverlay p) (\<lambda>b.
     if b then bindIO (getStage1Hash p) (\<lambda>h. ret (overlayStatusDir (Hash_String h)))
     else ret regularStatusDir)"

fun readStatuses :: "pod \<Rightarrow> string \<Rightarrow> string list \<Rightarrow> (string \<Rightarrow> int option) \<Rightarrow> (string \<Rightarrow> int option) podio" where
  "readStatuses p dir [] stats = ret stats"
| "readStatuses p dir (n # ns) stats =
     tryIO (readIntFromFile p (dir @ ''/'' @ n)) (\<lambda>r.
     case r of
       Inl _ \<Rightarrow> readStatuses p dir ns stats
     | Inr s \<Rightarrow> readStatuses p dir ns (stats(n \<mapsto> s)))"

definition getExitStatuses :: "pod \<Rightarrow> (string \<Rightarrow> int option) podio" where
  "getExitStatuses p =
     bindIO (mapErr (Wrap ''unable to get status directory: '') (getStatusDir p)) (\<lambda>dir.
     bindIO (mapErr (Wrap ''unable to read status directory: '') (getDirNames p dir)) (\<lambda>ls.
     readStatuses p dir ls Map.empty))"

definition podSync :: "pod \<Rightarrow> unit podio" where
  "podSync p =
     (case FileLock_Fd (p_lock p) of
        Inl e \<Rightarrow> fail (Wrap (''error acquiring pod dir fd: '' @ podName p) e)
      | Inr cfd \<Rightarrow> mapErr (\<lambda>e. Wrap (''failed to sync pod data: '' @ podName p) (Errno e)) (sys_syncfs cfd))"

section \<open>Reading changes nothing\<close>

text \<open>An operation that leaves the machine as it is.\<close>

definition readOnly :: "('s, 'e, 'a) io \<Rightarrow> bool" where
  "readOnly m \<longleftrightarrow> (\<forall>k. fst (m k) = k)"

lemma readOnly_bind [intro]: "readOnly m \<Longrightarrow> (\<And>a. readOnly (f a)) \<Longrightarrow> readOnly (bindIO m f)"
  unfolding readOnly_def by (auto simp: bindIO_def split: prod.splits sum.splits) (metis fst_conv)+

lemma readOnly_try [intro]: "readOnly m \<Longrightarrow> (\<And>a. readOnly (f a)) \<Longrightarrow> readOnly (tryIO m f)"
  unfolding readOnly_def by (auto simp: tryIO_def split: prod.splits sum.splits stop.splits) (metis fst_conv)+

lemma readOnly_ret [intro, simp]: "readOnly (ret a)" "readOnly (stop e)"
  by (simp_all add: readOnly_def ret_def stop_def)

lemma readOnly_guard [intro, simp]: "readOnly (guardIO b e)"
  by (simp add: guardIO_def)

lemma readOnly_mapErr [intro]: "readOnly m \<Longrightarrow> readOnly (mapErr f m)"
  by (simp add: readOnly_def mapErr_state)

lemma readOnly_readFile [simp]: "readOnly (readFile p f)"
  by (auto simp: readFile_def readOnly_def mapErr_state sys_readat_def stop_def split: sum.splits option.splits)

lemma readOnly_readInt [simp]: "readOnly (readIntFromFile p f)"
  unfolding readIntFromFile_def by (rule readOnly_bind) (auto split: sum.splits)

lemma readOnly_getDirNames [simp]: "readOnly (getDirNames p f)"
  unfolding getDirNames_def
  by (intro readOnly_mapErr) (auto simp: readOnly_def mapErr_state sys_readdirat_def stop_def split: sum.splits option.splits)

lemma readOnly_usesOverlay [simp]: "readOnly (usesOverlay p)"
  unfolding usesOverlay_def by (rule readOnly_try) auto

lemma readOnly_getStage1Hash [simp]: "readOnly (getStage1Hash p)"
  unfolding getStage1Hash_def by (rule readOnly_bind) (auto split: sum.splits)

lemma readOnly_getApps [simp]: "readOnly (getApps decode p)"
  unfolding getApps_def by (rule readOnly_bind) (auto split: sum.splits)

lemma readOnly_readStatuses [simp]: "readOnly (readStatuses p dir ns stats)"
  by (induction ns arbitrary: stats) (auto split: sum.splits)

lemma readOnly_getExitStatuses [simp]: "readOnly (getExitStatuses p)"
  unfolding getExitStatuses_def getStatusDir_def by (intro readOnly_bind readOnly_mapErr) auto

section \<open>Numbers and pids\<close>

text \<open>The file of a pod as the machine has it, when it can be opened.\<close>

definition fileOf :: "phase kernel \<Rightarrow> pod \<Rightarrow> string \<Rightarrow> string option" where
  "fileOf k p f =
     (case map_of (descs k) (lk_fd (p_lock p)) of
        None \<Rightarrow> None
      | Some (i, m) \<Rightarrow> if lk_fd (p_lock p) = -1 \<or> fault k (FOpenAt i f) \<noteq> None then None else map_of (files k i) f)"

lemma readFile_fileOf: "fileOf k p f = Some c \<Longrightarrow> readFile p f k = (k, Inr c)"
  by (auto simp: fileOf_def readFile_def FileLock_Fd_def mapErr_def sys_readat_def split: option.splits if_splits)

text \<open>
  A number that was written to a file of a pod in decimal, as stage1 writes the pid and the
  exit statuses, is read back, for every value of a 64-bit integer, whatever line end follows it.
\<close>

theorem readInt_roundtrip:
  assumes "fileOf k p f = Some (printInt i @ rest)" and "- (2 ^ 63) \<le> i" and "i < 2 ^ 63"
    and "rest = [] \<or> \<not> isDigit (hd rest)"
  shows "readIntFromFile p f k = (k, Inr i)"
  by (simp add: readIntFromFile_def bindIO_def readFile_fileOf [OF assms(1)] scanInt_printInt [OF assms(2-4)] ret_def)

definition fileKernel :: "(string \<times> string) list \<Rightarrow> phase kernel" where
  "fileKernel fs = sampleKernel\<lparr>files := \<lambda>_. fs\<rparr>"

definition filePod :: pod where
  "filePod = (zeroPod sampleUUID)\<lparr>p_lock := \<lparr>lk_path = (RunDir, UUID_String sampleUUID), lk_fd = 3\<rparr>\<rparr>"

lemma fileOf_sample: "fileOf (fileKernel fs) filePod f = map_of fs f"
  by (simp add: fileOf_def fileKernel_def filePod_def sampleKernel_def init_kernel_def)

theorem readInt_roundtrip_witness:
  "readIntFromFile filePod ''pid'' (fileKernel [(''pid'', printInt 4711 @ [CHR 0x0A])]) =
     (fileKernel [(''pid'', printInt 4711 @ [CHR 0x0A])], Inr 4711)"
  by (rule readInt_roundtrip [where rest = "[CHR 0x0A]"]) (simp_all add: fileOf_sample isDigit_def)

text \<open>
  While stage1 has written the pid of its parent but has no child yet, \<^verbatim>\<open>getPID\<close> does not
  wait: it gives up in the first round, with pid -1 and no error, as soon as the state could be
  refreshed.
\<close>

theorem getPID_child_not_ready:
  assumes "fileOf k p ''pid'' = None" and "\<exists>i m. map_of (descs k) (lk_fd (p_lock p)) = Some (i, m)"
    and "fileOf k p ''ppid'' = Some (printInt ppid)" and "0 \<le> ppid" and "ppid < 2 ^ 63"
    and "getChildPID (proc n) ppid = Inl ChildNotReady"
    and "refreshState p (env n k) = (k', Inr p')"
  shows "getPID (Suc fuel) n env proc p k = (k', Inr (Some (p', -1, None)))"
proof -
  have pid: "\<exists>e. readIntFromFile p ''pid'' k = (k, Inl (Fail e))"
    using assms(1,2)
    by (auto simp: fileOf_def readIntFromFile_def readFile_def FileLock_Fd_def mapErr_def sys_readat_def bindIO_def stop_def
        split: option.splits if_splits)
  have ppid: "readIntFromFile p ''ppid'' k = (k, Inr ppid)"
    using scanInt_printInt [of ppid "[]"] assms(4,5)
    by (simp add: readIntFromFile_def bindIO_def readFile_fileOf [OF assms(3)] ret_def)
  show ?thesis
    using pid ppid assms(6,7) by (auto simp: tryIO_def bindIO_def others_def ret_def)
qed

theorem getPID_child_not_ready_witness:
  "case getPID 1 0 (\<lambda>n k. k) (\<lambda>n. \<lparr>hasChildren = True, childrenFile = \<lambda>_. None, procEntries = Inr [], statFile = \<lambda>_. None\<rparr>)
     filePod (fileKernel [(''ppid'', printInt 7)]) of
     (k', Inr (Some (p', pid, err))) \<Rightarrow> pid = -1 \<and> err = None
   | _ \<Rightarrow> False"
proof -
  let ?k = "fileKernel [(''ppid'', printInt 7)]"
  let ?pr = "\<lparr>hasChildren = True, childrenFile = \<lambda>_. None, procEntries = Inr [], statFile = \<lambda>_. None\<rparr>"
  have q: "quiet ?k (podName filePod)"
    using sample_quiet [of "podName filePod"] by (simp add: quiet_def fileKernel_def lookup_def lock_inv_def fds_ok_def excl_ok_def)
  have sample: "lookup ?k = lookup sampleKernel" "descs ?k = [(3, 1, Unlocked)]" "lk_fd (p_lock filePod) = 3"
    "podName filePod = UUID_String sampleUUID"
    by (simp_all add: fileKernel_def sampleKernel_def lookup_def filePod_def zeroPod_def fun_eq_iff)
  have "ino_of ?k (lk_fd (p_lock filePod)) = lookup ?k d (podName filePod)"
    if "location ?k (podName filePod) = Some d" for d
    using that sample_location sample by (simp add: location_def ino_of_def sample_lookup)
  moreover have "mode_of ?k (lk_fd (p_lock filePod)) = Unlocked" using sample by (simp add: mode_of_def)
  ultimately obtain p' where "refreshState filePod ?k = (?k, Inr p')"
    using refreshState_quiet [OF q] by blast
  then have "getPID (Suc 0) 0 (\<lambda>n k. k) (\<lambda>n. ?pr) filePod ?k = (?k, Inr (Some (p', -1, None)))"
    by (intro getPID_child_not_ready [where ppid = 7]) (simp_all add: fileOf_sample getChildPID_def sample(2,3))
  then show ?thesis by (simp del: getPID.simps)
qed

end
