(* ===== verification/Pod_GC.thy ===== *)
theory Pod_GC
  imports Pod_Transitions Pod_Files
begin

text \<open>
  The commands that dispose of pods: \<^verbatim>\<open>rkt gc\<close> (\<^verbatim>\<open>rkt/gc.go\<close>) and \<^verbatim>\<open>rkt rm\<close> (\<^verbatim>\<open>rkt/rm.go\<close>), and the
  resolution of abbreviated UUIDs (\<^verbatim>\<open>rkt/uuid.go\<close>). The store, the garbage collector of stage1
  (another program) and \<^verbatim>\<open>umount(2)\<close> are parameters that report an error or none; printed messages
  are left out.
\<close>

section \<open>Deleting a pod\<close>

record gcEnv =
  newStore :: "goerr option"
  stage1GC :: "pod \<Rightarrow> goerr option"
  unmount :: "string \<Rightarrow> errno option"
  decodeManifest :: decodePod
  decodeNets :: "string \<Rightarrow> goerr + NetInfo list"

text \<open>Undo what stage1 set up; the result says whether to go on and remove the directory.\<close>

definition cleanupExited :: "gcEnv \<Rightarrow> pod \<Rightarrow> bool podio" where
  "cleanupExited ge p =
     (case newStore ge of
        Some _ \<Rightarrow> ret False
      | None \<Rightarrow>
          tryIO (getStage1Hash p) (\<lambda>r.
          case r of
            Inl _ \<Rightarrow> ret False
          | Inr stage1ID \<Rightarrow>
              (case stage1GC ge p of
                 Some _ \<Rightarrow> ret False
               | None \<Rightarrow>
                   bindIO (usesOverlay p) (\<lambda>b.
                   if \<not> b then ret True
                   else tryIO (getApps (decodeManifest ge) p) (\<lambda>r.
                        case r of
                          Inl _ \<Rightarrow> ret False
                        | Inr apps \<Rightarrow>
                            (case unmount ge ''stage1/rootfs'' of
                               None \<Rightarrow> ret True
                             | Some e \<Rightarrow> ret (\<not> (e \<noteq> ENOENT \<and> e \<noteq> EINVAL))))))))"

definition removeDir :: "(phase \<times> string) option \<Rightarrow> unit podio" where
  "removeDir pa = (case pa of None \<Rightarrow> ret () | Some (d, n) \<Rightarrow> mapErr PathError (sys_removeall d n))"

definition deletePod :: "gcEnv \<Rightarrow> pod \<Rightarrow> unit podio" where
  "deletePod ge p =
     (if \<not> isExitedGarbage p \<and> \<not> isGarbage p
      then panic ''logic error: deletePod called with non-garbage pod''
      else bindIO (if isExitedGarbage p then cleanupExited ge p else ret True) (\<lambda>go.
           if go then tryIO (removeDir (path p)) (\<lambda>_. ret ()) else ret ()))"

section \<open>Garbage collection\<close>

text \<open>The change time of a pod's directory; a pod without a directory has none.\<close>

definition lstatCtime :: "pod \<Rightarrow> int podio" where
  "lstatCtime p =
     (case path p of None \<Rightarrow> fail (Errno ENOENT) | Some (d, n) \<Rightarrow> mapErr Errno (sys_lstat_ctime d n))"

definition now :: "int podio" where
  "now k = (k, Inr (clock k))"

text \<open>A transition whose error is only reported.\<close>

definition reporting :: "pod \<Rightarrow> pod podio \<Rightarrow> (pod \<times> unit) podio" where
  "reporting p m = tryIO m (\<lambda>r. case r of Inl _ \<Rightarrow> ret (p, ()) | Inr p' \<Rightarrow> ret (p', ()))"

definition renameExitedCb :: "pod \<Rightarrow> unit \<Rightarrow> (pod \<times> unit) podio" where
  "renameExitedCb p u = (if isExited p then reporting p (xToExitedGarbage p) else ret (p, ()))"

definition renameAbortedCb :: "pod \<Rightarrow> unit \<Rightarrow> (pod \<times> unit) podio" where
  "renameAbortedCb p u = (if isAbortedPrepare p then reporting p (xToGarbage p) else ret (p, ()))"

definition renameExpiredCb :: "int \<Rightarrow> pod \<Rightarrow> unit \<Rightarrow> (pod \<times> unit) podio" where
  "renameExpiredCb preparedExpiration p u =
     tryIO (lstatCtime p) (\<lambda>r.
     case r of
       Inl _ \<Rightarrow> ret (p, ())
     | Inr ctim \<Rightarrow>
         bindIO now (\<lambda>t.
         if t > ctim + preparedExpiration then reporting p (xToGarbage p) else ret (p, ())))"

definition lockAndDelete :: "gcEnv \<Rightarrow> pod \<Rightarrow> (pod \<times> unit) podio" where
  "lockAndDelete ge p =
     tryIO (FileLock_ExclusiveLock (p_lock p)) (\<lambda>r.
     case r of
       Inl _ \<Rightarrow> ret (p, ())
     | Inr _ \<Rightarrow> bindIO (deletePod ge p) (\<lambda>_. ret (p, ())))"

definition emptyExitedGarbageCb :: "gcEnv \<Rightarrow> int \<Rightarrow> pod \<Rightarrow> unit \<Rightarrow> (pod \<times> unit) podio" where
  "emptyExitedGarbageCb ge gracePeriod p u =
     tryIO (lstatCtime p) (\<lambda>r.
     case r of
       Inl _ \<Rightarrow> ret (p, ())
     | Inr ctim \<Rightarrow>
         bindIO now (\<lambda>t.
         if t > ctim + gracePeriod then lockAndDelete ge p else ret (p, ())))"

definition emptyGarbageCb :: "gcEnv \<Rightarrow> pod \<Rightarrow> unit \<Rightarrow> (pod \<times> unit) podio" where
  "emptyGarbageCb ge p u = lockAndDelete ge p"

definition renameExited :: "gcEnv \<Rightarrow> bool \<Rightarrow> unit podio" where
  "renameExited ge inited = walkPods (decodeNets ge) inited includeRunDir renameExitedCb ()"

definition renameAborted :: "gcEnv \<Rightarrow> bool \<Rightarrow> unit podio" where
  "renameAborted ge inited = walkPods (decodeNets ge) inited includePrepareDir renameAbortedCb ()"

definition renameExpired :: "gcEnv \<Rightarrow> bool \<Rightarrow> int \<Rightarrow> unit podio" where
  "renameExpired ge inited preparedExpiration =
     walkPods (decodeNets ge) inited includePreparedDir (renameExpiredCb preparedExpiration) ()"

definition emptyExitedGarbage :: "gcEnv \<Rightarrow> bool \<Rightarrow> int \<Rightarrow> unit podio" where
  "emptyExitedGarbage ge inited gracePeriod =
     walkPods (decodeNets ge) inited includeExitedGarbageDir (emptyExitedGarbageCb ge gracePeriod) ()"

definition emptyGarbage :: "gcEnv \<Rightarrow> bool \<Rightarrow> unit podio" where
  "emptyGarbage ge inited = walkPods (decodeNets ge) inited includeGarbageDir (emptyGarbageCb ge) ()"

text \<open>The exit code of the command: the first step that fails ends it with 1.\<close>

definition orExit :: "unit podio \<Rightarrow> int podio \<Rightarrow> int podio" where
  "orExit m next = tryIO m (\<lambda>r. case r of Inl _ \<Rightarrow> ret 1 | Inr _ \<Rightarrow> next)"

definition runGC :: "gcEnv \<Rightarrow> int \<Rightarrow> int \<Rightarrow> int podio" where
  "runGC ge gracePeriod preparedExpiration =
     orExit (renameExited ge False)
    (orExit (renameAborted ge True)
    (orExit (renameExpired ge True preparedExpiration)
    (orExit (emptyExitedGarbage ge True gracePeriod)
    (orExit (emptyGarbage ge True) (ret 0)))))"

section \<open>Resolving a UUID and removing pods by name\<close>

definition matchUUID :: "string \<Rightarrow> string list podio" where
  "matchUUID uuid =
     bindIO (listPods (includePrepareDir OR includePreparedDir OR includeRunDir OR includeExitedGarbageDir)) (\<lambda>ls.
     ret (filter (\<lambda>p. hasPrefix p uuid) ls))"

definition resolveUUID :: "string \<Rightarrow> UUID podio" where
  "resolveUUID uuid0 =
     (let uuid = toLower uuid0 in
      bindIO (matchUUID uuid) (\<lambda>m.
      if length m = 0 then fail (Msg (''no matches found for '' @ uuid))
      else if length m > 1 then fail (Msg (''ambiguous uuid, '' @ itoa (length m) @ '' matches''))
      else case NewUUID (m ! 0) of
             Inl e \<Rightarrow> fail (Msg (''invalid UUID: '' @ e))
           | Inr u \<Rightarrow> ret u))"

text \<open>The UUID file, whose contents are a parameter.\<close>

definition readUUIDFromFile :: "goerr + string \<Rightarrow> goerr + UUID" where
  "readUUIDFromFile contents =
     (case contents of
        Inl e \<Rightarrow> Inl e
      | Inr b \<Rightarrow> (case NewUUID (trimSpace b) of Inl e \<Rightarrow> Inl (Msg e) | Inr u \<Rightarrow> Inr u))"

definition writeUUIDToFile :: "UUID \<Rightarrow> string" where
  "writeUUIDToFile u = UUID_String u"

text \<open>\<^verbatim>\<open>err != os.ErrNotExist\<close> compares with the sentinel.\<close>

definition moveOr :: "pod podio \<Rightarrow> pod \<Rightarrow> (pod \<Rightarrow> bool podio) \<Rightarrow> bool podio" where
  "moveOr m p go =
     tryIO m (\<lambda>r.
     case r of
       Inl e \<Rightarrow> if e \<noteq> OsErrNotExist then ret False else go p
     | Inr p' \<Rightarrow> go p')"

definition finishRemove :: "gcEnv \<Rightarrow> pod \<Rightarrow> bool podio" where
  "finishRemove ge p =
     tryIO (FileLock_ExclusiveLock (p_lock p)) (\<lambda>r.
     case r of
       Inl _ \<Rightarrow> ret False
     | Inr _ \<Rightarrow> bindIO (deletePod ge p) (\<lambda>_. ret True))"

definition removePod :: "gcEnv \<Rightarrow> pod \<Rightarrow> bool podio" where
  "removePod ge p =
     (if isRunning p then ret False
      else if isEmbryo p \<or> isPreparing p then ret False
      else if isExitedDeleting p \<or> isDeleting p then ret False
      else if isAbortedPrepare p then moveOr (xToGarbage p) p (finishRemove ge)
      else if isPrepared p then moveOr (xToGarbage p) p (finishRemove ge)
      else if isExited p then moveOr (xToExitedGarbage p) p (finishRemove ge)
      else finishRemove ge p)"

text \<open>
  \<^verbatim>\<open>runRm\<close> goes on with the nil pod after \<^verbatim>\<open>getPod\<close> has failed; the first flag it reads is a nil
  dereference.
\<close>

fun removePods :: "gcEnv \<Rightarrow> bool \<Rightarrow> UUID list \<Rightarrow> int \<Rightarrow> int podio" where
  "removePods ge inited [] code = ret code"
| "removePods ge inited (u # us) code =
     tryIO (getPod (decodeNets ge) inited u) (\<lambda>r.
     case r of
       Inl _ \<Rightarrow> panic ''invalid memory address or nil pointer dereference''
     | Inr p \<Rightarrow> bindIO (removePod ge p) (\<lambda>ok. removePods ge True us (if ok then code else 1)))"

fun resolveAll :: "string list \<Rightarrow> UUID list podio" where
  "resolveAll [] = ret []"
| "resolveAll (a # as) =
     tryIO (resolveUUID a) (\<lambda>r.
     bindIO (resolveAll as) (\<lambda>us.
     ret (case r of Inl _ \<Rightarrow> us | Inr u \<Rightarrow> u # us)))"

definition runRm :: "gcEnv \<Rightarrow> string list \<Rightarrow> (goerr + string) option \<Rightarrow> int podio" where
  "runRm ge args uuidFile =
     (case (args, uuidFile) of
        ([], Some contents) \<Rightarrow>
          (case readUUIDFromFile contents of
             Inl _ \<Rightarrow> ret 1
           | Inr u \<Rightarrow> removePods ge False [u] 0)
      | (_ # _, None) \<Rightarrow> bindIO (resolveAll args) (\<lambda>us. removePods ge False us 0)
      | _ \<Rightarrow> ret 1)"

section \<open>Listing changes nothing\<close>

lemma readOnly_listPodsFromDir: "readOnly (listPodsFromDir d)"
  unfolding listPodsFromDir_def
  by (intro readOnly_try readOnly_mapErr)
    (auto simp: readOnly_def sys_readdir_def with_fault_def ret_def stop_def split: option.splits sum.splits)

lemma readOnly_collectDirs: "readOnly (collectDirs m ds)"
  by (induction m ds rule: collectDirs.induct) (auto intro!: readOnly_bind readOnly_listPodsFromDir)

lemma readOnly_listPods: "readOnly (listPods include)"
  unfolding listPods_def by (auto intro!: readOnly_bind readOnly_collectDirs)

section \<open>What a bystander keeps while pods are moved and removed\<close>

text \<open>
  A fact about the machine that survives opening and locking pods, and moving and removing the
  pods whose names are \<open>free\<close>.
\<close>

locale pod_guest = fd_guest I foreign for I :: "phase kernel \<Rightarrow> bool" and foreign :: "fdesc \<Rightarrow> bool" +
  fixes free :: "string \<Rightarrow> bool"
  assumes renamed: "I k \<Longrightarrow> free n \<Longrightarrow> lookup k d n = Some i \<Longrightarrow> dirs k d' \<noteq> None \<Longrightarrow> d \<noteq> d' \<Longrightarrow>
      I (moved d n d' n i k)"
    and removed: "I k \<Longrightarrow> free n \<Longrightarrow> I (remove_entry d n k)"
begin

abbreviation mineLock :: "phase FileLock \<Rightarrow> bool" where
  "mineLock l \<equiv> \<not> foreign (lk_fd l)"

lemma inv_readOnly: "readOnly m \<Longrightarrow> invIO I m (\<lambda>_. True)"
  by (rule invIOI) (metis fst_conv readOnly_def)

lemma inv_flock [inv_intros]: "\<not> foreign fd \<Longrightarrow> invIO I (sys_flock fd opn nb) (\<lambda>_. True)"
  by (rule invIOI) (metis flocked fst_conv)

lemma inv_Close [inv_intros]: "mineLock l \<Longrightarrow> invIO I (FileLock_Close l) (\<lambda>_. True)"
  by (rule invIOI) (blast dest: FileLock_Close_guest)

lemma inv_NewLock: "invIO I (NewLock (d, n) lt) mineLock"
  by (rule invIOI) (fastforce dest: NewLock_guest)

lemma inv_initPods [inv_intros]: "invIO I (initPods b) (\<lambda>_. True)"
proof -
  have mk: "invIO I (sys_mkdirall d) (\<lambda>_. True)" for d
    by (rule invIOI) (blast dest: mkdirall_guest)
  have "invIO I (mkdirAlls ds) (\<lambda>_. True)" for ds
    by (induction ds) (auto intro!: inv_intros mk)
  then show ?thesis unfolding initPods_def by (auto simp del: mkdirAlls.simps intro!: inv_intros)
qed

lemma inv_openOr:
  assumes "invIO I alternative (\<lambda>(q, l). mineLock l)"
  shows "invIO I (openOr d flag alternative p) (\<lambda>(q, l). mineLock l)"
  unfolding openOr_def
  by (rule invIO_try [OF inv_NewLock]) (auto intro!: inv_intros assms)

lemma inv_openPod: "invIO I (openPod p) (\<lambda>(q, l). mineLock l)"
  unfolding openPod_def
  by (intro inv_openOr, rule invIO_try [OF inv_NewLock]) (auto intro!: inv_intros)

lemma inv_testLock:
  assumes "mineLock l"
  shows "invIO I (testLock l p) (\<lambda>_. True)"
  unfolding testLock_def FileLock_defs using assms by (auto intro!: inv_intros)

lemma inv_loadNets: "invIO I (loadNets decode p) (\<lambda>p'. p_lock p' = p_lock p)"
  by (rule invIOI) (auto dest!: loadNets_outcome)

lemma inv_getPod: "invIO I (getPod decode b u) (\<lambda>p. mineLock (p_lock p))"
proof -
  have step: "invIO I (bindIO (if \<not> isPrepared q \<and> \<not> isEmbryo q then testLock l q else ret q)
      (\<lambda>p. loadNets decode (p\<lparr>p_lock := l\<rparr>))) (\<lambda>p. mineLock (p_lock p))" if l: "mineLock l" for q l
    by (intro invIO_bind' invIO_if inv_testLock [OF l] invIO_ret invIO_weaken [OF inv_loadNets]) (simp_all add: l)
  show ?thesis
    unfolding getPod_def
    by (rule invIO_bind' [OF inv_initPods], rule invIO_bind [OF inv_openPod], rule invIO_prod, rule step) simp
qed

lemma inv_rename:
  assumes "free n"
  shows "invIO I (osRename (Some (d, n)) (d', n)) (\<lambda>_. True)"
proof (rule invIOI)
  fix k k' x assume "I k" and run: "osRename (Some (d, n)) (d', n) k = (k', x)"
  show "I k' \<and> (\<forall>a. x = Inr a \<longrightarrow> True)"
  proof (cases "d = d'")
    case True
    then have "k' = k" using run
      by (auto simp: osRename_def sys_rename_def with_fault_def elim!: mapErr_cases split: option.splits if_splits)
    then show ?thesis using \<open>I k\<close> by simp
  next
    case False
    then show ?thesis using osRename_outcome [OF run False] renamed [OF \<open>I k\<close> assms] \<open>I k\<close> by auto
  qed
qed

lemma inv_syncDir: "invIO I (syncDir d) (\<lambda>_. True)"
  by (rule invIOI) (auto dest!: syncDir_outcome)

lemma path_name: "path p = None \<or> (\<exists>d. path p = Some (d, podName p))"
  by (auto simp: path_def)

lemma inv_renamePath:
  assumes "free (podName p)"
  shows "invIO I (osRename (path p) (d, podName p)) (\<lambda>_. True)"
proof -
  have "invIO I (osRename None (d, podName p)) (\<lambda>_. True)" by (simp add: osRename_def invIO_stop)
  then show ?thesis using path_name [of p] inv_rename [OF assms] by auto
qed

lemma inv_xto:
  assumes "mineLock (p_lock p)" and "free (podName p)"
  shows "invIO I (xto x p) (\<lambda>p'. mineLock (p_lock p') \<and> p_uuid p' = p_uuid p)"
  using assms
  by (cases x)
    (auto simp: xToPreparing_def xToPrepared_def xToRun_def xToExitedGarbage_def xToGarbage_def FileLock_defs
      intro!: inv_intros inv_rename inv_renamePath inv_syncDir invIO_weaken [OF invIO_guard])

lemma inv_reporting:
  assumes "mineLock (p_lock p)" and "invIO I m (\<lambda>p'. mineLock (p_lock p') \<and> p_uuid p' = p_uuid p)"
  shows "invIO I (reporting p m) (\<lambda>(p', u). mineLock (p_lock p'))"
  unfolding reporting_def by (rule invIO_try [OF assms(2)]) (auto intro!: inv_intros assms(1))

lemma inv_removeDir:
  assumes "free (podName p)"
  shows "invIO I (removeDir (path p)) (\<lambda>_. True)"
proof -
  have "invIO I (sys_removeall d (podName p)) (\<lambda>_. True)" for d
    by (rule invIOI) (use removed [OF _ assms] in \<open>auto dest!: sys_removeall_outcome\<close>)
  then show ?thesis
    using path_name [of p] by (cases "path p") (auto simp: removeDir_def intro!: inv_intros)
qed

lemma inv_cleanupExited: "invIO I (cleanupExited ge p) (\<lambda>_. True)"
  unfolding cleanupExited_def by (auto intro!: inv_intros inv_readOnly [OF readOnly_getStage1Hash]
      inv_readOnly [OF readOnly_usesOverlay] inv_readOnly [OF readOnly_getApps])

lemma inv_deletePod:
  assumes "free (podName p)"
  shows "invIO I (deletePod ge p) (\<lambda>_. True)"
  unfolding deletePod_def by (auto intro!: inv_intros inv_cleanupExited inv_removeDir [OF assms])

lemma inv_lockAndDelete:
  assumes "mineLock (p_lock p)" and "free (podName p)"
  shows "invIO I (lockAndDelete ge p) (\<lambda>(p', u). mineLock (p_lock p'))"
  unfolding lockAndDelete_def FileLock_defs
  using assms by (auto intro!: inv_intros inv_deletePod)

lemma inv_finishRemove:
  assumes "mineLock (p_lock p)" and "free (podName p)"
  shows "invIO I (finishRemove ge p) (\<lambda>_. True)"
  unfolding finishRemove_def FileLock_defs
  using assms by (auto intro!: inv_intros inv_deletePod)

lemma inv_moveOr:
  assumes "mineLock (p_lock p)" and "free (podName p)"
  shows "invIO I (moveOr (xto x p) p (finishRemove ge)) (\<lambda>_. True)"
  unfolding moveOr_def
  by (rule invIO_try [OF inv_xto [OF assms]]) (use assms in \<open>auto intro!: inv_intros inv_finishRemove\<close>)

lemma inv_removePod:
  assumes "mineLock (p_lock p)" and "free (podName p)"
  shows "invIO I (removePod ge p) (\<lambda>_. True)"
  unfolding removePod_def
  using inv_moveOr [OF assms, of ToGarbage] inv_moveOr [OF assms, of ToExitedGarbage]
  by (auto intro!: inv_intros inv_finishRemove [OF assms])

text \<open>A walk over the pods, given what is known of each pod it meets.\<close>

lemma inv_walkList:
  assumes "\<And>u. invIO I (getPod decode True u) seen"
    and "\<And>p acc. mineLock (p_lock p) \<Longrightarrow> seen p \<Longrightarrow> \<not> omitted include p \<Longrightarrow>
      invIO I (f p acc) (\<lambda>(p', acc'). mineLock (p_lock p'))"
  shows "invIO I (walkList decode include f ns acc) (\<lambda>_. True)"
proof (induction ns arbitrary: acc)
  case Nil
  then show ?case by (auto intro!: inv_intros)
next
  case (Cons n ns)
  have get: "invIO I (getPod decode True u) (\<lambda>p. mineLock (p_lock p) \<and> seen p)" for u
    using invIO_conj [OF inv_getPod assms(1)] .
  have step: "invIO I (if omitted include p then bindIO (FileLock_Close (p_lock p)) (\<lambda>_. walkList decode include f ns acc)
      else bindIO (f p acc) (\<lambda>(p', acc'). bindIO (FileLock_Close (p_lock p')) (\<lambda>_. walkList decode include f ns acc')))
      (\<lambda>_. True)" if "mineLock (p_lock p)" "seen p" for p
    using that Cons.IH
    by (intro invIO_if invIO_bind [OF assms(2)]) (auto intro!: inv_intros)
  show ?case
    by (auto intro!: invIO_sum invIO_try [OF get] step Cons.IH)
qed

lemma inv_walkPods:
  assumes "\<And>u. invIO I (getPod decode True u) seen"
    and "\<And>p acc. mineLock (p_lock p) \<Longrightarrow> seen p \<Longrightarrow> \<not> omitted include p \<Longrightarrow>
      invIO I (f p acc) (\<lambda>(p', acc'). mineLock (p_lock p'))"
  shows "invIO I (walkPods decode b include f acc) (\<lambda>_. True)"
  unfolding walkPods_def
  by (intro inv_intros inv_walkList [where seen = seen] inv_readOnly) (auto simp: readOnly_listPods intro: assms)

end

section \<open>The pods that garbage collection spares\<close>

text \<open>
  Pod \<open>n\<close> is the directory with inode \<open>i\<close> and is in phase \<open>d\<close> and nowhere else; while it is being
  prepared or run, descriptor \<open>fd\<close> of its owner holds the lock.
\<close>

definition activePhase :: "phase \<Rightarrow> bool" where
  "activePhase d \<longleftrightarrow> d = PrepareDir \<or> d = RunDir"

definition podAt :: "phase \<Rightarrow> string \<Rightarrow> ino \<Rightarrow> fdesc \<Rightarrow> int \<Rightarrow> int \<Rightarrow> phase kernel \<Rightarrow> bool" where
  "podAt d n i fd ctim t k \<longleftrightarrow> lock_inv k \<and>
     (\<forall>c m. lookup k c m = Some i \<longleftrightarrow> c = d \<and> m = n) \<and> (\<forall>c. c \<noteq> d \<longrightarrow> lookup k c n = None) \<and>
     ctime k i = ctim \<and> clock k = t \<and>
     (activePhase d \<longrightarrow> map_of (descs k) fd = Some (i, ExclusiveLk))"

text \<open>Embryos, active pods, and prepared and exited pods whose time has not come.\<close>

definition keptByGC :: "int \<Rightarrow> int \<Rightarrow> phase \<Rightarrow> int \<Rightarrow> int \<Rightarrow> bool" where
  "keptByGC gracePeriod preparedExpiration d ctim t \<longleftrightarrow>
     d \<noteq> GarbageDir \<and> (d = PreparedDir \<longrightarrow> t \<le> ctim + preparedExpiration) \<and>
     (d = ExitedGarbageDir \<longrightarrow> t \<le> ctim + gracePeriod)"

lemma podAt_fd: "podAt d n i fd ct t k \<Longrightarrow> activePhase d \<Longrightarrow> 0 \<le> fd \<and> fd < next_fd k"
  by (force simp: podAt_def lock_inv_def fds_ok_def dest!: map_of_SomeD)

lemma podAt_entry: "podAt d n i fd ct t k \<Longrightarrow> lookup k d n = Some i \<and> ctime k i = ct"
  by (simp add: podAt_def)

lemma podAt_update:
  assumes "podAt d n i fd ct t k" and "lock_inv k'" and "lookup k' = lookup k" and "ctime k' = ctime k"
    and "clock k' = clock k" and "activePhase d \<Longrightarrow> map_of (descs k') fd = map_of (descs k) fd"
  shows "podAt d n i fd ct t k'"
  using assms by (simp add: podAt_def)

lemma flock_other_entry:
  "g \<noteq> fd \<Longrightarrow> map_of (descs (fst (sys_flock g opn nb k))) fd = map_of (descs k) fd"
  by (auto simp: sys_flock_def map_of_set_mode split: option.splits flockop.splits)

interpretation kept_pod: pod_guest "podAt d n i fd ct t" "\<lambda>g. g = fd \<and> activePhase d" "\<lambda>m. m \<noteq> n"
  for d n i fd ct t
proof unfold_locales
  fix k assume p: "podAt d n i fd ct t k"
  then have inv: "lock_inv k" by (simp add: podAt_def)
  have entry: "lookup k c m = Some j \<Longrightarrow> m \<noteq> n \<Longrightarrow> j \<noteq> i" for c m j using p by (auto simp: podAt_def)
  show "lock_inv k" by (rule inv)
  show "\<not> (next_fd k = fd \<and> activePhase d)" "\<not> (- 1 = fd \<and> activePhase d)"
    using podAt_fd [OF p] by auto
  show "\<not> (g = fd \<and> activePhase d) \<Longrightarrow> podAt d n i fd ct t (fst (sys_flock g opn nb k))" for g opn nb
    using sys_flock_frame [of g opn nb k, OF surjective_pairing]
    by (intro podAt_update [OF p]) (auto simp: sys_flock_lock_inv inv lookup_def fun_eq_iff flock_other_entry)
  show "podAt d n i fd ct t (opened j k)" for j
    using podAt_fd [OF p] by (intro podAt_update [OF p]) (auto simp: lock_inv_opened inv)
  show "\<not> (g = fd \<and> activePhase d) \<Longrightarrow> podAt d n i fd ct t (k\<lparr>descs := filter (\<lambda>e. fst e \<noteq> g) (descs k)\<rparr>)" for g
    by (intro podAt_update [OF p]) (auto simp: lock_inv_closed inv map_of_closed)
  show "podAt d n i fd ct t (k\<lparr>next_fd := next_fd k + 1\<rparr>)"
    by (intro podAt_update [OF p]) (auto simp: lock_inv_next_fd inv)
  show "dirs k c = None \<Longrightarrow> podAt d n i fd ct t (set_dir c [] k)" for c
    by (intro podAt_update [OF p]) (auto simp: inv fun_eq_iff, auto simp: lookup_def)
  show "m \<noteq> n \<Longrightarrow> lookup k c m = Some j \<Longrightarrow> dirs k c' \<noteq> None \<Longrightarrow> c \<noteq> c' \<Longrightarrow> podAt d n i fd ct t (moved c m c' m j k)"
    for m c j c'
    using p entry [of c m j] by (auto simp: podAt_def lookup_moved)
  show "m \<noteq> n \<Longrightarrow> podAt d n i fd ct t (remove_entry c m k)" for m c
    using p by (auto simp: podAt_def)
qed

text \<open>What the walk finds out about the pod.\<close>

definition seenAs :: "phase \<Rightarrow> string \<Rightarrow> pod \<Rightarrow> bool" where
  "seenAs d n p \<longleftrightarrow> (podName p = n \<longrightarrow> (\<exists>c. hasState (docState d c) p \<and> (activePhase d \<longrightarrow> c)))"

lemma getPod_seen: "invIO (podAt d n i fd ct t) (getPod decode b u) (seenAs d n)"
proof (rule invIOI)
  fix k k' x assume p: "podAt d n i fd ct t k" and run: "getPod decode b u k = (k', x)"
  have "seenAs d n q" if x: "x = Inr q" for q
    unfolding seenAs_def
  proof
    assume name: "podName q = n"
    have inv: "lock_inv k" using p by (simp add: podAt_def)
    obtain d' i' c where f: "lookup k d' (UUID_String u) = Some i'" "hasState (docState d' c) q" "p_uuid q = u"
      "exclLocked k i' \<and> d' \<noteq> PreparedDir \<and> d' \<noteq> EmbryoDir \<longrightarrow> c"
      using getPod_found [of decode b u k k' q] run x inv by auto
    have "lookup k d' n = Some i'" "lookup k d n = Some i" "d' \<noteq> d \<Longrightarrow> lookup k d' n = None"
      using f(1,3) name p by (auto simp: podAt_def)
    then have d: "d' = d \<and> i' = i" by (cases "d' = d") auto
    have "activePhase d \<Longrightarrow> exclLocked k i"
      using p exclLocked_iff [of k i] inv by (auto simp: podAt_def lock_inv_def)
    then have "activePhase d \<longrightarrow> c" using f(4) d by (auto simp: activePhase_def)
    then show "\<exists>c. hasState (docState d c) q \<and> (activePhase d \<longrightarrow> c)" using f(2) d by auto
  qed
  then show "podAt d n i fd ct t k' \<and> (\<forall>q. x = Inr q \<longrightarrow> seenAs d n q)"
    using invIOD [OF kept_pod.inv_getPod p run] by simp
qed

lemma getPod_uuid: "invIO (podAt d n i fd ct t) (getPod decode b u) (\<lambda>p. p_uuid p = u)"
proof (rule invIOI)
  fix k k' x assume p: "podAt d n i fd ct t k" and run: "getPod decode b u k = (k', x)"
  then have "lock_inv k" by (simp add: podAt_def)
  then show "podAt d n i fd ct t k' \<and> (\<forall>p. x = Inr p \<longrightarrow> p_uuid p = u)"
    using invIOD [OF kept_pod.inv_getPod p run] getPod_found [of decode b u k k'] run by auto
qed

lemma lstat_seen:
  assumes "seenAs d n p"
  shows "invIO (podAt d n i fd ct t) (lstatCtime p) (\<lambda>ctim. podName p = n \<longrightarrow> ctim = ct)"
proof (rule invIOI)
  fix k k' x assume p: "podAt d n i fd ct t k" and run: "lstatCtime p k = (k', x)"
  have "path p = Some (d, n)" if "podName p = n"
    using assms path_hasState [of _ p] that by (auto simp: seenAs_def)
  then show "podAt d n i fd ct t k' \<and> (\<forall>ctim. x = Inr ctim \<longrightarrow> podName p = n \<longrightarrow> ctim = ct)"
    using run p unfolding lstatCtime_def
    by (auto elim!: mapErr_cases stop_cases split: option.splits dest!: sys_lstat_ctime_outcome) (auto dest: podAt_entry)
qed

lemma now_seen: "invIO (podAt d n i fd ct t) now (\<lambda>t'. t' = t)"
  by (rule invIOI) (auto simp: now_def podAt_def)

lemma unexpired_seen:
  assumes "seenAs d n p" and "podName p = n \<longrightarrow> t \<le> ct + period"
    and "podName p \<noteq> n \<Longrightarrow> invIO (podAt d n i fd ct t) act Q" and "Q (p, ())"
  shows "invIO (podAt d n i fd ct t)
    (tryIO (lstatCtime p) (\<lambda>r. case r of Inl _ \<Rightarrow> ret (p, ())
      | Inr ctim \<Rightarrow> bindIO now (\<lambda>t'. if t' > ctim + period then act else ret (p, ())))) Q"
  by (rule invIO_try [OF lstat_seen [OF assms(1)]])
    (use assms in \<open>auto intro!: invIO_bind [OF now_seen] invIO_if invIO_ret split: sum.split\<close>)

lemma masks [simp]:
  "includeRunDir AND includeExitedGarbageDir = 0" "includeRunDir AND includeEmbryoDir = 0"
  "includeRunDir AND includePreparedDir = 0" "includeRunDir AND includePrepareDir = 0"
  "includePrepareDir AND includeExitedGarbageDir = 0" "includePrepareDir AND includeEmbryoDir = 0"
  "includePrepareDir AND includePreparedDir = 0" "includePrepareDir AND includeRunDir = 0"
  "includePreparedDir AND includeExitedGarbageDir = 0" "includePreparedDir AND includeEmbryoDir = 0"
  "includePreparedDir AND includePrepareDir = 0" "includePreparedDir AND includeRunDir = 0"
  "includeExitedGarbageDir AND includePreparedDir = 0" "includeExitedGarbageDir AND includeEmbryoDir = 0"
  "includeExitedGarbageDir AND includePrepareDir = 0" "includeExitedGarbageDir AND includeRunDir = 0"
  "includeGarbageDir AND includePreparedDir = 0" "includeGarbageDir AND includeEmbryoDir = 0"
  "includeGarbageDir AND includePrepareDir = 0" "includeGarbageDir AND includeRunDir = 0"
  "includeGarbageDir AND includeExitedGarbageDir = 0"
  by (simp_all add: includeEmbryoDir_def includePrepareDir_def includePreparedDir_def includeRunDir_def
      includeExitedGarbageDir_def includeGarbageDir_def)

text \<open>A pod that is spared is met only in walks over its own phase, and shows its flags there.\<close>

lemma met_in_walk:
  assumes "seenAs d n p" and "podName p = n" and "\<not> omitted m p" and "d \<noteq> GarbageDir"
  shows "m = includeRunDir \<Longrightarrow> \<not> isExited p" "m = includePrepareDir \<Longrightarrow> \<not> isAbortedPrepare p"
    "m = includePreparedDir \<Longrightarrow> d = PreparedDir" "m = includeExitedGarbageDir \<Longrightarrow> d = ExitedGarbageDir"
    "m = includeGarbageDir \<Longrightarrow> False"
proof -
  obtain c where "hasState (docState d c) p" "activePhase d \<longrightarrow> c"
    using assms(1,2) by (auto simp: seenAs_def)
  then show "m = includeRunDir \<Longrightarrow> \<not> isExited p" "m = includePrepareDir \<Longrightarrow> \<not> isAbortedPrepare p"
    "m = includePreparedDir \<Longrightarrow> d = PreparedDir" "m = includeExitedGarbageDir \<Longrightarrow> d = ExitedGarbageDir"
    "m = includeGarbageDir \<Longrightarrow> False"
    using assms(3,4) isRunning_hasState [of _ p]
    by (cases d; auto simp: omitted_def hasState_iff activePhase_def split: if_splits)+
qed

lemma gc_steps:
  assumes "keptByGC gp pe d ct t"
  shows "invIO (podAt d n i fd ct t) (renameExited ge b) (\<lambda>_. True)"
    and "invIO (podAt d n i fd ct t) (renameAborted ge b) (\<lambda>_. True)"
    and "invIO (podAt d n i fd ct t) (renameExpired ge b pe) (\<lambda>_. True)"
    and "invIO (podAt d n i fd ct t) (emptyExitedGarbage ge b gp) (\<lambda>_. True)"
    and "invIO (podAt d n i fd ct t) (emptyGarbage ge b) (\<lambda>_. True)"
proof -
  have d: "d \<noteq> GarbageDir" using assms by (simp add: keptByGC_def)
  let ?mine = "\<lambda>(p' :: pod, u :: unit). \<not> (lk_fd (p_lock p') = fd \<and> activePhase d)"
  note walk = kept_pod.inv_walkPods [where seen = "seenAs d n", OF getPod_seen]
  note move = kept_pod.inv_reporting [OF _ kept_pod.inv_xto [where x = ToExitedGarbage, unfolded xto.simps]]
    kept_pod.inv_reporting [OF _ kept_pod.inv_xto [where x = ToGarbage, unfolded xto.simps]]
  show "invIO (podAt d n i fd ct t) (renameExited ge b) (\<lambda>_. True)"
    unfolding renameExited_def
  proof (rule walk)
    fix p acc assume m: "\<not> (lk_fd (p_lock p) = fd \<and> activePhase d)" "seenAs d n p" "\<not> omitted includeRunDir p"
    show "invIO (podAt d n i fd ct t) (renameExitedCb p acc) ?mine"
      unfolding renameExitedCb_def
      using met_in_walk(1) [OF m(2) _ m(3) d] m(1) by (intro invIO_if move invIO_ret) auto
  qed
  show "invIO (podAt d n i fd ct t) (renameAborted ge b) (\<lambda>_. True)"
    unfolding renameAborted_def
  proof (rule walk)
    fix p acc assume m: "\<not> (lk_fd (p_lock p) = fd \<and> activePhase d)" "seenAs d n p" "\<not> omitted includePrepareDir p"
    show "invIO (podAt d n i fd ct t) (renameAbortedCb p acc) ?mine"
      unfolding renameAbortedCb_def
      using met_in_walk(2) [OF m(2) _ m(3) d] m(1) by (intro invIO_if move invIO_ret) auto
  qed
  show "invIO (podAt d n i fd ct t) (renameExpired ge b pe) (\<lambda>_. True)"
    unfolding renameExpired_def
  proof (rule walk)
    fix p acc assume m: "\<not> (lk_fd (p_lock p) = fd \<and> activePhase d)" "seenAs d n p" "\<not> omitted includePreparedDir p"
    have kept: "podName p = n \<longrightarrow> t \<le> ct + pe"
      using met_in_walk(3) [OF m(2) _ m(3) d] assms by (simp add: keptByGC_def)
    show "invIO (podAt d n i fd ct t) (renameExpiredCb pe p acc) ?mine"
      unfolding renameExpiredCb_def
      by (rule unexpired_seen [OF m(2) kept move(2) [OF m(1) m(1)]]) (use m(1) in auto)
  qed
  show "invIO (podAt d n i fd ct t) (emptyExitedGarbage ge b gp) (\<lambda>_. True)"
    unfolding emptyExitedGarbage_def
  proof (rule walk)
    fix p acc assume m: "\<not> (lk_fd (p_lock p) = fd \<and> activePhase d)" "seenAs d n p" "\<not> omitted includeExitedGarbageDir p"
    have kept: "podName p = n \<longrightarrow> t \<le> ct + gp"
      using met_in_walk(4) [OF m(2) _ m(3) d] assms by (simp add: keptByGC_def)
    show "invIO (podAt d n i fd ct t) (emptyExitedGarbageCb ge gp p acc) ?mine"
      unfolding emptyExitedGarbageCb_def
      by (rule unexpired_seen [OF m(2) kept kept_pod.inv_lockAndDelete [OF m(1)]]) (use m(1) in auto)
  qed
  show "invIO (podAt d n i fd ct t) (emptyGarbage ge b) (\<lambda>_. True)"
    unfolding emptyGarbage_def emptyGarbageCb_def
    by (rule walk) (use met_in_walk(5) d in \<open>blast intro: kept_pod.inv_lockAndDelete\<close>)
qed

lemma invIO_orExit: "invIO I m (\<lambda>_. True) \<Longrightarrow> invIO I m' (\<lambda>_. True) \<Longrightarrow> invIO I (orExit m m') (\<lambda>_. True)"
  unfolding orExit_def by (auto intro!: inv_intros)

text \<open>
  C6. Whatever fails while \<^verbatim>\<open>rkt gc\<close> runs, a pod that is being prepared or run under its owner's
  lock, an embryo, a prepared pod that has not expired and an exited pod within its grace period
  stay where they are, with the owner's lock.
\<close>

theorem gc_spares_kept_pods:
  assumes "podAt d n i fd ct t k" and "keptByGC gracePeriod preparedExpiration d ct t"
  shows "podAt d n i fd ct t (fst (runGC ge gracePeriod preparedExpiration k))"
proof -
  have "invIO (podAt d n i fd ct t) (runGC ge gracePeriod preparedExpiration) (\<lambda>_. True)"
    unfolding runGC_def by (intro invIO_orExit gc_steps [OF assms(2)] invIO_ret) simp
  from invIOD [OF this assms(1) surjective_pairing] show ?thesis by simp
qed

definition preparedKernel :: "phase kernel" where
  "preparedKernel = sampleKernel\<lparr>dirs := \<lambda>d. Some (if d = PreparedDir then [(UUID_String sampleUUID, 1)] else []),
     ctime := \<lambda>_. 10, clock := 20\<rparr>"

definition sampleGC :: gcEnv where
  "sampleGC = \<lparr>newStore = None, stage1GC = \<lambda>_. None, unmount = \<lambda>_. None, decodeManifest = \<lambda>_. Inr [],
     decodeNets = \<lambda>_. Inr []\<rparr>"

theorem gc_spares_kept_pods_witness:
  "keptByGC 1800 86400 PreparedDir 10 20 \<and>
   lookup (fst (runGC sampleGC 1800 86400 preparedKernel)) PreparedDir (UUID_String sampleUUID) = Some 1"
proof -
  have "lock_inv preparedKernel"
    by (simp add: preparedKernel_def sampleKernel_def init_kernel_def lock_inv_def fds_ok_def excl_ok_def)
  then have "podAt PreparedDir (UUID_String sampleUUID) 1 3 10 20 preparedKernel"
    by (auto simp: podAt_def activePhase_def preparedKernel_def lookup_def split: if_splits)
  moreover have "keptByGC 1800 86400 PreparedDir 10 20" by (simp add: keptByGC_def)
  ultimately show ?thesis
    using gc_spares_kept_pods [where ge = sampleGC] podAt_entry by blast
qed

section \<open>Removal by name\<close>

lemma rm_spares:
  assumes "seenAs d n p" and "kept_pod.mineLock fd d (p_lock p)" and "podName p = n \<Longrightarrow> activePhase d \<or> d = EmbryoDir"
  shows "invIO (podAt d n i fd ct t) (removePod ge p) (\<lambda>_. True)"
proof (cases "podName p = n")
  case True
  then obtain c where "hasState (docState d c) p" "activePhase d \<longrightarrow> c"
    using assms(1) by (auto simp: seenAs_def)
  then have "removePod ge p = ret False"
    using assms(3) [OF True] by (cases d) (auto simp: removePod_def hasState_iff isRunning_def activePhase_def)
  then show ?thesis by (auto intro: inv_intros)
next
  case False
  then show ?thesis by (rule kept_pod.inv_removePod [OF assms(2)])
qed

lemma removePods_spares:
  assumes "activePhase d \<or> d = EmbryoDir \<or> n \<notin> UUID_String ` set us"
  shows "invIO (podAt d n i fd ct t) (removePods ge b us code) (\<lambda>_. True)"
  using assms
proof (induction us arbitrary: b code)
  case (Cons u us)
  have get: "invIO (podAt d n i fd ct t) (getPod (decodeNets ge) b u)
      (\<lambda>p. (kept_pod.mineLock fd d (p_lock p) \<and> seenAs d n p) \<and> p_uuid p = u)"
    by (intro invIO_conj kept_pod.inv_getPod getPod_seen getPod_uuid)
  show ?case
    unfolding removePods.simps
    by (rule invIO_try [OF get]) (use Cons in \<open>auto intro!: inv_intros rm_spares\<close>)
qed (auto intro: inv_intros)

text \<open>
  C17. \<^verbatim>\<open>rkt rm\<close> never touches an embryo or a pod that is being prepared or run, whatever it is asked
  to remove and whatever fails on the way.
\<close>

theorem rm_spares_active_pods:
  assumes "podAt d n i fd ct t k" and "activePhase d \<or> d = EmbryoDir"
  shows "podAt d n i fd ct t (fst (runRm ge args uuidFile k))"
proof -
  have readOnly: "readOnly (resolveAll as)" for as
    by (induction as) (auto simp: resolveUUID_def matchUUID_def Let_def
        intro!: readOnly_try readOnly_bind readOnly_listPods split: sum.split)
  have remove: "invIO (podAt d n i fd ct t) (removePods ge False us 0) (\<lambda>_. True)" for us
    by (rule removePods_spares) (use assms(2) in blast)
  have "invIO (podAt d n i fd ct t) (runRm ge args uuidFile) (\<lambda>_. True)"
    unfolding runRm_def
    by (auto intro!: inv_intros remove kept_pod.inv_readOnly [OF readOnly] split: list.split option.split
        simp del: removePods.simps resolveAll.simps)
  from invIOD [OF this assms(1) surjective_pairing] show ?thesis by simp
qed

theorem rm_spares_active_pods_witness:
  "lookup (fst (runRm sampleGC [UUID_String sampleUUID] None
     (preparedKernel\<lparr>dirs := \<lambda>d. Some (if d = RunDir then [(UUID_String sampleUUID, 1)] else []),
        descs := [(3, 1, ExclusiveLk)]\<rparr>))) RunDir (UUID_String sampleUUID) = Some 1"
proof -
  let ?k = "preparedKernel\<lparr>dirs := \<lambda>d. Some (if d = RunDir then [(UUID_String sampleUUID, 1)] else []),
        descs := [(3, 1, ExclusiveLk)]\<rparr>"
  have "lock_inv ?k"
    by (simp add: preparedKernel_def sampleKernel_def init_kernel_def lock_inv_def fds_ok_def excl_ok_def)
  then have "podAt RunDir (UUID_String sampleUUID) 1 3 10 20 ?k"
    by (auto simp: podAt_def activePhase_def preparedKernel_def lookup_def split: if_splits)
  then show ?thesis
    using rm_spares_active_pods [where ge = sampleGC] podAt_entry by (blast intro: activePhase_def [THEN iffD2])
qed

section \<open>Abbreviated UUIDs\<close>

text \<open>The pods of a phase: its entries that are directories.\<close>

definition podsOf :: "phase kernel \<Rightarrow> phase \<Rightarrow> string set" where
  "podsOf k d = {n. \<exists>i. (n, i) \<in> set (case dirs k d of None \<Rightarrow> [] | Some es \<Rightarrow> es) \<and> itype k i = DirT}"

lemma listPodsFromDir_quiet:
  assumes "fault k = (\<lambda>_. None)"
  shows "\<exists>ps. listPodsFromDir d k = (k, Inr ps) \<and> set ps = podsOf k d"
  using assms
  by (cases "dirs k d")
    (force simp: listPodsFromDir_def tryIO_def mapErr_def sys_readdir_def with_fault_def podsOf_def ret_def)+

lemma collectDirs_quiet:
  assumes "fault k = (\<lambda>_. None)"
  shows "\<exists>ps. collectDirs m ds k = (k, Inr ps) \<and>
    set ps = (\<Union>(kind, d) \<in> set ds. if m AND kind \<noteq> 0 then podsOf k d else {})"
proof (induction ds)
  case (Cons x ds)
  obtain kind d where x: "x = (kind, d)" by (cases x)
  obtain ps where "collectDirs m ds k = (k, Inr ps)"
    "set ps = (\<Union>(kind, d) \<in> set ds. if m AND kind \<noteq> 0 then podsOf k d else {})"
    using Cons.IH by blast
  moreover obtain qs where "listPodsFromDir d k = (k, Inr qs)" "set qs = podsOf k d"
    using listPodsFromDir_quiet [OF assms] by blast
  ultimately show ?case by (simp add: x bindIO_def ret_def)
qed (simp add: ret_def)

lemma listPods_quiet:
  assumes "fault k = (\<lambda>_. None)"
  obtains ps where "listPods m k = (k, Inr ps)" "distinct ps"
    "set ps = (\<Union>(kind, d) \<in> set listDirs. if m AND kind \<noteq> 0 then podsOf k d else {})"
  using collectDirs_quiet [OF assms, of m listDirs] that
  by (fastforce simp: listPods_def bindIO_def ret_def)

lemma one_match: "distinct xs \<Longrightarrow> set xs = {x} \<longleftrightarrow> xs = [x]"
  by (cases xs; cases "tl xs") auto

text \<open>
  C30. An abbreviated UUID resolves to a pod exactly when one pod that is not an embryo or garbage
  has a name that begins with it (in lower case), and the name is that of the pod; it never
  resolves when several match.
\<close>

theorem resolveUUID_iff_unique:
  assumes "fault k = (\<lambda>_. None)"
  shows "resolveUUID s k = (k, Inr u) \<longleftrightarrow>
    (\<exists>n. {m. (\<exists>d \<in> {PrepareDir, PreparedDir, RunDir, ExitedGarbageDir}. m \<in> podsOf k d) \<and> hasPrefix m (toLower s)} = {n} \<and>
      NewUUID n = Inr u)"
proof -
  let ?m = "includePrepareDir OR includePreparedDir OR includeRunDir OR includeExitedGarbageDir"
  obtain ps where ps: "listPods ?m k = (k, Inr ps)" "distinct ps"
    "set ps = (\<Union>(kind, d) \<in> set listDirs. if ?m AND kind \<noteq> 0 then podsOf k d else {})"
    using listPods_quiet [OF assms] .
  let ?f = "filter (\<lambda>p. hasPrefix p (toLower s)) ps"
  have "set ps = (\<Union>d \<in> {PrepareDir, PreparedDir, RunDir, ExitedGarbageDir}. podsOf k d)"
    by (simp add: ps(3) listDirs_def includeEmbryoDir_def includePrepareDir_def includePreparedDir_def
        includeRunDir_def includeExitedGarbageDir_def includeGarbageDir_def)
  then have set: "{m. (\<exists>d \<in> {PrepareDir, PreparedDir, RunDir, ExitedGarbageDir}. m \<in> podsOf k d) \<and>
      hasPrefix m (toLower s)} = set ?f" by auto
  have "resolveUUID s k = (k, Inr u) \<longleftrightarrow> (\<exists>n. ?f = [n] \<and> NewUUID n = Inr u)"
    by (cases ?f; cases "tl ?f")
      (auto simp: resolveUUID_def matchUUID_def Let_def bindIO_def ps(1) ret_def stop_def split: sum.split)
  then show ?thesis unfolding set using one_match [of ?f] ps(2) by auto
qed

theorem resolveUUID_iff_unique_witness:
  "resolveUUID ''0'' sampleKernel = (sampleKernel, Inr sampleUUID)"
proof -
  have "podsOf sampleKernel d = (if d = RunDir then {UUID_String sampleUUID} else {})" for d
    by (auto simp: podsOf_def sampleKernel_def)
  moreover have "fault sampleKernel = (\<lambda>_. None)" using sample_quiet by (auto simp: quiet_def)
  moreover have "hasPrefix (UUID_String sampleUUID) (toLower ''0'')" by code_simp
  moreover have "NewUUID (UUID_String sampleUUID) = Inr sampleUUID"
    by (simp add: NewUUID_String sampleUUID_def)
  ultimately show ?thesis by (subst resolveUUID_iff_unique) auto
qed

text \<open>
  \<^verbatim>\<open>removePod\<close> refuses pods that are in use or being deleted, and also exited pods that garbage
  collection has already marked: their \<open>isExited\<close> flag sends them to \<^verbatim>\<open>xToExitedGarbage\<close>, whose guard
  rejects them.
\<close>

theorem removePod_refuses:
  assumes "hasState s p" and "s \<in> {Embryo, Preparing, Running, Deleting, ExitedDeleting, ExitedGarbage}"
  shows "removePod ge p k = (k, Inr False)"
  using assms
  by (auto simp: removePod_def hasState_iff isRunning_def moveOr_def xToExitedGarbage_def guardIO_def tryIO_def
      bindIO_def ret_def stop_def)

theorem removePod_refuses_witness:
  "\<exists>p. isExitedGarbage p \<and> removePod sampleGC p sampleKernel = (sampleKernel, Inr False)"
  by (intro exI [of _ "podIn ExitedGarbage (zeroPod sampleUUID)"] conjI removePod_refuses [of ExitedGarbage])
    (simp_all add: hasState_iff)

text \<open>
  When \<^verbatim>\<open>rkt rm\<close> is given a pod that has disappeared since its name was resolved, it goes on with
  the nil pod and panics.
\<close>

theorem rm_missing_pod_panics:
  assumes "quiet k (UUID_String u)" and "\<forall>d. lookup k d (UUID_String u) = None"
  shows "removePods ge True (u # us) code k = (k, Inl (Panic ''invalid memory address or nil pointer dereference''))"
proof -
  have "location k (UUID_String u) = None" using assms(2) by (simp add: location_None)
  from getPod_quiet_none [OF assms(1) this] show ?thesis by (simp add: tryIO_def stop_def)
qed

theorem rm_missing_pod_panics_witness:
  "removePods sampleGC True [replicate 16 1] 0 sampleKernel =
     (sampleKernel, Inl (Panic ''invalid memory address or nil pointer dereference''))"
proof (rule rm_missing_pod_panics [OF sample_quiet])
  have "UUID_String (replicate 16 1) \<noteq> UUID_String sampleUUID"
    using UUID_String_inj [of "replicate 16 1" sampleUUID] by (auto simp: sampleUUID_def numeral_eq_Suc)
  then show "\<forall>d. lookup sampleKernel d (UUID_String (replicate 16 1)) = None" by (simp add: sample_lookup)
qed

end
