(* ===== verification/Uid_Range.thy ===== *)
theory Uid_Range
  imports Go_Scan "HOL-Library.Word"
begin

text \<open>
  Shifted user ids, \<^verbatim>\<open>pkg/uid/uid.go\<close>: a pod with user namespaces maps its ids into a range of the
  host. The ids are 32-bit words, so the additions of the code wrap where nothing prevents it.
\<close>

section \<open>Operations\<close>

record UidRange =
  Shift :: "32 word"
  Count :: "32 word"

definition DefaultRangeCount :: "32 word" where "DefaultRangeCount = 0x10000"

text \<open>\<open>n0\<close> is what \<^verbatim>\<open>rand.Intn(0x7FFF)\<close> returned; the shift of the \<^verbatim>\<open>int\<close> is cut to 32 bits.\<close>

definition generateUidShift :: "nat \<Rightarrow> 32 word" where
  "generateUidShift n0 = of_nat (push_bit 16 (n0 + 1))"

definition NewBlankUidRange :: UidRange where
  "NewBlankUidRange = \<lparr>Shift = 0, Count = 0\<rparr>"

definition SetRandomUidRange :: "nat \<Rightarrow> UidRange \<Rightarrow> 32 word \<Rightarrow> UidRange" where
  "SetRandomUidRange n0 r uidCount = r\<lparr>Shift := generateUidShift n0, Count := uidCount\<rparr>"

definition ShiftRange :: "UidRange \<Rightarrow> 32 word \<Rightarrow> 32 word \<Rightarrow> goerr + (32 word \<times> 32 word)" where
  "ShiftRange r uid gid =
     (if Count r > 0 \<and> (uid \<ge> Count r \<or> gid \<ge> Count r) then Inl (Msg ''uid or gid are out of range'')
      else if 0xFFFFFFFF - Shift r < uid \<or> 0xFFFFFFFF - Shift r < gid
      then Inl (Msg ''uid or gid are out of range after shifting'')
      else Inr (uid + Shift r, gid + Shift r))"

definition Serialize :: "UidRange \<Rightarrow> string" where
  "Serialize r = itoa (unat (Shift r)) @ '':'' @ itoa (unat (Count r))"

text \<open>Fields are set as they are scanned, so an error in the second leaves the first one set.\<close>

definition Deserialize :: "UidRange \<Rightarrow> string \<Rightarrow> UidRange \<times> goerr option" where
  "Deserialize r uidRange =
     (if uidRange = [] then (r, None)
      else case scanUint32 uidRange of
        Inl e \<Rightarrow> (r, Some (Wrap ''error deserializing uid range: '' e))
      | Inr (n, rest) \<Rightarrow>
          let r1 = r\<lparr>Shift := of_nat n\<rparr> in
          if rest = [] then (r1, Some (Wrap ''error deserializing uid range: '' (Msg ''unexpected EOF'')))
          else if hd rest \<noteq> CHR '':''
          then (r1, Some (Wrap ''error deserializing uid range: '' (Msg ''input does not match format'')))
          else case scanUint32 (tl rest) of
            Inl e \<Rightarrow> (r1, Some (Wrap ''error deserializing uid range: '' e))
          | Inr (m, _) \<Rightarrow> (r1\<lparr>Count := of_nat m\<rparr>, None))"

section \<open>Ranges do not wrap and do not meet\<close>

lemma unat_bound32: "unat w < 4294967296" for w :: "32 word"
  using unsigned_less [of w] by simp

text \<open>The test before the addition, and what the addition then gives.\<close>

lemma shift_fits: "\<not> 0xFFFFFFFF - s < w \<and> u = w + s \<longleftrightarrow> unat u = unat w + unat s" for s w u :: "32 word"
proof -
  have "unat (0xFFFFFFFF - s) = 4294967295 - unat s"
    using unat_bound32 [of s] by (subst unat_sub) (simp_all add: word_le_nat_alt)
  then have fits: "\<not> 0xFFFFFFFF - s < w \<longleftrightarrow> unat w + unat s < 2 ^ 32"
    using unat_bound32 [of s] unat_bound32 [of w] by (auto simp: word_less_nat_alt)
  moreover have "unat (w + s) = unat w + unat s" if "unat w + unat s < 2 ^ 32"
    using that unat_add_lem [of w s] by simp
  ultimately show ?thesis
    using unat_bound32 [of u] by (auto simp: word_unat_eq_iff)
qed

lemma ShiftRange_iff:
  "ShiftRange r uid gid = Inr (u, g) \<longleftrightarrow>
     (Count r = 0 \<or> unat uid < unat (Count r) \<and> unat gid < unat (Count r)) \<and>
     unat u = unat uid + unat (Shift r) \<and> unat g = unat gid + unat (Shift r)"
  unfolding shift_fits [symmetric] by (auto simp: ShiftRange_def word_less_nat_alt word_le_nat_alt unat_gt_0)

text \<open>
  C36. A shift that succeeds never wraps: the ids are moved up by exactly the shift, stay below
  \<open>2 ^ 32\<close> and, if the range has a size, inside it. It fails for every other pair of ids.
\<close>

theorem ShiftRange_exact:
  "(\<exists>u g. ShiftRange r uid gid = Inr (u, g) \<and> unat u = unat uid + unat (Shift r) \<and> unat g = unat gid + unat (Shift r)) \<and>
     unat uid + unat (Shift r) < 2 ^ 32 \<and> unat gid + unat (Shift r) < 2 ^ 32 \<and>
     (Count r = 0 \<or> unat uid < unat (Count r) \<and> unat gid < unat (Count r)) \<or>
   (\<exists>e. ShiftRange r uid gid = Inl e) \<and>
     (unat uid + unat (Shift r) \<ge> 2 ^ 32 \<or> unat gid + unat (Shift r) \<ge> 2 ^ 32 \<or>
      0 < Count r \<and> (unat uid \<ge> unat (Count r) \<or> unat gid \<ge> unat (Count r)))"
proof (cases "ShiftRange r uid gid")
  case (Inr p)
  obtain u g where p: "p = (u, g)" by fastforce
  have "unat uid + unat (Shift r) < 2 ^ 32 \<and> unat gid + unat (Shift r) < 2 ^ 32"
    using Inr unat_bound32 [of u] unat_bound32 [of g] unfolding p ShiftRange_iff by simp
  then show ?thesis using Inr unfolding p by (metis ShiftRange_iff)
next
  case (Inl e)
  let ?sum = "\<lambda>x. of_nat (unat x + unat (Shift r)) :: 32 word"
  have "unat (?sum x) = unat x + unat (Shift r)" if "unat x + unat (Shift r) < 2 ^ 32" for x
    using that by (simp add: unsigned_of_nat take_bit_nat_eq_self del: of_nat_add)
  moreover have "ShiftRange r uid gid \<noteq> Inr (?sum uid, ?sum gid)" using Inl by simp
  ultimately show ?thesis using Inl unfolding ShiftRange_iff by (metis linorder_not_less word_neq_0_conv)
qed

lemma unat_small32: "m < 4294967296 \<Longrightarrow> unat (of_nat m :: 32 word) = m"
  by (simp add: unsigned_of_nat take_bit_nat_eq_self)

text \<open>The shifts that are drawn are multiples of \<open>2 ^ 16\<close> below \<open>2 ^ 31\<close>.\<close>

lemma generateUidShift_unat: "n0 < 0x7FFF \<Longrightarrow> unat (generateUidShift n0) = (n0 + 1) * 65536"
  unfolding generateUidShift_def push_bit_eq_mult by (subst unat_small32) simp_all

lemma random_shift:
  assumes "n < 0x7FFF" and "unat v < 65536" and "unat w < 65536"
  shows "\<exists>u g. ShiftRange (SetRandomUidRange n NewBlankUidRange DefaultRangeCount) v w = Inr (u, g) \<and>
    unat u = unat v + (n + 1) * 65536 \<and> unat g = unat w + (n + 1) * 65536"
proof -
  let ?sum = "\<lambda>x. of_nat (unat x + (n + 1) * 65536) :: 32 word"
  have "unat (?sum x) = unat x + (n + 1) * 65536" if "unat x < 65536" for x :: "32 word"
    by (rule unat_small32) (use that assms(1) in simp)
  then have "unat (?sum v) = unat v + (n + 1) * 65536" "unat (?sum w) = unat w + (n + 1) * 65536" using assms by blast+
  then show ?thesis
    using assms generateUidShift_unat [OF assms(1)]
    by (intro exI [of _ "?sum v"] exI [of _ "?sum w"])
      (simp add: ShiftRange_iff SetRandomUidRange_def DefaultRangeCount_def del: of_nat_add of_nat_mult)
qed

text \<open>
  C35. The ids of two pods with random shifts do not meet: every id of a pod below the default count
  can be shifted, to a number whose sign bit is clear, and pods that drew different numbers have no
  shifted id in common.
\<close>

theorem random_ranges_disjoint:
  assumes "n0 < 0x7FFF" and "n1 < 0x7FFF" and "uid < DefaultRangeCount" and "gid < DefaultRangeCount"
    and "uid' < DefaultRangeCount" and "gid' < DefaultRangeCount"
  shows "\<exists>u g u' g'. ShiftRange (SetRandomUidRange n0 NewBlankUidRange DefaultRangeCount) uid gid = Inr (u, g) \<and>
    ShiftRange (SetRandomUidRange n1 NewBlankUidRange DefaultRangeCount) uid' gid' = Inr (u', g') \<and>
    unat u < 2 ^ 31 \<and> unat g < 2 ^ 31 \<and> (n0 = n1 \<or> u \<noteq> u' \<and> g \<noteq> g')"
proof -
  have lt: "unat uid < 65536" "unat gid < 65536" "unat uid' < 65536" "unat gid' < 65536"
    using assms(3-6) by (simp_all add: DefaultRangeCount_def word_less_nat_alt)
  obtain u g where one: "ShiftRange (SetRandomUidRange n0 NewBlankUidRange DefaultRangeCount) uid gid = Inr (u, g)"
    "unat u = unat uid + (n0 + 1) * 65536" "unat g = unat gid + (n0 + 1) * 65536"
    using random_shift [OF assms(1) lt(1,2)] by blast
  obtain u' g' where two: "ShiftRange (SetRandomUidRange n1 NewBlankUidRange DefaultRangeCount) uid' gid' = Inr (u', g')"
    "unat u' = unat uid' + (n1 + 1) * 65536" "unat g' = unat gid' + (n1 + 1) * 65536"
    using random_shift [OF assms(2) lt(3,4)] by blast
  have apart: "a + (n0 + 1) * 65536 \<noteq> b + (n1 + 1) * 65536" if "n0 \<noteq> n1" "a < 65536" "b < 65536" for a b :: nat
  proof
    assume "a + (n0 + 1) * 65536 = b + (n1 + 1) * 65536"
    moreover have "(x + m * 65536) div 65536 = m" if "x < 65536" for x m :: nat using that by simp
    ultimately show False using that by (metis add_right_cancel)
  qed
  have "unat u < 2 ^ 31" "unat g < 2 ^ 31" using one(2,3) lt assms(1) by simp_all
  moreover have "n0 = n1 \<or> u \<noteq> u' \<and> g \<noteq> g'" using apart one(2,3) two(2,3) lt by metis
  ultimately show ?thesis using one(1) two(1) by blast
qed

theorem random_ranges_disjoint_witness:
  "\<exists>u g u' g'. ShiftRange (SetRandomUidRange 0 NewBlankUidRange DefaultRangeCount) 1000 1000 = Inr (u, g) \<and>
    ShiftRange (SetRandomUidRange 0x7FFE NewBlankUidRange DefaultRangeCount) 1000 0 = Inr (u', g') \<and> u \<noteq> u' \<and> g \<noteq> g'"
  using random_ranges_disjoint [of 0 "0x7FFE" "1000" "1000" "1000" "0"] by (auto simp: DefaultRangeCount_def)

section \<open>Serialised ranges\<close>

text \<open>
  What \<^verbatim>\<open>Serialize\<close> writes \<^verbatim>\<open>Deserialize\<close> reads back, whatever the range held before.
\<close>

theorem Deserialize_Serialize: "Deserialize r0 (Serialize r) = (r, None)"
proof -
  have "scanUint32 (itoa (unat (Shift r)) @ '':'' @ itoa (unat (Count r))) = Inr (unat (Shift r), '':'' @ itoa (unat (Count r)))"
    by (rule scanUint32_itoa) (use unat_bound32 in \<open>simp_all add: isDigit_def\<close>)
  moreover have "scanUint32 (itoa (unat (Count r)) @ []) = Inr (unat (Count r), [])"
    by (rule scanUint32_itoa) (use unat_bound32 in simp_all)
  ultimately show ?thesis by (simp add: Deserialize_def Serialize_def Let_def)
qed

end
