(* ===== verification/Cgroup_Slices.thy ===== *)
theory Cgroup_Slices
  imports Kernel
begin

text \<open>
  Names of control groups, \<^verbatim>\<open>common/cgroup_util.go\<close>: the escaping of names that clash with the
  attribute files of a control group, and the path of a systemd slice. \<open>exists\<close> says which names are
  under \<^verbatim>\<open>/sys/fs/cgroup\<close>. A panic is the outcome \<open>Panic\<close>.
\<close>

section \<open>Operations\<close>

definition unitNameMax :: nat where "unitNameMax = 256"

definition contains :: "char \<Rightarrow> string \<Rightarrow> bool" where
  "contains c s \<longleftrightarrow> c \<in> set s"

definition filenameIsValid :: "string \<Rightarrow> bool" where
  "filenameIsValid p \<longleftrightarrow> \<not> (p = '''' \<or> p = ''.'' \<or> p = ''..'' \<or> contains CHR ''/'' p)"

definition checkHierarchy :: "(string \<Rightarrow> bool) \<Rightarrow> string \<Rightarrow> bool" where
  "checkHierarchy exists p = (if \<not> filenameIsValid p then True else exists p)"

definition cgEscape :: "(string \<Rightarrow> bool) \<Rightarrow> string \<Rightarrow> string" where
  "cgEscape exists p =
     (let needPrefix =
        (if hasPrefix p ''_'' \<or> hasPrefix p ''.'' \<or> p = ''notify_on_release'' \<or> p = ''release_agent'' \<or> p = ''tasks'' then True
         else if contains CHR ''.'' p then
           (let sp = splitOn CHR ''.'' p in
            if sp ! 0 = ''cgroup'' then True else checkHierarchy exists (sp ! 0))
         else False)
      in if needPrefix then ''_'' @ p else p)"

definition cgUnescape :: "string \<Rightarrow> goerr stop + string" where
  "cgUnescape p = (if p = [] then Inl (Panic ''index out of range'') else Inr (if hd p = CHR ''_'' then tl p else p))"

text \<open>The class \<^verbatim>\<open>[a-zA-Z0-9:\-_\.\\]\<close>, and the first match of one or more of it.\<close>

definition validChar :: "char \<Rightarrow> bool" where
  "validChar c \<longleftrightarrow> (let n = of_char c :: nat in
     97 \<le> n \<and> n \<le> 122 \<or> 65 \<le> n \<and> n \<le> 90 \<or> 48 \<le> n \<and> n \<le> 57 \<or> c \<in> {CHR '':'', CHR ''-'', CHR ''_'', CHR ''.'', CHR 0x5C})"

definition validChars_FindString :: "string \<Rightarrow> string" where
  "validChars_FindString n = takeWhile validChar (dropWhile (\<lambda>c. \<not> validChar c) n)"

definition sliceNameIsValid :: "string \<Rightarrow> bool" where
  "sliceNameIsValid n =
     (if n = [] then False
      else if length n \<ge> unitNameMax then False
      else if \<not> contains CHR ''.'' n then False
      else if validChars_FindString n \<noteq> n then False
      else if contains CHR ''@'' n then False
      else True)"

text \<open>\<^verbatim>\<open>strings.Index\<close> and \<^verbatim>\<open>strings.LastIndex\<close> of a character; \<open>None\<close> is -1.\<close>

fun indexOf :: "char \<Rightarrow> string \<Rightarrow> nat option" where
  "indexOf c [] = None"
| "indexOf c (x # xs) = (if x = c then Some 0 else map_option Suc (indexOf c xs))"

fun lastIndexOf :: "char \<Rightarrow> string \<Rightarrow> nat option" where
  "lastIndexOf c [] = None"
| "lastIndexOf c (x # xs) =
     (case lastIndexOf c xs of Some i \<Rightarrow> Some (Suc i) | None \<Rightarrow> if x = c then Some 0 else None)"

definition unitnameToPrefix :: "string \<Rightarrow> goerr stop + string" where
  "unitnameToPrefix unit =
     (case (case indexOf CHR ''@'' unit of Some i \<Rightarrow> Some i | None \<Rightarrow> lastIndexOf CHR ''.'' unit) of
        Some idx \<Rightarrow> Inr (take idx unit)
      | None \<Rightarrow> Inl (Panic ''slice bounds out of range''))"

text \<open>\<^verbatim>\<open>filepath.Join\<close> of a path and a proper name; an empty path is dropped.\<close>

definition joinName :: "string \<Rightarrow> string \<Rightarrow> string" where
  "joinName p n = (if p = [] then n else p @ ''/'' @ n)"

fun sliceParts :: "(string \<Rightarrow> bool) \<Rightarrow> string list \<Rightarrow> string \<Rightarrow> string \<Rightarrow> goerr stop + string" where
  "sliceParts exists [] curSlice slicePath = Inr slicePath"
| "sliceParts exists (slicePart # parts) curSlice slicePath =
     (if slicePart = [] then Inl (Fail (Msg ''trailing or double dash''))
      else
        let cur = (if curSlice \<noteq> [] then curSlice @ ''-'' else curSlice) @ slicePart;
            escaped = cgEscape exists (cur @ ''.slice'')
        in sliceParts exists parts cur (joinName slicePath escaped))"

definition SliceToPath :: "(string \<Rightarrow> bool) \<Rightarrow> string \<Rightarrow> goerr stop + string" where
  "SliceToPath exists unit =
     (if unit = ''-.slice'' then Inr ''''
      else if \<not> hasSuffix unit ''.slice'' then Inl (Fail (Msg ''not a slice''))
      else if \<not> sliceNameIsValid unit then Inl (Fail (Msg ''invalid slice name''))
      else case unitnameToPrefix unit of
        Inl e \<Rightarrow> Inl e
      | Inr pfx \<Rightarrow>
          if pfx = [] then Inl (Panic ''index out of range'')
          else if hd pfx = CHR ''-'' then Inl (Fail (Msg ''initial dash''))
          else sliceParts exists (splitOn CHR ''-'' pfx) '''' '''')"

section \<open>Escaping\<close>

lemma escape_cases: "cgEscape exists p = p \<and> \<not> hasPrefix p ''_'' \<and> \<not> hasPrefix p ''.'' \<and>
    p \<notin> {''notify_on_release'', ''release_agent'', ''tasks''} \<and> (contains CHR ''.'' p \<longrightarrow> splitOn CHR ''.'' p ! 0 \<noteq> ''cgroup'') \<or>
  cgEscape exists p = CHR ''_'' # p"
  by (simp add: cgEscape_def Let_def)

text \<open>
  Escaping can be undone, and an escaped name is never taken for a file of the control group
  itself: it is not one of the fixed attribute names, it does not begin with a dot, and not with
  \<^verbatim>\<open>cgroup.\<close> either.
\<close>

theorem cgEscape_sound:
  assumes "p \<noteq> []"
  shows "cgUnescape (cgEscape exists p) = Inr p \<and>
    cgEscape exists p \<notin> {''notify_on_release'', ''release_agent'', ''tasks''} \<and>
    \<not> hasPrefix (cgEscape exists p) ''.'' \<and> \<not> hasPrefix (cgEscape exists p) ''cgroup.''"
proof -
  have "splitOn CHR ''.'' p ! 0 = ''cgroup'' \<and> contains CHR ''.'' p" if "hasPrefix p ''cgroup.''"
  proof -
    obtain t where "p = ''cgroup'' @ CHR ''.'' # t" using \<open>hasPrefix p ''cgroup.''\<close> by (auto simp: hasPrefix_iff)
    then show ?thesis by (simp only: splitOn_append contains_def) simp
  qed
  then show ?thesis
    using escape_cases [of exists p] assms by (cases p) (auto simp: cgUnescape_def hasPrefix_def)
qed

theorem cgEscape_sound_witness:
  "cgEscape (\<lambda>n. n = ''cpu'') ''cpu.slice'' = ''_cpu.slice'' \<and> cgUnescape (cgEscape (\<lambda>n. n = ''cpu'') ''cpu.slice'') = Inr ''cpu.slice''"
proof -
  have "cgEscape (\<lambda>n. n = ''cpu'') ''cpu.slice'' = ''_cpu.slice''" by code_simp
  then show ?thesis using cgEscape_sound [of "''cpu.slice''" "\<lambda>n. n = ''cpu''"] by simp
qed

section \<open>Slices\<close>

lemma lastIndexOf_append: "c \<notin> set b \<Longrightarrow> lastIndexOf c (a @ c # b) = Some (length a)"
proof -
  assume "c \<notin> set b"
  then have "lastIndexOf c b = None" by (induction b) auto
  then show ?thesis by (induction a) auto
qed

lemma indexOf_None: "c \<notin> set s \<Longrightarrow> indexOf c s = None"
  by (induction s) auto

lemma unitnameToPrefix_slice:
  assumes "CHR ''@'' \<notin> set pfx"
  shows "unitnameToPrefix (pfx @ ''.slice'') = Inr pfx"
proof -
  have "lastIndexOf CHR ''.'' (pfx @ CHR ''.'' # ''slice'') = Some (length pfx)" by (rule lastIndexOf_append) simp
  moreover have "indexOf CHR ''@'' (pfx @ ''.slice'') = None" using assms by (intro indexOf_None) simp
  ultimately show ?thesis by (simp add: unitnameToPrefix_def)
qed

text \<open>The directories of a slice: one for every prefix of its parts.\<close>

definition sliceDirs :: "(string \<Rightarrow> bool) \<Rightarrow> string list \<Rightarrow> string list" where
  "sliceDirs exists parts = map (\<lambda>i. cgEscape exists (joinWith ''-'' (take (Suc i) parts) @ ''.slice'')) [0..<length parts]"

lemma cgEscape_nonempty: "p \<noteq> [] \<Longrightarrow> cgEscape exists p \<noteq> []"
  using escape_cases [of exists p] by auto

lemma joinWith_snoc: "joinWith sep (xs @ [x]) = (if xs = [] then x else joinWith sep xs @ sep @ x)"
  by (induction xs) (auto simp: joinWith_cons)

lemma joinWith_empty: "[] \<notin> set xs \<Longrightarrow> joinWith sep xs = [] \<longleftrightarrow> xs = []"
  by (cases xs) (auto simp: joinWith_cons)

lemma sliceDirs_snoc:
  "sliceDirs exists (parts @ [r]) = sliceDirs exists parts @ [cgEscape exists (joinWith ''-'' (parts @ [r]) @ ''.slice'')]"
  by (simp add: sliceDirs_def)

lemma sliceDirs_empty [simp]: "[] \<notin> set (sliceDirs exists parts)" "sliceDirs exists parts = [] \<longleftrightarrow> parts = []"
proof -
  have "cgEscape exists (x @ ''.slice'') \<noteq> []" for x by (rule cgEscape_nonempty) simp
  then show "[] \<notin> set (sliceDirs exists parts)" by (auto simp: sliceDirs_def) metis
qed (simp add: sliceDirs_def)

lemma sliceParts_run:
  assumes "[] \<notin> set parts"
  shows "sliceParts exists rest (joinWith ''-'' parts) (joinWith ''/'' (sliceDirs exists parts)) =
    (if [] \<in> set rest then Inl (Fail (Msg ''trailing or double dash''))
     else Inr (joinWith ''/'' (sliceDirs exists (parts @ rest))))"
  using assms
proof (induction rest arbitrary: parts)
  case (Cons r rest)
  show ?case
  proof (cases "r = []")
    case False
    have cur: "(if joinWith ''-'' parts \<noteq> [] then joinWith ''-'' parts @ ''-'' else joinWith ''-'' parts) @ r = joinWith ''-'' (parts @ [r])"
      using Cons.prems by (auto simp: joinWith_snoc joinWith_empty)
    have dirs: "joinName (joinWith ''/'' (sliceDirs exists parts)) (cgEscape exists (joinWith ''-'' (parts @ [r]) @ ''.slice'')) =
        joinWith ''/'' (sliceDirs exists (parts @ [r]))"
      by (simp add: joinName_def joinWith_snoc sliceDirs_snoc joinWith_empty)
    have "sliceParts exists (r # rest) (joinWith ''-'' parts) (joinWith ''/'' (sliceDirs exists parts)) =
        sliceParts exists rest (joinWith ''-'' (parts @ [r])) (joinWith ''/'' (sliceDirs exists (parts @ [r])))"
      using False by (simp only: sliceParts.simps Let_def cur dirs if_False)
    then show ?thesis using Cons.IH [of "parts @ [r]"] Cons.prems False by simp
  qed simp
qed simp

lemma sliceName_chars:
  assumes "sliceNameIsValid n"
  shows "CHR ''@'' \<notin> set n"
  using assms by (simp add: sliceNameIsValid_def contains_def split: if_splits)

text \<open>
  The path of a slice is the chain of its parents: for a valid name made of the parts
  \<open>p1-p2-...-pn\<close> the directories are \<open>p1\<close>, \<open>p1-p2\<close> and so on, each escaped; the root slice has the
  empty path. Every other name is an error, and the name \<^verbatim>\<open>.slice\<close> panics.
\<close>

theorem SliceToPath_spec:
  "SliceToPath exists unit =
     (if unit = ''-.slice'' then Inr ''''
      else if unit = ''.slice'' then Inl (Panic ''index out of range'')
      else if \<not> hasSuffix unit ''.slice'' then Inl (Fail (Msg ''not a slice''))
      else if \<not> sliceNameIsValid unit then Inl (Fail (Msg ''invalid slice name''))
      else let parts = splitOn CHR ''-'' (trimSuffix unit ''.slice'')
           in if hd parts = [] then Inl (Fail (Msg ''initial dash''))
              else if [] \<in> set parts then Inl (Fail (Msg ''trailing or double dash''))
              else Inr (joinWith ''/'' (sliceDirs exists parts)))"
proof (cases "hasSuffix unit ''.slice'' \<and> sliceNameIsValid unit \<and> unit \<noteq> ''-.slice''")
  case False
  have "sliceNameIsValid ''.slice''" by code_simp
  then show ?thesis using False by (auto simp: SliceToPath_def hasSuffix_def)
next
  case True
  then obtain pfx where pfx: "unit = pfx @ ''.slice''" by (auto simp: hasSuffix_iff)
  then have "unitnameToPrefix unit = Inr pfx" using True sliceName_chars [of unit] unitnameToPrefix_slice by simp
  then have run: "SliceToPath exists unit =
      (if pfx = [] then Inl (Panic ''index out of range'')
       else if hd pfx = CHR ''-'' then Inl (Fail (Msg ''initial dash''))
       else sliceParts exists (splitOn CHR ''-'' pfx) '''' '''')"
    using True by (simp add: SliceToPath_def)
  have dash: "hd (splitOn CHR ''-'' pfx) = [] \<longleftrightarrow> hd pfx = CHR ''-''" if "pfx \<noteq> []"
    using that by (cases pfx) (auto split: list.splits)
  show ?thesis
  proof (cases "pfx = []")
    case True
    then show ?thesis using run pfx by simp
  next
    case False
    have parts: "sliceParts exists (splitOn CHR ''-'' pfx) '''' '''' =
        (if [] \<in> set (splitOn CHR ''-'' pfx) then Inl (Fail (Msg ''trailing or double dash''))
         else Inr (joinWith ''/'' (sliceDirs exists (splitOn CHR ''-'' pfx))))"
      using sliceParts_run [of "[]" exists "splitOn CHR ''-'' pfx"] by (simp add: sliceDirs_def)
    have "trimSuffix unit ''.slice'' = pfx" unfolding pfx by (rule trimSuffix_append)
    moreover have "unit \<noteq> ''.slice''" using False pfx by simp
    ultimately show ?thesis using True run False dash parts by (simp add: Let_def)
  qed
qed

end
