(* ===== verification/Base64.thy ===== *)
theory Base64
  imports Appc_Types
begin

text \<open>
  \<^verbatim>\<open>base64.StdEncoding\<close> of the Go library, as the metadata service uses it for signatures: bytes to
  padded base 64 and back. The decoder skips line breaks, does not look at the unused bits before
  the padding, and rejects everything else.
\<close>

definition b64Char :: "nat \<Rightarrow> char" where
  "b64Char n =
     (if n < 26 then char_of (65 + n) else if n < 52 then char_of (71 + n) else if n < 62 then char_of (n - 4)
      else if n = 62 then CHR ''+'' else CHR ''/'')"

definition b64Val :: "char \<Rightarrow> nat option" where
  "b64Val c = (let n = of_char c :: nat in
     if 65 \<le> n \<and> n \<le> 90 then Some (n - 65)
     else if 97 \<le> n \<and> n \<le> 122 then Some (n - 71)
     else if 48 \<le> n \<and> n \<le> 57 then Some (n + 4)
     else if c = CHR ''+'' then Some 62
     else if c = CHR ''/'' then Some 63
     else None)"

text \<open>Three bytes as four groups of six bits, and back.\<close>

definition sextet1 :: "8 word \<Rightarrow> nat" where "sextet1 a = unat a div 4"
definition sextet2 :: "8 word \<Rightarrow> 8 word \<Rightarrow> nat" where "sextet2 a b = unat a mod 4 * 16 + unat b div 16"
definition sextet3 :: "8 word \<Rightarrow> 8 word \<Rightarrow> nat" where "sextet3 b c = unat b mod 16 * 4 + unat c div 64"
definition sextet4 :: "8 word \<Rightarrow> nat" where "sextet4 c = unat c mod 64"

definition octet1 :: "nat \<Rightarrow> nat \<Rightarrow> 8 word" where "octet1 p q = word_of_nat (p * 4 + q div 16)"
definition octet2 :: "nat \<Rightarrow> nat \<Rightarrow> 8 word" where "octet2 q r = word_of_nat (q mod 16 * 16 + r div 4)"
definition octet3 :: "nat \<Rightarrow> nat \<Rightarrow> 8 word" where "octet3 r t = word_of_nat (r mod 4 * 64 + t)"

fun base64Encode :: "8 word list \<Rightarrow> string" where
  "base64Encode [] = []"
| "base64Encode [a] = [b64Char (sextet1 a), b64Char (sextet2 a 0), CHR ''='', CHR ''='']"
| "base64Encode [a, b] = [b64Char (sextet1 a), b64Char (sextet2 a b), b64Char (sextet3 b 0), CHR ''='']"
| "base64Encode (a # b # c # bs) =
     b64Char (sextet1 a) # b64Char (sextet2 a b) # b64Char (sextet3 b c) # b64Char (sextet4 c) # base64Encode bs"

fun decodeQuads :: "string \<Rightarrow> 8 word list option" where
  "decodeQuads [] = Some []"
| "decodeQuads (w # x # y # z # cs) =
     (case (b64Val w, b64Val x) of
        (Some p, Some q) \<Rightarrow>
          if cs = [] \<and> z = CHR ''='' then
            (if y = CHR ''='' then Some [octet1 p q]
             else map_option (\<lambda>r. [octet1 p q, octet2 q r]) (b64Val y))
          else
            (case (b64Val y, b64Val z) of
               (Some r, Some t) \<Rightarrow> map_option (\<lambda>bs. octet1 p q # octet2 q r # octet3 r t # bs) (decodeQuads cs)
             | _ \<Rightarrow> None)
      | _ \<Rightarrow> None)"
| "decodeQuads _ = None"

definition base64Decode :: "string \<Rightarrow> 8 word list option" where
  "base64Decode s = decodeQuads (filter (\<lambda>c. c \<noteq> CHR 0x0A \<and> c \<noteq> CHR 0x0D) s)"

lemma of_char_b64Char:
  "n < 64 \<Longrightarrow> (of_char (b64Char n) :: nat) =
     (if n < 26 then 65 + n else if n < 52 then 71 + n else if n < 62 then n - 4 else if n = 62 then 43 else 47)"
  by (simp add: b64Char_def)

lemma b64Char_neq:
  assumes "n < 64" and "(of_char c :: nat) \<notin> {43} \<union> {47..57} \<union> {65..90} \<union> {97..122}"
  shows "b64Char n \<noteq> c"
  using assms of_char_b64Char [OF assms(1)] by (auto split: if_splits)

lemma b64_facts [simp]:
  "n < 64 \<Longrightarrow> b64Val (b64Char n) = Some n" "n < 64 \<Longrightarrow> b64Char n \<noteq> CHR ''=''"
  "n < 64 \<Longrightarrow> b64Char n \<noteq> CHR 0x0A" "n < 64 \<Longrightarrow> b64Char n \<noteq> CHR 0x0D"
proof -
  assume n: "n < 64"
  show "b64Val (b64Char n) = Some n"
  proof (cases "n < 62")
    case True
    then show ?thesis using of_char_b64Char [OF n] by (auto simp: b64Val_def Let_def)
  next
    case False
    then have "n = 62 \<or> n = 63" using n by linarith
    then show ?thesis by (auto simp: b64Val_def b64Char_def)
  qed
qed (rule b64Char_neq; simp)+

lemma byte_bound: "unat w < 256" for w :: "8 word"
  using unsigned_less [of w] by simp

lemma sixbits [simp]: "sextet1 a < 64" "sextet2 a b < 64" "sextet3 b c < 64" "sextet4 c < 64"
  unfolding sextet1_def sextet2_def sextet3_def sextet4_def
  using byte_bound [of a] byte_bound [of b] byte_bound [of c] by (simp_all add: less_mult_imp_div_less)

lemma octets_again [simp]:
  "octet1 (sextet1 a) (sextet2 a b) = a" "octet2 (sextet2 a b) (sextet3 b c) = b" "octet3 (sextet3 b c) (sextet4 c) = c"
proof -
  have small: "unat b div 16 < 16" "unat c div 64 < 4"
    using byte_bound [of b] byte_bound [of c] by (simp_all add: less_mult_imp_div_less)
  have "sextet1 a * 4 + sextet2 a b div 16 = unat a" using small by (simp add: sextet1_def sextet2_def)
  then show "octet1 (sextet1 a) (sextet2 a b) = a" by (simp only: octet1_def) simp
  have "sextet2 a b mod 16 * 16 + sextet3 b c div 4 = unat b" using small by (simp add: sextet2_def sextet3_def)
  then show "octet2 (sextet2 a b) (sextet3 b c) = b" unfolding octet2_def by (simp only:) simp
  have "sextet3 b c mod 4 * 64 + sextet4 c = unat c" using small by (simp add: sextet3_def sextet4_def)
  then show "octet3 (sextet3 b c) (sextet4 c) = c" unfolding octet3_def by (simp only:) simp
qed

lemma decodeQuads_encode: "decodeQuads (base64Encode bs) = Some bs"
  by (induction bs rule: base64Encode.induct) simp_all

lemma encode_no_breaks: "filter (\<lambda>c. c \<noteq> CHR 0x0A \<and> c \<noteq> CHR 0x0D) (base64Encode bs) = base64Encode bs"
  by (induction bs rule: base64Encode.induct) simp_all

lemma base64_roundtrip: "base64Decode (base64Encode bs) = Some bs"
  by (simp add: base64Decode_def encode_no_breaks decodeQuads_encode)

end
