(* ===== verification/Metadata_Service.thy ===== *)
theory Metadata_Service
  imports Kernel Appc_Schema Base64
begin

text \<open>
  The metadata service, \<^verbatim>\<open>rkt/metadata_service.go\<close>: pods are registered over a private socket and then
  served, under a token, to the apps inside them. The two maps of the pod store hold pointers to the
  same objects, so the objects are in a heap. The JSON codecs and the keyed hash are parameters; a
  request comes with the variables that the router found in its path.
\<close>

section \<open>The pod store\<close>

record mdsPod =
  mp_uuid :: UUID
  mp_token :: string
  mp_manifest :: PodManifest
  mp_apps :: "string \<Rightarrow> ImageManifest option"

record podStore =
  podHeap :: "nat \<Rightarrow> mdsPod"
  nextPod :: nat
  byToken :: "string \<Rightarrow> nat option"
  byUUID :: "UUID \<Rightarrow> nat option"

datatype mdsErr = ErrPodNotFound | ErrAppNotFound

type_synonym 'a mdsio = "(podStore, mdsErr, 'a) io"

definition blankPod :: mdsPod where
  "blankPod = \<lparr>mp_uuid = [], mp_token = [], mp_manifest = \<lparr>pm_Apps = [], pm_Annotations = []\<rparr>, mp_apps = Map.empty\<rparr>"

definition newPodStore :: podStore where
  "newPodStore = \<lparr>podHeap = \<lambda>_. blankPod, nextPod = 0, byToken = Map.empty, byUUID = Map.empty\<rparr>"

definition addPod :: "UUID \<Rightarrow> string \<Rightarrow> PodManifest \<Rightarrow> unit mdsio" where
  "addPod u token manifest ps =
     (let p = nextPod ps in
      (ps\<lparr>podHeap := (podHeap ps)(p := \<lparr>mp_uuid = u, mp_token = token, mp_manifest = manifest, mp_apps = Map.empty\<rparr>),
          nextPod := Suc p, byUUID := (byUUID ps)(u \<mapsto> p), byToken := (byToken ps)(token \<mapsto> p)\<rparr>, Inr ()))"

definition addApp :: "UUID \<Rightarrow> string \<Rightarrow> ImageManifest \<Rightarrow> unit mdsio" where
  "addApp u app manifest ps =
     (case byUUID ps u of
        None \<Rightarrow> (ps, Inl (Fail ErrPodNotFound))
      | Some p \<Rightarrow>
          (ps\<lparr>podHeap := (podHeap ps)(p := (podHeap ps p)\<lparr>mp_apps := (mp_apps (podHeap ps p))(app \<mapsto> manifest)\<rparr>)\<rparr>, Inr ()))"

definition removePodEntry :: "UUID \<Rightarrow> unit mdsio" where
  "removePodEntry u ps =
     (case byUUID ps u of
        None \<Rightarrow> (ps, Inl (Fail ErrPodNotFound))
      | Some p \<Rightarrow>
          (ps\<lparr>byUUID := (byUUID ps)(u := None), byToken := (byToken ps)(mp_token (podHeap ps p) := None)\<rparr>, Inr ()))"

definition getUUID :: "string \<Rightarrow> UUID mdsio" where
  "getUUID token ps =
     (case byToken ps token of None \<Rightarrow> (ps, Inl (Fail ErrPodNotFound)) | Some p \<Rightarrow> (ps, Inr (mp_uuid (podHeap ps p))))"

definition getPodManifest :: "string \<Rightarrow> PodManifest mdsio" where
  "getPodManifest token ps =
     (case byToken ps token of None \<Rightarrow> (ps, Inl (Fail ErrPodNotFound)) | Some p \<Rightarrow> (ps, Inr (mp_manifest (podHeap ps p))))"

definition getManifests :: "string \<Rightarrow> string \<Rightarrow> (PodManifest \<times> ImageManifest) mdsio" where
  "getManifests token an ps =
     (case byToken ps token of
        None \<Rightarrow> (ps, Inl (Fail ErrPodNotFound))
      | Some p \<Rightarrow>
          (case mp_apps (podHeap ps p) an of
             None \<Rightarrow> (ps, Inl (Fail ErrAppNotFound))
           | Some im \<Rightarrow> (ps, Inr (mp_manifest (podHeap ps p), im))))"

section \<open>Requests and replies\<close>

record request =
  vars :: "string \<Rightarrow> string option"
  queryVals :: "string \<Rightarrow> string list"
  formValue :: "string \<Rightarrow> string"
  reqBody :: string

record reply =
  status :: nat
  contentType :: string
  sent :: string

text \<open>The codecs, and the hash under the key that the service made up when it started.\<close>

record mdsCodec =
  decodePodManifest :: "string \<Rightarrow> string + PodManifest"
  decodeImageManifest :: "string \<Rightarrow> string + ImageManifest"
  encodePodManifest :: "PodManifest \<Rightarrow> string"
  encodeImageManifest :: "ImageManifest \<Rightarrow> string"
  hmac512 :: "8 word list \<Rightarrow> 8 word list"

definition pathVar :: "request \<Rightarrow> string \<Rightarrow> string" where
  "pathVar r n = (case vars r n of None \<Rightarrow> '''' | Some v \<Rightarrow> v)"

definition queryValue :: "request \<Rightarrow> string \<Rightarrow> string" where
  "queryValue r key = (case queryVals r key of [v] \<Rightarrow> v | _ \<Rightarrow> '''')"

definition answer :: "nat \<Rightarrow> string \<Rightarrow> string \<Rightarrow> reply mdsio" where
  "answer st ct d = ret \<lparr>status = st, contentType = ct, sent = d\<rparr>"

definition StatusOK :: nat where "StatusOK = 200"
definition StatusBadRequest :: nat where "StatusBadRequest = 400"
definition StatusUnauthorized :: nat where "StatusUnauthorized = 401"
definition StatusForbidden :: nat where "StatusForbidden = 403"
definition StatusNotFound :: nat where "StatusNotFound = 404"

definition newline :: string where "newline = [CHR 0x0A]"

fun errText :: "mdsErr \<Rightarrow> string" where
  "errText ErrPodNotFound = ''pod not found''"
| "errText ErrAppNotFound = ''app not found''"

section \<open>Registration\<close>

definition handleRegisterPod :: "mdsCodec \<Rightarrow> request \<Rightarrow> reply mdsio" where
  "handleRegisterPod cd r =
     (case NewUUID (pathVar r ''uuid'') of
        Inl e \<Rightarrow> answer StatusBadRequest '''' (''UUID is missing or malformed: '' @ e)
      | Inr uuid \<Rightarrow>
          let token = queryValue r ''token'' in
          if token = '''' then answer StatusBadRequest '''' ''token missing''
          else case decodePodManifest cd (reqBody r) of
            Inl e \<Rightarrow> answer StatusBadRequest '''' (''JSON-decoding failed: '' @ e)
          | Inr pm \<Rightarrow> bindIO (addPod uuid token pm) (\<lambda>_. answer StatusOK '''' ''''))"

definition handleUnregisterPod :: "request \<Rightarrow> reply mdsio" where
  "handleUnregisterPod r =
     (case NewUUID (pathVar r ''uuid'') of
        Inl e \<Rightarrow> answer StatusBadRequest '''' (''UUID is missing or malformed: '' @ e)
      | Inr uuid \<Rightarrow>
          tryIO (removePodEntry uuid) (\<lambda>x.
          case x of Inl e \<Rightarrow> answer StatusNotFound '''' (errText e) | Inr _ \<Rightarrow> answer StatusOK '''' ''''))"

definition handleRegisterApp :: "mdsCodec \<Rightarrow> request \<Rightarrow> reply mdsio" where
  "handleRegisterApp cd r =
     (case NewUUID (pathVar r ''uuid'') of
        Inl e \<Rightarrow> answer StatusBadRequest '''' (''UUID is missing or malformed: '' @ e)
      | Inr uuid \<Rightarrow>
          let an = pathVar r ''app'' in
          if an = '''' then answer StatusBadRequest '''' ''app missing''
          else case decodeImageManifest cd (reqBody r) of
            Inl e \<Rightarrow> answer StatusBadRequest '''' (''JSON-decoding failed: '' @ e)
          | Inr im \<Rightarrow>
              tryIO (addApp uuid an im) (\<lambda>x.
              case x of
                Inl e \<Rightarrow> answer StatusNotFound '''' ''Pod with given UUID not found''
              | Inr _ \<Rightarrow> answer StatusOK '''' ''''))"

section \<open>Queries of the apps\<close>

definition podGet :: "(request \<Rightarrow> PodManifest \<Rightarrow> reply mdsio) \<Rightarrow> request \<Rightarrow> reply mdsio" where
  "podGet h r =
     tryIO (getPodManifest (pathVar r ''token'')) (\<lambda>x.
     case x of Inl e \<Rightarrow> answer StatusUnauthorized '''' (errText e @ newline) | Inr pm \<Rightarrow> h r pm)"

definition appGet :: "(request \<Rightarrow> PodManifest \<Rightarrow> ImageManifest \<Rightarrow> reply mdsio) \<Rightarrow> request \<Rightarrow> reply mdsio" where
  "appGet h r =
     (let an = pathVar r ''app'' in
      if an = '''' then answer StatusBadRequest '''' ''app missing''
      else
        tryIO (getManifests (pathVar r ''token'') an) (\<lambda>x.
        case x of
          Inr (pm, im) \<Rightarrow> h r pm im
        | Inl ErrPodNotFound \<Rightarrow> answer StatusUnauthorized '''' (errText ErrPodNotFound @ newline)
        | Inl e \<Rightarrow> answer StatusNotFound '''' (errText e @ newline)))"

text \<open>The loop is over the indices of the list, and it prints the indices.\<close>

definition handlePodAnnotations :: "request \<Rightarrow> PodManifest \<Rightarrow> reply mdsio" where
  "handlePodAnnotations r pm =
     answer StatusOK ''text/plain'' (concat (map (\<lambda>k. itoa k @ newline) [0..<length (pm_Annotations pm)]))"

definition handlePodAnnotation :: "request \<Rightarrow> PodManifest \<Rightarrow> reply mdsio" where
  "handlePodAnnotation r pm =
     (case NewACIdentifier (pathVar r ''name'') of
        Inl e \<Rightarrow> answer StatusBadRequest '''' (''Pod annotation '' @ quoted (pathVar r ''name'') @ '' is not a valid AC Identifier'')
      | Inr k \<Rightarrow>
          (case Annotations_Get (pm_Annotations pm) k of
             None \<Rightarrow> answer StatusNotFound '''' (''Pod annotation '' @ quoted k @ '' not found'')
           | Some v \<Rightarrow> answer StatusOK ''text/plain'' v))"

definition handlePodManifest :: "mdsCodec \<Rightarrow> request \<Rightarrow> PodManifest \<Rightarrow> reply mdsio" where
  "handlePodManifest cd r pm = answer StatusOK ''application/json'' (encodePodManifest cd pm)"

definition handlePodUUID :: "request \<Rightarrow> reply mdsio" where
  "handlePodUUID r =
     tryIO (getUUID (pathVar r ''token'')) (\<lambda>x.
     case x of
       Inl e \<Rightarrow> answer StatusUnauthorized '''' (errText e @ newline)
     | Inr uuid \<Rightarrow> answer StatusOK ''text/plain'' (UUID_String uuid))"

definition setAll :: "Annotation list \<Rightarrow> Annotation list \<Rightarrow> Annotation list" where
  "setAll merged annots = fold (\<lambda>annot m. Annotations_Set m (a_Name annot) (a_Value annot)) annots merged"

definition mergeAppAnnotations :: "ImageManifest \<Rightarrow> PodManifest \<Rightarrow> string \<Rightarrow> Annotation list" where
  "mergeAppAnnotations im pm appName =
     (let merged = setAll [] (im_Annotations im) in
      case AppList_Get (pm_Apps pm) appName of None \<Rightarrow> merged | Some app \<Rightarrow> setAll merged (ra_Annotations app))"

definition handleAppAnnotations :: "request \<Rightarrow> PodManifest \<Rightarrow> ImageManifest \<Rightarrow> reply mdsio" where
  "handleAppAnnotations r pm im =
     (case NewACName (pathVar r ''app'') of
        Inl e \<Rightarrow> answer StatusBadRequest '''' (''App name '' @ quoted (pathVar r ''app'') @ '' is not a valid AC Name'')
      | Inr an \<Rightarrow>
          answer StatusOK ''text/plain'' (concat (map (\<lambda>annot. a_Name annot @ newline) (mergeAppAnnotations im pm an))))"

definition handleAppAnnotation :: "request \<Rightarrow> PodManifest \<Rightarrow> ImageManifest \<Rightarrow> reply mdsio" where
  "handleAppAnnotation r pm im =
     (case NewACIdentifier (pathVar r ''name'') of
        Inl e \<Rightarrow> answer StatusBadRequest '''' (''App annotation name '' @ quoted (pathVar r ''name'') @ '' is not a valid AC Identifier'')
      | Inr k \<Rightarrow>
          (case NewACName (pathVar r ''app'') of
             Inl e \<Rightarrow> answer StatusBadRequest '''' (''App name '' @ quoted (pathVar r ''app'') @ '' is not a valid AC Name'')
           | Inr an \<Rightarrow>
               (case Annotations_Get (mergeAppAnnotations im pm an) k of
                  None \<Rightarrow> answer StatusNotFound '''' (''App annotation '' @ quoted k @ '' not found'')
                | Some v \<Rightarrow> answer StatusOK ''text/plain'' v)))"

definition handleImageManifest :: "mdsCodec \<Rightarrow> request \<Rightarrow> PodManifest \<Rightarrow> ImageManifest \<Rightarrow> reply mdsio" where
  "handleImageManifest cd r pm im = answer StatusOK ''application/json'' (encodeImageManifest cd im)"

definition handleAppID :: "request \<Rightarrow> PodManifest \<Rightarrow> ImageManifest \<Rightarrow> reply mdsio" where
  "handleAppID r pm im =
     (case NewACName (pathVar r ''app'') of
        Inl e \<Rightarrow> answer StatusBadRequest '''' (''App name '' @ quoted (pathVar r ''app'') @ '' is not a valid AC Name'')
      | Inr an \<Rightarrow>
          (case AppList_Get (pm_Apps pm) an of
             None \<Rightarrow> panic ''could not find app in manifest!''
           | Some app \<Rightarrow> answer StatusOK ''text/plain'' (Hash_String (ra_image app))))"

section \<open>Signatures\<close>

definition bytesOf :: "string \<Rightarrow> 8 word list" where
  "bytesOf s = map of_char s"

definition signature :: "mdsCodec \<Rightarrow> UUID \<Rightarrow> string \<Rightarrow> 8 word list" where
  "signature cd uuid content = hmac512 cd (uuid @ bytesOf content)"

definition handlePodSign :: "mdsCodec \<Rightarrow> request \<Rightarrow> reply mdsio" where
  "handlePodSign cd r =
     tryIO (getUUID (pathVar r ''token'')) (\<lambda>x.
     case x of
       Inl e \<Rightarrow> answer StatusUnauthorized '''' (errText e @ newline)
     | Inr uuid \<Rightarrow>
         let content = formValue r ''content'' in
         if content = '''' then answer StatusBadRequest '''' ''content form value not found''
         else answer StatusOK ''text/plain'' (base64Encode (signature cd uuid content)))"

definition handlePodVerify :: "mdsCodec \<Rightarrow> request \<Rightarrow> reply mdsio" where
  "handlePodVerify cd r =
     (case NewUUID (formValue r ''uid'') of
        Inl e \<Rightarrow> answer StatusBadRequest '''' (''uid field missing or malformed: '' @ e)
      | Inr uuid \<Rightarrow>
          let content = formValue r ''content'' in
          if content = '''' then answer StatusBadRequest '''' ''content field missing''
          else case base64Decode (formValue r ''signature'') of
            None \<Rightarrow> answer StatusBadRequest '''' ''signature field missing or corrupt''
          | Some sig \<Rightarrow>
              if sig = signature cd uuid content then answer StatusOK '''' '''' else answer StatusForbidden '''' '''')"

section \<open>Routes\<close>

datatype privateRoute = PutPod | DeletePod | PutApp

fun registrationServer :: "mdsCodec \<Rightarrow> privateRoute \<Rightarrow> request \<Rightarrow> reply mdsio" where
  "registrationServer cd PutPod = handleRegisterPod cd"
| "registrationServer cd DeletePod = handleUnregisterPod"
| "registrationServer cd PutApp = handleRegisterApp cd"

datatype publicRoute =
    PodAnnotationsR | PodAnnotationR | PodManifestR | PodUUIDR | AppAnnotationsR | AppAnnotationR | ImageManifestR | AppIDR
  | SignR | VerifyR

fun publicServer :: "mdsCodec \<Rightarrow> publicRoute \<Rightarrow> request \<Rightarrow> reply mdsio" where
  "publicServer cd PodAnnotationsR = podGet handlePodAnnotations"
| "publicServer cd PodAnnotationR = podGet handlePodAnnotation"
| "publicServer cd PodManifestR = podGet (handlePodManifest cd)"
| "publicServer cd PodUUIDR = handlePodUUID"
| "publicServer cd AppAnnotationsR = appGet handleAppAnnotations"
| "publicServer cd AppAnnotationR = appGet handleAppAnnotation"
| "publicServer cd ImageManifestR = appGet (handleImageManifest cd)"
| "publicServer cd AppIDR = appGet handleAppID"
| "publicServer cd SignR = handlePodSign cd"
| "publicServer cd VerifyR = handlePodVerify cd"

end
