(* ===== verification/Metadata_Facts.thy ===== *)
theory Metadata_Facts
  imports Metadata_Service
begin

text \<open>
  What the metadata service promises: with tokens that are not reused, a token is good for exactly
  the pod that is registered with it; without a good token nothing is disclosed; signatures verify,
  and only for the pod and the content they were made for; annotations of an app override those of
  its image. Where registrations repeat, the promises fail, which is shown too.
\<close>

section \<open>The registry\<close>

text \<open>
  What the handlers rely on: \<open>view\<close> gives the pods by their UUID, \<open>find\<close> the pod of a token, and tokens
  identify pods.
\<close>

locale registry =
  fixes inv :: "'s \<Rightarrow> bool" and view :: "'s \<Rightarrow> 'u \<Rightarrow> 'p option" and tok :: "'p \<Rightarrow> string" and find :: "'s \<Rightarrow> string \<Rightarrow> 'p option"
  assumes find_iff: "inv s \<Longrightarrow> find s t = Some p \<longleftrightarrow> (\<exists>u. view s u = Some p \<and> tok p = t)"
    and tok_inj: "inv s \<Longrightarrow> view s u = Some p \<Longrightarrow> view s v = Some q \<Longrightarrow> tok p = tok q \<Longrightarrow> u = v"
begin

lemma find_None: "inv s \<Longrightarrow> find s t = None \<longleftrightarrow> (\<forall>u p. view s u = Some p \<longrightarrow> tok p \<noteq> t)"
  using find_iff [of s t] by (metis not_None_eq)

lemma find_owner:
  assumes "inv s" and "view s u = Some p"
  shows "find s (tok p) = Some p"
  using assms find_iff by blast

lemma owner_unique:
  assumes "inv s" and "find s t = Some p" and "view s u = Some q" and "tok q = t"
  shows "q = p"
  using assms find_iff tok_inj by (metis option.inject)

end

text \<open>The pods of a store, by UUID and by token.\<close>

definition podOf :: "podStore \<Rightarrow> UUID \<Rightarrow> mdsPod option" where
  "podOf ps u = map_option (podHeap ps) (byUUID ps u)"

definition podFor :: "podStore \<Rightarrow> string \<Rightarrow> mdsPod option" where
  "podFor ps t = map_option (podHeap ps) (byToken ps t)"

text \<open>The two maps agree, and pointers are to different objects.\<close>

definition tidy :: "podStore \<Rightarrow> bool" where
  "tidy ps \<longleftrightarrow>
     (\<forall>u p. byUUID ps u = Some p \<longrightarrow> p < nextPod ps \<and> mp_uuid (podHeap ps p) = u \<and> byToken ps (mp_token (podHeap ps p)) = Some p) \<and>
     (\<forall>t p. byToken ps t = Some p \<longrightarrow> mp_token (podHeap ps p) = t \<and> byUUID ps (mp_uuid (podHeap ps p)) = Some p)"

lemma tidy_uuid:
  assumes "tidy ps" and "byUUID ps u = Some p"
  shows "p < nextPod ps" "mp_uuid (podHeap ps p) = u" "byToken ps (mp_token (podHeap ps p)) = Some p"
  using assms by (simp_all add: tidy_def)

lemma tidy_token:
  assumes "tidy ps" and "byToken ps t = Some p"
  shows "mp_token (podHeap ps p) = t" "byUUID ps (mp_uuid (podHeap ps p)) = Some p"
  using assms by (simp_all add: tidy_def)

lemma pointers_inj:
  assumes "tidy ps" and "byUUID ps v = Some n" and "byUUID ps u = Some p"
  shows "n = p \<longleftrightarrow> v = u"
proof
  assume "n = p"
  then have "mp_uuid (podHeap ps n) = mp_uuid (podHeap ps p)" by (rule arg_cong)
  then show "v = u" unfolding tidy_uuid(2) [OF assms(1,2)] tidy_uuid(2) [OF assms(1,3)] .
next
  show "v = u \<Longrightarrow> n = p" using assms(2,3) by simp
qed

interpretation mds: registry tidy podOf mp_token podFor
proof unfold_locales
  fix s t p assume t: "tidy s"
  show "podFor s t = Some p \<longleftrightarrow> (\<exists>u. podOf s u = Some p \<and> mp_token p = t)"
  proof
    assume "podFor s t = Some p"
    then obtain n where "byToken s t = Some n" "p = podHeap s n" by (auto simp: podFor_def)
    then have "podOf s (mp_uuid p) = Some p" "mp_token p = t" using tidy_token [OF t] by (auto simp: podOf_def)
    then show "\<exists>u. podOf s u = Some p \<and> mp_token p = t" by blast
  next
    assume "\<exists>u. podOf s u = Some p \<and> mp_token p = t"
    then obtain u n where "byUUID s u = Some n" "p = podHeap s n" "mp_token p = t" by (auto simp: podOf_def)
    then show "podFor s t = Some p" using tidy_uuid(3) [OF t] by (auto simp: podFor_def)
  qed
next
  fix s u p v q assume t: "tidy s" and p: "podOf s u = Some p" and q: "podOf s v = Some q" and tok: "mp_token p = mp_token q"
  obtain n m where "byUUID s u = Some n" "p = podHeap s n" "byUUID s v = Some m" "q = podHeap s m"
    using p q by (auto simp: podOf_def)
  then show "u = v" using tidy_uuid [OF t] tok by (metis option.inject)
qed

lemma tidy_new: "tidy newPodStore"
  by (simp add: tidy_def newPodStore_def)

text \<open>A registration that takes neither a UUID nor a token that is in use.\<close>

lemma addPod_tidy:
  assumes "tidy ps" and "byUUID ps u = None" and "byToken ps token = None" and "addPod u token pm ps = (ps', r)"
  shows "tidy ps' \<and> podOf ps' = (podOf ps)(u \<mapsto> \<lparr>mp_uuid = u, mp_token = token, mp_manifest = pm, mp_apps = Map.empty\<rparr>)"
proof -
  have old: "p < nextPod ps" if "byUUID ps v = Some p \<or> byToken ps t = Some p" for v t p
    using tidy_uuid(1) [OF assms(1)] tidy_token(2) [OF assms(1)] that by blast
  have ps': "ps' = ps\<lparr>podHeap := (podHeap ps)(nextPod ps := \<lparr>mp_uuid = u, mp_token = token, mp_manifest = pm, mp_apps = Map.empty\<rparr>),
      nextPod := Suc (nextPod ps), byUUID := (byUUID ps)(u \<mapsto> nextPod ps), byToken := (byToken ps)(token \<mapsto> nextPod ps)\<rparr>"
    using assms(4) by (simp add: addPod_def Let_def)
  have "tidy ps'"
    unfolding tidy_def
  proof (intro conjI allI impI)
    fix v n assume n: "byUUID ps' v = Some n"
    then have "v = u \<and> n = nextPod ps \<or> v \<noteq> u \<and> byUUID ps v = Some n" by (auto simp: ps' split: if_splits)
    then show "n < nextPod ps'" "mp_uuid (podHeap ps' n) = v" "byToken ps' (mp_token (podHeap ps' n)) = Some n"
      using tidy_uuid [OF assms(1), of v n] assms(3) by (auto simp: ps')
  next
    fix t n assume n: "byToken ps' t = Some n"
    then have "t = token \<and> n = nextPod ps \<or> t \<noteq> token \<and> byToken ps t = Some n" by (auto simp: ps' split: if_splits)
    then show "mp_token (podHeap ps' n) = t" "byUUID ps' (mp_uuid (podHeap ps' n)) = Some n"
      using tidy_token [OF assms(1), of t n] old assms(2) by (auto simp: ps')
  qed
  moreover have "podOf ps' = (podOf ps)(u \<mapsto> \<lparr>mp_uuid = u, mp_token = token, mp_manifest = pm, mp_apps = Map.empty\<rparr>)"
  proof
    fix v show "podOf ps' v = ((podOf ps)(u \<mapsto> \<lparr>mp_uuid = u, mp_token = token, mp_manifest = pm, mp_apps = Map.empty\<rparr>)) v"
      using old by (cases "byUUID ps v") (auto simp: podOf_def ps')
  qed
  ultimately show ?thesis by simp
qed

lemma addApp_tidy:
  assumes "tidy ps" and "addApp u app im ps = (ps', r)"
  shows "tidy ps' \<and> podOf ps' = (case podOf ps u of None \<Rightarrow> podOf ps
    | Some p \<Rightarrow> (podOf ps)(u \<mapsto> p\<lparr>mp_apps := (mp_apps p)(app \<mapsto> im)\<rparr>)) \<and> (isl r \<longleftrightarrow> podOf ps u = None)"
proof (cases "byUUID ps u")
  case None
  then show ?thesis using assms by (auto simp: addApp_def podOf_def)
next
  case (Some p)
  let ?q = "(podHeap ps p)\<lparr>mp_apps := (mp_apps (podHeap ps p))(app \<mapsto> im)\<rparr>"
  have ps': "ps' = ps\<lparr>podHeap := (podHeap ps)(p := ?q)\<rparr>" "r = Inr ()" using assms(2) Some by (simp_all add: addApp_def)
  have same: "mp_uuid (podHeap ps' n) = mp_uuid (podHeap ps n)" "mp_token (podHeap ps' n) = mp_token (podHeap ps n)"
    "nextPod ps' = nextPod ps" "byUUID ps' = byUUID ps" "byToken ps' = byToken ps" for n
    by (simp_all add: ps')
  have "tidy ps'" using assms(1) by (simp only: tidy_def same)
  moreover have "podOf ps' v = ((podOf ps)(u \<mapsto> ?q)) v" for v
  proof (cases "byUUID ps v")
    case (Some n)
    have "n = p \<longleftrightarrow> v = u" using pointers_inj [OF assms(1) Some \<open>byUUID ps u = Some p\<close>] .
    then show ?thesis using Some by (simp add: podOf_def ps')
  next
    case None
    then have "v \<noteq> u" using \<open>byUUID ps u = Some p\<close> by auto
    then show ?thesis using None by (simp add: podOf_def same)
  qed
  ultimately show ?thesis using Some by (simp add: podOf_def fun_eq_iff ps'(2))
qed

lemma remove_tidy:
  assumes "tidy ps" and "removePodEntry u ps = (ps', r)"
  shows "tidy ps' \<and> podOf ps' = (podOf ps)(u := None) \<and> (isl r \<longleftrightarrow> podOf ps u = None)"
proof (cases "byUUID ps u")
  case None
  then show ?thesis using assms by (auto simp: removePodEntry_def podOf_def fun_eq_iff)
next
  case (Some p)
  have ps': "ps' = ps\<lparr>byUUID := (byUUID ps)(u := None), byToken := (byToken ps)(mp_token (podHeap ps p) := None)\<rparr>" "r = Inr ()"
    using assms(2) Some by (simp_all add: removePodEntry_def)
  have "tidy ps'"
    unfolding tidy_def
  proof (intro conjI allI impI)
    fix v n assume "byUUID ps' v = Some n"
    then have v: "v \<noteq> u" "byUUID ps v = Some n" by (auto simp: ps' split: if_splits)
    moreover have "mp_token (podHeap ps n) \<noteq> mp_token (podHeap ps p)"
      using tidy_uuid(3) [OF assms(1) v(2)] tidy_uuid(3) [OF assms(1) Some] pointers_inj [OF assms(1) v(2) Some] v(1)
      by (metis option.inject)
    ultimately show "n < nextPod ps'" "mp_uuid (podHeap ps' n) = v" "byToken ps' (mp_token (podHeap ps' n)) = Some n"
      using tidy_uuid [OF assms(1) v(2)] by (auto simp: ps')
  next
    fix t n assume "byToken ps' t = Some n"
    then have t: "t \<noteq> mp_token (podHeap ps p)" "byToken ps t = Some n" by (auto simp: ps' split: if_splits)
    moreover have "mp_uuid (podHeap ps n) \<noteq> u"
      using tidy_token [OF assms(1) t(2)] t(1) Some by (metis option.inject)
    ultimately show "mp_token (podHeap ps' n) = t" "byUUID ps' (mp_uuid (podHeap ps' n)) = Some n"
      using tidy_token [OF assms(1) t(2)] by (auto simp: ps')
  qed
  then show ?thesis using Some ps' by (auto simp: podOf_def fun_eq_iff)
qed

section \<open>Histories of registrations\<close>

fun serve :: "mdsCodec \<Rightarrow> (privateRoute \<times> request) list \<Rightarrow> podStore \<Rightarrow> podStore" where
  "serve cd [] ps = ps"
| "serve cd ((rt, r) # h) ps = serve cd h (fst (registrationServer cd rt r ps))"

text \<open>What a registration means: a map from UUIDs to pods.\<close>

fun registered :: "mdsCodec \<Rightarrow> privateRoute \<Rightarrow> request \<Rightarrow> (UUID \<Rightarrow> mdsPod option) \<Rightarrow> UUID \<Rightarrow> mdsPod option" where
  "registered cd PutPod r m =
     (case (NewUUID (pathVar r ''uuid''), decodePodManifest cd (reqBody r)) of
        (Inr u, Inr pm) \<Rightarrow>
          if queryValue r ''token'' = '''' then m
          else m(u \<mapsto> \<lparr>mp_uuid = u, mp_token = queryValue r ''token'', mp_manifest = pm, mp_apps = Map.empty\<rparr>)
      | _ \<Rightarrow> m)"
| "registered cd DeletePod r m = (case NewUUID (pathVar r ''uuid'') of Inl _ \<Rightarrow> m | Inr u \<Rightarrow> m(u := None))"
| "registered cd PutApp r m =
     (case (NewUUID (pathVar r ''uuid''), decodeImageManifest cd (reqBody r)) of
        (Inr u, Inr im) \<Rightarrow>
          if pathVar r ''app'' = '''' then m
          else (case m u of None \<Rightarrow> m | Some p \<Rightarrow> m(u \<mapsto> p\<lparr>mp_apps := (mp_apps p)(pathVar r ''app'' \<mapsto> im)\<rparr>))
      | _ \<Rightarrow> m)"

text \<open>A new registration uses neither a UUID nor a token of a registered pod.\<close>

definition fresh :: "privateRoute \<Rightarrow> request \<Rightarrow> (UUID \<Rightarrow> mdsPod option) \<Rightarrow> bool" where
  "fresh rt r m \<longleftrightarrow>
     rt = PutPod \<longrightarrow> (\<forall>u p. m u = Some p \<longrightarrow> NewUUID (pathVar r ''uuid'') \<noteq> Inr u \<and> mp_token p \<noteq> queryValue r ''token'')"

fun freshHistory :: "mdsCodec \<Rightarrow> (privateRoute \<times> request) list \<Rightarrow> (UUID \<Rightarrow> mdsPod option) \<Rightarrow> bool" where
  "freshHistory cd [] m = True"
| "freshHistory cd ((rt, r) # h) m = (fresh rt r m \<and> freshHistory cd h (registered cd rt r m))"

fun registeredAll :: "mdsCodec \<Rightarrow> (privateRoute \<times> request) list \<Rightarrow> (UUID \<Rightarrow> mdsPod option) \<Rightarrow> UUID \<Rightarrow> mdsPod option" where
  "registeredAll cd [] m = m"
| "registeredAll cd ((rt, r) # h) m = registeredAll cd h (registered cd rt r m)"

lemma PutPod_step:
  assumes "tidy ps" and "fresh PutPod r (podOf ps)"
  shows "tidy (fst (handleRegisterPod cd r ps)) \<and> podOf (fst (handleRegisterPod cd r ps)) = registered cd PutPod r (podOf ps)"
proof (cases "\<exists>u pm. NewUUID (pathVar r ''uuid'') = Inr u \<and> decodePodManifest cd (reqBody r) = Inr pm \<and> queryValue r ''token'' \<noteq> ''''")
  case True
  then obtain u pm where u: "NewUUID (pathVar r ''uuid'') = Inr u" "decodePodManifest cd (reqBody r) = Inr pm"
    "queryValue r ''token'' \<noteq> ''''" by blast
  obtain ps' x where a: "addPod u (queryValue r ''token'') pm ps = (ps', x)" by fastforce
  have "podOf ps u = None" using assms(2) u(1) by (cases "podOf ps u") (auto simp: fresh_def)
  then have "byUUID ps u = None" by (simp add: podOf_def)
  moreover have "podFor ps (queryValue r ''token'') = None" using assms unfolding mds.find_None [OF assms(1)] by (simp add: fresh_def)
  then have "byToken ps (queryValue r ''token'') = None" by (simp add: podFor_def)
  moreover have "fst (handleRegisterPod cd r ps) = ps'"
    using u a by (auto simp: handleRegisterPod_def answer_def io_simps addPod_def Let_def)
  ultimately show ?thesis using addPod_tidy [OF assms(1) _ _ a] u by simp
next
  case False
  then have "fst (handleRegisterPod cd r ps) = ps" "registered cd PutPod r (podOf ps) = podOf ps"
    by (auto simp: handleRegisterPod_def answer_def io_simps Let_def split: sum.splits)
  then show ?thesis using assms(1) by simp
qed

lemma DeletePod_step:
  assumes "tidy ps"
  shows "tidy (fst (handleUnregisterPod r ps)) \<and> podOf (fst (handleUnregisterPod r ps)) = registered cd DeletePod r (podOf ps)"
proof (cases "NewUUID (pathVar r ''uuid'')")
  case (Inr u)
  obtain ps' x where a: "removePodEntry u ps = (ps', x)" by fastforce
  have "fst (handleUnregisterPod r ps) = ps'"
    using Inr a by (auto simp: handleUnregisterPod_def answer_def io_simps removePodEntry_def split: option.splits)
  then show ?thesis using remove_tidy [OF assms a] Inr by simp
qed (use assms in \<open>simp add: handleUnregisterPod_def answer_def io_simps\<close>)

lemma PutApp_step:
  assumes "tidy ps"
  shows "tidy (fst (handleRegisterApp cd r ps)) \<and> podOf (fst (handleRegisterApp cd r ps)) = registered cd PutApp r (podOf ps)"
proof (cases "\<exists>u im. NewUUID (pathVar r ''uuid'') = Inr u \<and> decodeImageManifest cd (reqBody r) = Inr im \<and> pathVar r ''app'' \<noteq> ''''")
  case True
  then obtain u im where u: "NewUUID (pathVar r ''uuid'') = Inr u" "decodeImageManifest cd (reqBody r) = Inr im"
    "pathVar r ''app'' \<noteq> ''''" by blast
  obtain ps' x where a: "addApp u (pathVar r ''app'') im ps = (ps', x)" by fastforce
  have "fst (handleRegisterApp cd r ps) = ps'"
    using u a by (auto simp: handleRegisterApp_def answer_def io_simps addApp_def split: option.splits)
  then show ?thesis using addApp_tidy [OF assms a] u by simp
next
  case False
  then have "fst (handleRegisterApp cd r ps) = ps" "registered cd PutApp r (podOf ps) = podOf ps"
    by (auto simp: handleRegisterApp_def answer_def io_simps Let_def split: sum.splits)
  then show ?thesis using assms(1) by simp
qed

lemma registration_step:
  assumes "tidy ps" and "fresh rt r (podOf ps)"
  shows "tidy (fst (registrationServer cd rt r ps)) \<and> podOf (fst (registrationServer cd rt r ps)) = registered cd rt r (podOf ps)"
  using PutPod_step DeletePod_step PutApp_step assms by (cases rt) simp_all

lemma serve_refines:
  "tidy ps \<Longrightarrow> freshHistory cd h (podOf ps) \<Longrightarrow> tidy (serve cd h ps) \<and> podOf (serve cd h ps) = registeredAll cd h (podOf ps)"
proof (induction h arbitrary: ps)
  case (Cons a h)
  obtain rt r where "a = (rt, r)" by fastforce
  then show ?case using Cons registration_step [OF Cons.prems(1), of rt r cd] by simp
qed simp

lemma queries_podFor:
  "getUUID t ps = (ps, case podFor ps t of None \<Rightarrow> Inl (Fail ErrPodNotFound) | Some p \<Rightarrow> Inr (mp_uuid p))"
  "getPodManifest t ps = (ps, case podFor ps t of None \<Rightarrow> Inl (Fail ErrPodNotFound) | Some p \<Rightarrow> Inr (mp_manifest p))"
  "getManifests t an ps = (ps, case podFor ps t of None \<Rightarrow> Inl (Fail ErrPodNotFound)
     | Some p \<Rightarrow> (case mp_apps p an of None \<Rightarrow> Inl (Fail ErrAppNotFound) | Some im \<Rightarrow> Inr (mp_manifest p, im)))"
  by (simp_all add: getUUID_def getPodManifest_def getManifests_def podFor_def split: option.splits)

lemma podOf_uuid: "tidy ps \<Longrightarrow> podOf ps v = Some p \<Longrightarrow> mp_uuid p = v"
  using tidy_uuid(2) by (auto simp: podOf_def)

lemma token_queries:
  assumes "tidy ps"
  shows "getUUID t ps = (ps, Inr u) \<longleftrightarrow> (\<exists>p. podOf ps u = Some p \<and> mp_token p = t)"
    and "getPodManifest t ps = (ps, Inr pm) \<longleftrightarrow> (\<exists>u p. podOf ps u = Some p \<and> mp_token p = t \<and> mp_manifest p = pm)"
    and "getManifests t an ps = (ps, Inr (pm, im)) \<longleftrightarrow>
      (\<exists>u p. podOf ps u = Some p \<and> mp_token p = t \<and> mp_manifest p = pm \<and> mp_apps p an = Some im)"
proof -
  have "getUUID t ps = (ps, Inr u) \<longleftrightarrow> (\<exists>p. podFor ps t = Some p \<and> mp_uuid p = u)"
    by (auto simp: queries_podFor split: option.splits)
  also have "\<dots> \<longleftrightarrow> (\<exists>p. podOf ps u = Some p \<and> mp_token p = t)"
    unfolding mds.find_iff [OF assms] using podOf_uuid [OF assms] by blast
  finally show "getUUID t ps = (ps, Inr u) \<longleftrightarrow> (\<exists>p. podOf ps u = Some p \<and> mp_token p = t)" .
  have "getPodManifest t ps = (ps, Inr pm) \<longleftrightarrow> (\<exists>p. podFor ps t = Some p \<and> mp_manifest p = pm)"
    by (auto simp: queries_podFor split: option.splits)
  then show "getPodManifest t ps = (ps, Inr pm) \<longleftrightarrow> (\<exists>u p. podOf ps u = Some p \<and> mp_token p = t \<and> mp_manifest p = pm)"
    unfolding mds.find_iff [OF assms] by blast
  have "getManifests t an ps = (ps, Inr (pm, im)) \<longleftrightarrow> (\<exists>p. podFor ps t = Some p \<and> mp_manifest p = pm \<and> mp_apps p an = Some im)"
    by (auto simp: queries_podFor split: option.splits)
  then show "getManifests t an ps = (ps, Inr (pm, im)) \<longleftrightarrow>
      (\<exists>u p. podOf ps u = Some p \<and> mp_token p = t \<and> mp_manifest p = pm \<and> mp_apps p an = Some im)"
    unfolding mds.find_iff [OF assms] by blast
qed

lemma podOf_new: "podOf newPodStore = Map.empty"
  by (simp add: podOf_def newPodStore_def fun_eq_iff)

text \<open>
  C9. The service implements a map from the UUIDs of the registered pods: after any history of
  registrations in which no pod is registered under a UUID or a token that a registered pod has, a
  token yields the UUID, the manifest and the image manifests of the pod that is registered with it,
  and yields them for no other pod and no longer than until the pod is removed.
\<close>

theorem tokens_follow_registrations:
  assumes "freshHistory cd h Map.empty"
  defines "ps \<equiv> serve cd h newPodStore" and "m \<equiv> registeredAll cd h Map.empty"
  shows "(getUUID t ps = (ps, Inr u) \<longleftrightarrow> (\<exists>p. m u = Some p \<and> mp_token p = t)) \<and>
    (getPodManifest t ps = (ps, Inr pm) \<longleftrightarrow> (\<exists>u p. m u = Some p \<and> mp_token p = t \<and> mp_manifest p = pm)) \<and>
    (getManifests t an ps = (ps, Inr (pm, im)) \<longleftrightarrow>
      (\<exists>u p. m u = Some p \<and> mp_token p = t \<and> mp_manifest p = pm \<and> mp_apps p an = Some im)) \<and>
    (\<forall>v p q. m u = Some p \<longrightarrow> m v = Some q \<longrightarrow> mp_token p = mp_token q \<longrightarrow> u = v)"
proof -
  have t: "tidy ps" and "podOf ps = m"
    using serve_refines [OF tidy_new, of cd h] assms by (simp_all add: podOf_new)
  then show ?thesis using token_queries [OF t] mds.tok_inj [OF t] by simp
qed

text \<open>
  Registrations that repeat a UUID or a token break this. A pod that is registered again with
  another token keeps answering to the first one, also after it has been removed; of two pods that
  were registered with one token, removing one leaves the other without.
\<close>

theorem repeated_registrations_confuse_tokens:
  assumes "t \<noteq> t'" and "u \<noteq> v"
  shows "(let ps1 = fst (addPod u t pm ps); again = fst (addPod u t' pm' ps1); gone = fst (removePodEntry u again) in
      podOf gone u = None \<and> getUUID t gone = (gone, Inr u) \<and> getPodManifest t gone = (gone, Inr pm) \<and>
      snd (removePodEntry u gone) = Inl (Fail ErrPodNotFound)) \<and>
    (let ps1 = fst (addPod u t pm ps); both = fst (addPod v t pm' ps1); gone = fst (removePodEntry v both) in
      podOf gone u = Some \<lparr>mp_uuid = u, mp_token = t, mp_manifest = pm, mp_apps = Map.empty\<rparr> \<and>
      getUUID t gone = (gone, Inl (Fail ErrPodNotFound)))"
  using assms by (simp add: addPod_def removePodEntry_def getUUID_def getPodManifest_def podOf_def Let_def)

section \<open>Requests of the apps\<close>

lemma podGet_run:
  "podGet h r ps = (case podFor ps (pathVar r ''token'') of
     None \<Rightarrow> (ps, Inr \<lparr>status = 401, contentType = '''', sent = ''pod not found'' @ newline\<rparr>) | Some p \<Rightarrow> h r (mp_manifest p) ps)"
  by (simp add: podGet_def tryIO_def queries_podFor answer_def StatusUnauthorized_def io_simps split: option.splits)

lemma appGet_run:
  "appGet h r ps =
     (if pathVar r ''app'' = '''' then (ps, Inr \<lparr>status = 400, contentType = '''', sent = ''app missing''\<rparr>)
      else case podFor ps (pathVar r ''token'') of
        None \<Rightarrow> (ps, Inr \<lparr>status = 401, contentType = '''', sent = ''pod not found'' @ newline\<rparr>)
      | Some p \<Rightarrow>
          (case mp_apps p (pathVar r ''app'') of
             None \<Rightarrow> (ps, Inr \<lparr>status = 404, contentType = '''', sent = ''app not found'' @ newline\<rparr>)
           | Some im \<Rightarrow> h r (mp_manifest p) im ps))"
  by (simp add: appGet_def tryIO_def queries_podFor answer_def StatusUnauthorized_def StatusBadRequest_def StatusNotFound_def
      io_simps split: option.splits)

lemma uuid_run:
  "handlePodUUID r ps = (case podFor ps (pathVar r ''token'') of
     None \<Rightarrow> (ps, Inr \<lparr>status = 401, contentType = '''', sent = ''pod not found'' @ newline\<rparr>)
   | Some p \<Rightarrow> (ps, Inr \<lparr>status = 200, contentType = ''text/plain'', sent = UUID_String (mp_uuid p)\<rparr>))"
  by (simp add: handlePodUUID_def tryIO_def queries_podFor answer_def StatusUnauthorized_def StatusOK_def io_simps split: option.splits)

lemma sign_run:
  "handlePodSign cd r ps = (case podFor ps (pathVar r ''token'') of
     None \<Rightarrow> (ps, Inr \<lparr>status = 401, contentType = '''', sent = ''pod not found'' @ newline\<rparr>)
   | Some p \<Rightarrow>
       if formValue r ''content'' = ''''
       then (ps, Inr \<lparr>status = 400, contentType = '''', sent = ''content form value not found''\<rparr>)
       else (ps, Inr \<lparr>status = 200, contentType = ''text/plain'',
         sent = base64Encode (signature cd (mp_uuid p) (formValue r ''content''))\<rparr>))"
  by (simp add: handlePodSign_def tryIO_def queries_podFor answer_def StatusUnauthorized_def StatusOK_def StatusBadRequest_def
      io_simps split: option.splits)

text \<open>
  C21. No request of an app changes the store. Without the token of a pod, the reply is a refusal that
  is the same whatever is registered, on every route but the check of signatures.
\<close>

theorem unknown_token_learns_nothing:
  assumes "byToken ps (pathVar r ''token'') = None" and "rt \<noteq> VerifyR"
  shows "\<exists>rep. publicServer cd rt r ps = (ps, Inr rep) \<and> status rep \<in> {400, 401} \<and>
    publicServer cd rt r newPodStore = (newPodStore, Inr rep) \<and> (status rep = 400 \<longrightarrow> pathVar r ''app'' = '''')"
proof -
  have "podFor ps (pathVar r ''token'') = None" "podFor newPodStore (pathVar r ''token'') = None"
    using assms(1) by (simp_all add: podFor_def newPodStore_def)
  then show ?thesis using assms(2) by (cases rt) (simp_all add: podGet_run appGet_run uuid_run sign_run)
qed

text \<open>
  Every request of an app is answered, and leaves the store as it is, with one exception: asking
  for the image ID of an app that was registered but that is not in the manifest of its pod. The code
  calls this impossible; it panics.
\<close>

theorem public_requests_are_answered:
  "\<exists>x. publicServer cd rt r ps = (ps, x) \<and>
    (isl x \<longleftrightarrow> rt = AppIDR \<and> pathVar r ''app'' \<noteq> '''' \<and> NewACName (pathVar r ''app'') = Inr (pathVar r ''app'') \<and>
      (\<exists>p. podFor ps (pathVar r ''token'') = Some p \<and> mp_apps p (pathVar r ''app'') \<noteq> None \<and>
         AppList_Get (pm_Apps (mp_manifest p)) (pathVar r ''app'') = None)) \<and>
    (isl x \<longleftrightarrow> x = Inl (Panic ''could not find app in manifest!''))"
proof (cases rt)
  case AppIDR
  have name: "NewACName n = Inr a \<Longrightarrow> a = n" for n a by (auto simp: NewACName_def split: sum.splits)
  show ?thesis unfolding AppIDR
    by (auto simp: appGet_run handleAppID_def answer_def io_simps dest: name split: option.splits sum.splits)
qed (auto simp: podGet_run appGet_run uuid_run sign_run handlePodVerify_def handlePodAnnotations_def handlePodAnnotation_def
      handlePodManifest_def handleAppAnnotations_def handleAppAnnotation_def handleImageManifest_def
      answer_def Let_def io_simps split: option.splits sum.splits)

section \<open>Signatures and annotations\<close>

lemma bytesOf_inj: "bytesOf c = bytesOf d \<longleftrightarrow> c = d"
proof -
  have "unat (of_char x :: 8 word) = of_char x" for x :: char
    unfolding of_nat_of_char [of x, symmetric, where 'a = "8 word"] by (simp add: unsigned_of_nat take_bit_nat_eq_self)
  then have "inj (of_char :: char \<Rightarrow> 8 word)" by (metis injI of_char_eq_iff)
  then show ?thesis unfolding bytesOf_def by (rule inj_map_eq_map)
qed

lemma verify_run:
  "snd (handlePodVerify cd r ps) = Inr \<lparr>status = 200, contentType = '''', sent = ''''\<rparr> \<longleftrightarrow>
     formValue r ''content'' \<noteq> '''' \<and>
     (\<exists>v. NewUUID (formValue r ''uid'') = Inr v \<and> base64Decode (formValue r ''signature'') = Some (signature cd v (formValue r ''content'')))"
  by (auto simp: handlePodVerify_def answer_def StatusOK_def StatusForbidden_def StatusBadRequest_def Let_def io_simps
      split: sum.splits option.splits)

text \<open>
  C20. A registered pod gets a signature for any content that is not empty, and the signature is
  accepted, by whoever presents it and whatever is registered by then, for that pod and that content.
  For another pod or other content it is accepted only if two different messages have the same hash.
\<close>

theorem signatures_bind_pod_and_content:
  assumes "getUUID (pathVar r ''token'') ps = (ps, Inr u)" and "length u = 16" and "formValue r ''content'' \<noteq> ''''"
  defines "c \<equiv> formValue r ''content''"
  shows "\<exists>sig. handlePodSign cd r ps = (ps, Inr \<lparr>status = 200, contentType = ''text/plain'', sent = sig\<rparr>) \<and>
    (\<forall>r' ps'. formValue r' ''signature'' = sig \<longrightarrow>
       (let accepted = snd (handlePodVerify cd r' ps') = Inr \<lparr>status = 200, contentType = '''', sent = ''''\<rparr>; c' = formValue r' ''content'' in
        (formValue r' ''uid'' = UUID_String u \<and> c' = c \<longrightarrow> accepted) \<and>
        (accepted \<longrightarrow> (\<exists>v. NewUUID (formValue r' ''uid'') = Inr v \<and>
           (v = u \<and> c' = c \<or> v @ bytesOf c' \<noteq> u @ bytesOf c \<and> hmac512 cd (v @ bytesOf c') = hmac512 cd (u @ bytesOf c))))))"
proof -
  let ?sig = "base64Encode (signature cd u c)"
  have "podFor ps (pathVar r ''token'') \<noteq> None" "\<And>p. podFor ps (pathVar r ''token'') = Some p \<Longrightarrow> mp_uuid p = u"
    using assms(1) by (auto simp: queries_podFor split: option.splits)
  then have sign: "handlePodSign cd r ps = (ps, Inr \<lparr>status = 200, contentType = ''text/plain'', sent = ?sig\<rparr>)"
    using assms(3) by (auto simp: sign_run c_def)
  have message: "v = u \<and> c' = c" if "v @ bytesOf c' = u @ bytesOf c" and "NewUUID s = Inr v" for v c' s
    using that assms(2) NewUUID_length [OF that(2)] by (simp add: bytesOf_inj)
  show ?thesis
  proof (intro exI conjI allI impI, rule sign)
    fix r' :: request and ps' assume sig: "formValue r' ''signature'' = ?sig"
    show "let accepted = snd (handlePodVerify cd r' ps') = Inr \<lparr>status = 200, contentType = '''', sent = ''''\<rparr>; c' = formValue r' ''content'' in
        (formValue r' ''uid'' = UUID_String u \<and> c' = c \<longrightarrow> accepted) \<and>
        (accepted \<longrightarrow> (\<exists>v. NewUUID (formValue r' ''uid'') = Inr v \<and>
           (v = u \<and> c' = c \<or> v @ bytesOf c' \<noteq> u @ bytesOf c \<and> hmac512 cd (v @ bytesOf c') = hmac512 cd (u @ bytesOf c))))"
      unfolding Let_def verify_run sig base64_roundtrip
      using NewUUID_String [OF assms(2)] assms(3) message by (auto simp: signature_def c_def)
  qed
qed

text \<open>Names that differ only in case share one place in a list of annotations.\<close>

definition oneEach :: "Annotation list \<Rightarrow> bool" where
  "oneEach as \<longleftrightarrow> distinct (map (toLower \<circ> a_Name) as)"

lemma Set_lower: "set (map (toLower \<circ> a_Name) (Annotations_Set as n v)) = insert (toLower n) (set (map (toLower \<circ> a_Name) as))"
  by (induction as) (auto simp: ACName_Equals_def)

lemma Set_oneEach: "oneEach as \<Longrightarrow> oneEach (Annotations_Set as n v)"
proof (induction as)
  case (Cons a as)
  then show ?case using Set_lower [of as n v] by (auto simp: oneEach_def ACName_Equals_def)
qed (simp add: oneEach_def)

lemma Get_other_case: "toLower k \<notin> set (map (toLower \<circ> a_Name) as) \<Longrightarrow> Annotations_Get as k = None"
  by (induction as) auto

lemma Get_Set:
  "oneEach as \<Longrightarrow> Annotations_Get (Annotations_Set as n v) k =
     (if ACName_Equals n k then if n = k then Some v else None else Annotations_Get as k)"
proof (induction as)
  case (Cons a as)
  then have IH: "Annotations_Get (Annotations_Set as n v) k =
     (if ACName_Equals n k then if n = k then Some v else None else Annotations_Get as k)" by (simp add: oneEach_def)
  have "toLower (a_Name a) \<notin> set (map (toLower \<circ> a_Name) as)" using Cons.prems by (simp add: oneEach_def)
  then have "Annotations_Get as k = None" if "toLower k = toLower (a_Name a)" using Get_other_case that by metis
  then show ?case using IH by (auto simp: ACName_Equals_def)
qed (auto simp: ACName_Equals_def)

lemma Get_setAll:
  "oneEach m \<Longrightarrow> Annotations_Get (setAll m as) k =
     (case find (\<lambda>a. ACName_Equals (a_Name a) k) (rev as) of
        None \<Rightarrow> Annotations_Get m k | Some a \<Rightarrow> if a_Name a = k then Some (a_Value a) else None) \<and> oneEach (setAll m as)"
proof (induction as rule: rev_induct)
  case (snoc a as)
  then have "oneEach (setAll m as)" by blast
  then show ?case using snoc Set_oneEach by (auto simp: setAll_def Get_Set)
qed (simp add: setAll_def)

text \<open>
  The annotations of an app: the value under a name is the last one given, first by the image and
  then by the app in the pod manifest, so that the pod overrides the image.
\<close>

theorem app_annotations_override_image:
  "Annotations_Get (mergeAppAnnotations im pm an) k =
     (let given = im_Annotations im @ (case AppList_Get (pm_Apps pm) an of None \<Rightarrow> [] | Some app \<Rightarrow> ra_Annotations app) in
      case find (\<lambda>a. ACName_Equals (a_Name a) k) (rev given) of
        None \<Rightarrow> None | Some a \<Rightarrow> if a_Name a = k then Some (a_Value a) else None)"
proof -
  have one: "oneEach []" by (simp add: oneEach_def)
  have app: "setAll (setAll [] as) bs = setAll [] (as @ bs)" for as bs by (simp add: setAll_def)
  show ?thesis
    using Get_setAll [OF one, of "im_Annotations im" k] Get_setAll [OF one, of "im_Annotations im @ _" k]
    by (auto simp: mergeAppAnnotations_def Let_def app split: option.split)
qed

section \<open>Sample requests\<close>

definition uuidA :: UUID where "uuidA = replicate 16 1"
definition uuidB :: UUID where "uuidB = replicate 16 2"

definition sampleMds :: mdsCodec where
  "sampleMds = \<lparr>decodePodManifest = \<lambda>s. if s = '''' then Inl ''EOF'' else Inr \<lparr>pm_Apps = [], pm_Annotations = []\<rparr>,
     decodeImageManifest = \<lambda>s. Inl ''EOF'', encodePodManifest = \<lambda>_. '''', encodeImageManifest = \<lambda>_. '''',
     hmac512 = \<lambda>m. take 64 (m @ replicate 64 0)\<rparr>"

definition sampleRequest :: "UUID \<Rightarrow> string \<Rightarrow> request" where
  "sampleRequest u t =
     \<lparr>vars = [''uuid'' \<mapsto> UUID_String u, ''token'' \<mapsto> t], queryVals = (\<lambda>_. [])(''token'' := [t]), formValue = (\<lambda>_. '''')(''content'' := ''x''),
      reqBody = ''{}''\<rparr>"

lemma sample_request [simp]:
  "pathVar (sampleRequest u t) ''uuid'' = UUID_String u" "pathVar (sampleRequest u t) ''token'' = t"
  "queryValue (sampleRequest u t) ''token'' = t" "formValue (sampleRequest u t) ''content'' = ''x''" "reqBody (sampleRequest u t) = ''{}''"
  by (simp_all add: sampleRequest_def pathVar_def queryValue_def)

lemma sample_uuids [simp]:
  "NewUUID (UUID_String uuidA) = Inr uuidA" "NewUUID (UUID_String uuidB) = Inr uuidB" "uuidA \<noteq> uuidB" "uuidB \<noteq> uuidA" "length uuidA = 16"
  by (rule NewUUID_String; simp add: uuidA_def uuidB_def)+ (simp_all add: uuidA_def uuidB_def replicate_eq_replicate)

lemma sample_decode [simp]: "decodePodManifest sampleMds ''{}'' = Inr \<lparr>pm_Apps = [], pm_Annotations = []\<rparr>"
  by (simp add: sampleMds_def)

definition sampleHistory :: "(privateRoute \<times> request) list" where
  "sampleHistory = [(PutPod, sampleRequest uuidA ''ta''), (PutPod, sampleRequest uuidB ''tb''), (DeletePod, sampleRequest uuidB ''tb'')]"

theorem tokens_follow_registrations_witness:
  "let ps = serve sampleMds sampleHistory newPodStore in getUUID ''ta'' ps = (ps, Inr uuidA) \<and> getUUID ''tb'' ps \<noteq> (ps, Inr uuidB)"
proof -
  have "freshHistory sampleMds sampleHistory Map.empty"
    by (simp add: sampleHistory_def fresh_def)
  then show ?thesis
    using tokens_follow_registrations [of sampleMds sampleHistory "''ta''" uuidA]
      tokens_follow_registrations [of sampleMds sampleHistory "''tb''" uuidB]
    by (simp add: sampleHistory_def Let_def)
qed

theorem repeated_registrations_confuse_tokens_witness:
  "let ps1 = fst (addPod uuidA ''t'' \<lparr>pm_Apps = [], pm_Annotations = []\<rparr> newPodStore);
     again = fst (addPod uuidA ''s'' \<lparr>pm_Apps = [], pm_Annotations = []\<rparr> ps1); gone = fst (removePodEntry uuidA again) in
   podOf gone uuidA = None \<and> getUUID ''t'' gone = (gone, Inr uuidA)"
  using repeated_registrations_confuse_tokens [of "''t''" "''s''" uuidA uuidB] by (simp add: Let_def)

theorem unknown_token_learns_nothing_witness:
  "\<exists>rep. publicServer sampleMds PodUUIDR (sampleRequest uuidA ''tb'') (fst (addPod uuidA ''ta'' \<lparr>pm_Apps = [], pm_Annotations = []\<rparr> newPodStore)) =
     (fst (addPod uuidA ''ta'' \<lparr>pm_Apps = [], pm_Annotations = []\<rparr> newPodStore), Inr rep) \<and> status rep \<in> {400, 401}"
proof -
  have "byToken (fst (addPod uuidA ''ta'' \<lparr>pm_Apps = [], pm_Annotations = []\<rparr> newPodStore)) (pathVar (sampleRequest uuidA ''tb'') ''token'') = None"
    by (simp add: addPod_def newPodStore_def Let_def)
  then show ?thesis using unknown_token_learns_nothing [where rt = PodUUIDR] by blast
qed

theorem signatures_bind_pod_and_content_witness:
  "\<exists>ps sig. handlePodSign sampleMds (sampleRequest uuidA ''ta'') ps = (ps, Inr \<lparr>status = 200, contentType = ''text/plain'', sent = sig\<rparr>) \<and>
     snd (handlePodVerify sampleMds \<lparr>vars = Map.empty, queryVals = \<lambda>_. [],
       formValue = (\<lambda>_. '''')(''uid'' := UUID_String uuidA, ''content'' := ''x'', ''signature'' := sig), reqBody = ''''\<rparr> newPodStore) =
     Inr \<lparr>status = 200, contentType = '''', sent = ''''\<rparr>"
proof -
  let ?ps = "fst (addPod uuidA ''ta'' \<lparr>pm_Apps = [], pm_Annotations = []\<rparr> newPodStore)"
  have "getUUID (pathVar (sampleRequest uuidA ''ta'') ''token'') ?ps = (?ps, Inr uuidA)"
    by (simp add: getUUID_def addPod_def Let_def)
  from signatures_bind_pod_and_content [OF this, where cd = sampleMds] obtain sig where
    "handlePodSign sampleMds (sampleRequest uuidA ''ta'') ?ps = (?ps, Inr \<lparr>status = 200, contentType = ''text/plain'', sent = sig\<rparr>)"
    and "\<forall>r' ps'. formValue r' ''signature'' = sig \<longrightarrow> formValue r' ''uid'' = UUID_String uuidA \<and> formValue r' ''content'' = ''x'' \<longrightarrow>
      snd (handlePodVerify sampleMds r' ps') = Inr \<lparr>status = 200, contentType = '''', sent = ''''\<rparr>"
    by (auto simp: Let_def)
  then show ?thesis by (intro exI [of _ ?ps] exI [of _ sig] conjI) simp_all
qed

end
