(* ===== verification/Dir_Tree.thy ===== *)
theory Dir_Tree
  imports Kernel "HOL-Library.List_Lexorder" "HOL-Library.Char_ord" "HOL-Library.Sublist"
begin

text \<open>
  A tree of directories and regular files, addressed by the components of absolute paths, with the
  calls of \<^verbatim>\<open>os\<close>, \<^verbatim>\<open>io/ioutil\<close> and \<^verbatim>\<open>path/filepath\<close> that the readers of configuration directories use.
  Entries are in lexical order, the order in which \<^verbatim>\<open>filepath.Walk\<close> and \<^verbatim>\<open>ioutil.ReadDir\<close> go through
  them. \<open>treeErr\<close> says which calls fail, and what a write that fails leaves is \<open>treeTorn\<close>. There are no
  symbolic links.
\<close>

section \<open>Trees\<close>

datatype tnode = TFile string | TDir "(string \<times> tnode) list"

datatype dirOp = LstatOp | ReaddirOp | OpenOp | CreateOp | WriteOp | MkdirOp | UnlinkOp

record fileTree =
  treeRoot :: tnode
  treeErr :: "dirOp \<Rightarrow> string list \<Rightarrow> errno option"
  treeTorn :: string

type_synonym 'a ftio = "(fileTree, goerr, 'a) io"

fun resolve :: "tnode \<Rightarrow> string list \<Rightarrow> errno + tnode" where
  "resolve n [] = Inr n"
| "resolve (TFile c) (x # xs) = Inl ENOTDIR"
| "resolve (TDir es) (x # xs) = (case map_of es x of None \<Rightarrow> Inl ENOENT | Some n \<Rightarrow> resolve n xs)"

text \<open>Put an entry into a directory, or take one out.\<close>

fun setEntry :: "string \<Rightarrow> tnode \<Rightarrow> (string \<times> tnode) list \<Rightarrow> (string \<times> tnode) list" where
  "setEntry x n [] = [(x, n)]"
| "setEntry x n ((y, m) # es) =
     (if x = y then (x, n) # es else if x < y then (x, n) # (y, m) # es else (y, m) # setEntry x n es)"

definition dropEntry :: "string \<Rightarrow> (string \<times> tnode) list \<Rightarrow> (string \<times> tnode) list" where
  "dropEntry x es = filter (\<lambda>(y, _). y \<noteq> x) es"

text \<open>Change what is in the directory at a path; the tree stays as it is if there is no directory.\<close>

fun atDir :: "((string \<times> tnode) list \<Rightarrow> (string \<times> tnode) list) \<Rightarrow> string list \<Rightarrow> tnode \<Rightarrow> tnode" where
  "atDir f [] (TDir es) = TDir (f es)"
| "atDir f (x # xs) (TDir es) =
     TDir (case map_of es x of None \<Rightarrow> es | Some n \<Rightarrow> setEntry x (atDir f xs n) es)"
| "atDir f _ (TFile c) = TFile c"

fun makeDirs :: "string list \<Rightarrow> tnode \<Rightarrow> errno + tnode" where
  "makeDirs [] (TDir es) = Inr (TDir es)"
| "makeDirs (x # xs) (TDir es) =
     (case makeDirs xs (case map_of es x of None \<Rightarrow> TDir [] | Some n \<Rightarrow> n) of
        Inl e \<Rightarrow> Inl e
      | Inr n \<Rightarrow> Inr (TDir (setEntry x n es)))"
| "makeDirs _ (TFile c) = Inl ENOTDIR"

section \<open>Calls\<close>

definition lookupAt :: "dirOp \<Rightarrow> string list \<Rightarrow> fileTree \<Rightarrow> goerr + tnode" where
  "lookupAt c p s =
     (case treeErr s c p of
        Some e \<Rightarrow> Inl (PathError e)
      | None \<Rightarrow> (case resolve (treeRoot s) p of Inl e \<Rightarrow> Inl (PathError e) | Inr n \<Rightarrow> Inr n))"

definition osStat :: "string list \<Rightarrow> tnode ftio" where
  "osStat p s = (s, case lookupAt LstatOp p s of Inl e \<Rightarrow> Inl (Fail e) | Inr n \<Rightarrow> Inr n)"

definition ioutilReadFile :: "string list \<Rightarrow> string ftio" where
  "ioutilReadFile p s =
     (s, case lookupAt OpenOp p s of
           Inl e \<Rightarrow> Inl (Fail e)
         | Inr (TFile c) \<Rightarrow> Inr c
         | Inr (TDir _) \<Rightarrow> Inl (Fail (PathError EISDIR)))"

definition osMkdirAll :: "string list \<Rightarrow> unit ftio" where
  "osMkdirAll p s =
     (case treeErr s MkdirOp p of
        Some e \<Rightarrow> (s, Inl (Fail (PathError e)))
      | None \<Rightarrow>
          (case makeDirs p (treeRoot s) of
             Inl e \<Rightarrow> (s, Inl (Fail (PathError e)))
           | Inr r \<Rightarrow> (s\<lparr>treeRoot := r\<rparr>, Inr ())))"

text \<open>\<^verbatim>\<open>ioutil.WriteFile\<close> creates or truncates the file, and then writes.\<close>

definition ioutilWriteFile :: "string list \<Rightarrow> string \<Rightarrow> unit ftio" where
  "ioutilWriteFile p c s =
     (case treeErr s CreateOp p of
        Some e \<Rightarrow> (s, Inl (Fail (PathError e)))
      | None \<Rightarrow>
          (case (resolve (treeRoot s) (butlast p), resolve (treeRoot s) p) of
             (Inl e, _) \<Rightarrow> (s, Inl (Fail (PathError e)))
           | (Inr (TFile _), _) \<Rightarrow> (s, Inl (Fail (PathError ENOTDIR)))
           | (Inr (TDir _), Inr (TDir _)) \<Rightarrow> (s, Inl (Fail (PathError EISDIR)))
           | (Inr (TDir _), _) \<Rightarrow>
               (case treeErr s WriteOp p of
                  Some e \<Rightarrow> (s\<lparr>treeRoot := atDir (setEntry (last p) (TFile (treeTorn s))) (butlast p) (treeRoot s)\<rparr>, Inl (Fail (PathError e)))
                | None \<Rightarrow> (s\<lparr>treeRoot := atDir (setEntry (last p) (TFile c)) (butlast p) (treeRoot s)\<rparr>, Inr ()))))"

text \<open>\<^verbatim>\<open>os.Remove\<close> removes a file or an empty directory.\<close>

definition osRemove :: "string list \<Rightarrow> unit ftio" where
  "osRemove p s =
     (case lookupAt UnlinkOp p s of
        Inl e \<Rightarrow> (s, Inl (Fail e))
      | Inr n \<Rightarrow>
          (case n of
             TDir (_ # _) \<Rightarrow> (s, Inl (Fail (PathError ENOTEMPTY)))
           | _ \<Rightarrow> (s\<lparr>treeRoot := atDir (dropEntry (last p)) (butlast p) (treeRoot s)\<rparr>, Inr ())))"

section \<open>Walking a tree\<close>

text \<open>
  \<^verbatim>\<open>filepath.Walk\<close>: the callback sees the path, what is there unless that could not be found out, and
  the error; it threads a state of its own.
\<close>

datatype walkRes = WNil | WSkipDir | WErr goerr

type_synonym 'a walkFn = "string list \<Rightarrow> tnode option \<Rightarrow> goerr option \<Rightarrow> 'a \<Rightarrow> 'a \<times> walkRes"

fun isDirNode :: "tnode \<Rightarrow> bool" where
  "isDirNode (TDir _) = True"
| "isDirNode (TFile _) = False"

fun walkNode :: "(dirOp \<Rightarrow> string list \<Rightarrow> errno option) \<Rightarrow> 'a walkFn \<Rightarrow> string list \<Rightarrow> tnode \<Rightarrow> 'a \<Rightarrow> 'a \<times> walkRes"
  and walkEntries :: "(dirOp \<Rightarrow> string list \<Rightarrow> errno option) \<Rightarrow> 'a walkFn \<Rightarrow> string list \<Rightarrow> (string \<times> tnode) list \<Rightarrow> 'a \<Rightarrow> 'a \<times> walkRes" where
  "walkNode flt fn p (TFile c) a = fn p (Some (TFile c)) None a"
| "walkNode flt fn p (TDir es) a =
     (case fn p (Some (TDir es)) None a of
        (a', WErr e) \<Rightarrow> (a', WErr e)
      | (a', WSkipDir) \<Rightarrow> (a', WNil)
      | (a', WNil) \<Rightarrow>
          (case flt ReaddirOp p of
             Some e \<Rightarrow> fn p (Some (TDir es)) (Some (PathError e)) a'
           | None \<Rightarrow> walkEntries flt fn p es a'))"
| "walkEntries flt fn p [] a = (a, WNil)"
| "walkEntries flt fn p ((x, n) # es) a =
     (case flt LstatOp (p @ [x]) of
        Some e \<Rightarrow>
          (case fn (p @ [x]) None (Some (PathError e)) a of
             (a', WErr e') \<Rightarrow> (a', WErr e')
           | (a', _) \<Rightarrow> walkEntries flt fn p es a')
      | None \<Rightarrow>
          (case walkNode flt fn (p @ [x]) n a of
             (a', WErr e') \<Rightarrow> (a', WErr e')
           | (a', WSkipDir) \<Rightarrow> if isDirNode n then walkEntries flt fn p es a' else (a', WSkipDir)
           | (a', WNil) \<Rightarrow> walkEntries flt fn p es a'))"

definition filepathWalk :: "'a walkFn \<Rightarrow> string list \<Rightarrow> 'a \<Rightarrow> fileTree \<Rightarrow> 'a \<times> walkRes" where
  "filepathWalk fn p a s =
     (case lookupAt LstatOp p s of
        Inl e \<Rightarrow> fn p None (Some e) a
      | Inr n \<Rightarrow> walkNode (treeErr s) fn p n a)"

text \<open>
  The files that a walk comes to if it enters the directories for which \<open>enter\<close> holds and passes over
  what has vanished.
\<close>

fun filesIn :: "(dirOp \<Rightarrow> string list \<Rightarrow> errno option) \<Rightarrow> (string list \<Rightarrow> bool) \<Rightarrow> string list \<Rightarrow> tnode \<Rightarrow> (string list \<times> string) list"
  and filesOf :: "(dirOp \<Rightarrow> string list \<Rightarrow> errno option) \<Rightarrow> (string list \<Rightarrow> bool) \<Rightarrow> string list \<Rightarrow> (string \<times> tnode) list \<Rightarrow> (string list \<times> string) list" where
  "filesIn flt enter p (TFile c) = [(p, c)]"
| "filesIn flt enter p (TDir es) = (if enter p \<and> flt ReaddirOp p \<noteq> Some ENOENT then filesOf flt enter p es else [])"
| "filesOf flt enter p [] = []"
| "filesOf flt enter p ((x, n) # es) =
     (if flt LstatOp (p @ [x]) \<noteq> Some ENOENT then filesIn flt enter (p @ [x]) n else []) @ filesOf flt enter p es"

fun visitAll :: "(string list \<Rightarrow> string \<Rightarrow> 'a \<Rightarrow> goerr + 'a) \<Rightarrow> (string list \<times> string) list \<Rightarrow> 'a \<Rightarrow> goerr + 'a" where
  "visitAll visit [] a = Inr a"
| "visitAll visit ((p, c) # fs) a = (case visit p c a of Inl e \<Rightarrow> Inl e | Inr a' \<Rightarrow> visitAll visit fs a')"

lemma visitAll_append:
  "visitAll visit (xs @ ys) a = (case visitAll visit xs a of Inl e \<Rightarrow> Inl e | Inr a' \<Rightarrow> visitAll visit ys a')"
  by (induction xs arbitrary: a) (auto split: sum.splits)

text \<open>
  Callbacks that pass over what is not there, choose the directories to enter and do their work on the
  files: a walk that succeeds has done that work on the files in order.
\<close>

locale visitor =
  fixes fn :: "'a walkFn" and enter :: "string list \<Rightarrow> bool" and visit :: "string list \<Rightarrow> string \<Rightarrow> 'a \<Rightarrow> goerr + 'a"
  assumes missing: "fn p None (Some e) a = (a, if osIsNotExist e then WNil else WErr e)"
    and dir_call: "fn p (Some (TDir es)) None a = (a, if enter p then WNil else WSkipDir)"
    and unread: "fn p (Some (TDir es)) (Some e) a = (a, if \<not> osIsNotExist e then WErr e else if enter p then WNil else WSkipDir)"
    and file_call: "fn p (Some (TFile c)) None a = (case visit p c a of Inl e \<Rightarrow> (a, WErr e) | Inr a' \<Rightarrow> (a', WNil))"
begin

lemma walk_visits:
  "walkNode flt g p n a = (a', w) \<Longrightarrow> g = fn \<Longrightarrow> w = WNil \<and> visitAll visit (filesIn flt enter p n) a = Inr a' \<or> (\<exists>e. w = WErr e)"
  "walkEntries flt g p es a = (a', w) \<Longrightarrow> g = fn \<Longrightarrow> w = WNil \<and> visitAll visit (filesOf flt enter p es) a = Inr a' \<or> (\<exists>e. w = WErr e)"
proof (induction flt g p n a and flt g p es a arbitrary: a' w and a' w rule: walkNode_walkEntries.induct)
  case (1 flt g p c a)
  then show ?case by (auto simp: file_call split: sum.splits)
next
  case (2 flt g p es a)
  then show ?case by (cases "flt ReaddirOp p") (auto simp: dir_call unread split: if_splits)
next
  case (3 flt g p a)
  then show ?case by simp
next
  case (4 flt g p x n es a)
  show ?case
  proof (cases "flt LstatOp (p @ [x])")
    case (Some e)
    then show ?thesis using 4 by (auto simp: missing split: if_splits)
  next
    case None
    obtain a1 w1 where w1: "walkNode flt g (p @ [x]) n a = (a1, w1)" by fastforce
    then show ?thesis
      using 4 None by (cases w1) (auto simp: visitAll_append split: if_splits)
  qed
qed

lemma walk_complete:
  "walkNode flt g p n a = (a'', w) \<Longrightarrow> g = fn \<Longrightarrow> (\<And>c q. flt c q = None) \<Longrightarrow> visitAll visit (filesIn flt enter p n) a = Inr a' \<Longrightarrow> w = WNil \<and> a'' = a'"
  "walkEntries flt g p es a = (a'', w) \<Longrightarrow> g = fn \<Longrightarrow> (\<And>c q. flt c q = None) \<Longrightarrow> visitAll visit (filesOf flt enter p es) a = Inr a' \<Longrightarrow> w = WNil \<and> a'' = a'"
proof (induction flt g p n a and flt g p es a arbitrary: a' a'' w and a' a'' w rule: walkNode_walkEntries.induct)
  case (1 flt g p c a)
  then show ?case by (auto simp: file_call split: sum.splits)
next
  case (2 flt g p es a)
  then show ?case by (auto simp: dir_call split: if_splits)
next
  case (3 flt g p a)
  then show ?case by simp
next
  case (4 flt g p x n es a)
  obtain a1 w1 where w1: "walkNode flt g (p @ [x]) n a = (a1, w1)" by fastforce
  obtain a2 where v: "visitAll visit (filesIn flt enter (p @ [x]) n) a = Inr a2" "visitAll visit (filesOf flt enter p es) a2 = Inr a'"
    using "4.prems"(3) [of LstatOp "p @ [x]"] "4.prems"(4) by (auto simp: visitAll_append split: sum.splits)
  have here: "w1 = WNil" "a1 = a2" using "4.IH"(1) [OF "4.prems"(3) w1 "4.prems"(2,3) v(1)] by simp_all
  have "walkEntries flt g p es a1 = (a'', w)" using "4.prems"(1) "4.prems"(3) [of LstatOp "p @ [x]"] w1 here by simp
  then show ?case using "4.IH"(2) [OF "4.prems"(3) w1 [symmetric] here(1) _ "4.prems"(2,3)] v(2) here(2) by simp
qed

lemma walk_done:
  assumes "filepathWalk fn p a s = (a', WNil)"
  shows "(case lookupAt LstatOp p s of Inl _ \<Rightarrow> a' = a | Inr n \<Rightarrow> visitAll visit (filesIn (treeErr s) enter p n) a = Inr a')"
  using assms walk_visits(1) [OF _ refl] by (force simp: filepathWalk_def missing split: sum.splits if_splits)

end

section \<open>Which files there are\<close>

lemma tnode_nested_induct [case_names File Dir]:
  assumes "\<And>c. P (TFile c)" and "\<And>es. (\<And>x n. (x, n) \<in> set es \<Longrightarrow> P n) \<Longrightarrow> P (TDir es)"
  shows "P n"
proof (induction n)
  case (TDir es)
  then have "P n" if "(x, n) \<in> set es" for x n using that by (fastforce simp: prod_set_defs)
  then show ?case using assms(2) by blast
qed (rule assms(1))

text \<open>The entries of a directory are in order, and no two have one name.\<close>

fun wfTree :: "tnode \<Rightarrow> bool" where
  "wfTree (TFile c) = True"
| "wfTree (TDir es) = (sorted_wrt (<) (map fst es) \<and> (\<forall>e \<in> set es. wfTree (snd e)))"

definition isFile :: "tnode \<Rightarrow> string list \<Rightarrow> string \<Rightarrow> bool" where
  "isFile n p c \<longleftrightarrow> resolve n p = Inr (TFile c)"

lemma isFile_simps [simp]:
  "isFile (TFile d) p c \<longleftrightarrow> p = [] \<and> d = c"
  "isFile (TDir es) [] c \<longleftrightarrow> False"
  "isFile (TDir es) (x # xs) c \<longleftrightarrow> (\<exists>n. map_of es x = Some n \<and> isFile n xs c)"
  by (cases p; auto simp: isFile_def split: option.splits)+

lemma filesOf_iff:
  "f \<in> set (filesOf flt enter p es) \<longleftrightarrow>
     (\<exists>x n. (x, n) \<in> set es \<and> flt LstatOp (p @ [x]) \<noteq> Some ENOENT \<and> f \<in> set (filesIn flt enter (p @ [x]) n))"
proof (induction es)
  case (Cons e es)
  obtain y m where e: "e = (y, m)" by fastforce
  have "f \<in> set (filesOf flt enter p (e # es)) \<longleftrightarrow>
      flt LstatOp (p @ [y]) \<noteq> Some ENOENT \<and> f \<in> set (filesIn flt enter (p @ [y]) m) \<or> f \<in> set (filesOf flt enter p es)"
    by (simp add: e)
  then show ?case unfolding Cons by (simp add: e) blast
qed simp

text \<open>A walk comes to the files that are there, by way of directories it enters.\<close>

definition reaches :: "(dirOp \<Rightarrow> string list \<Rightarrow> errno option) \<Rightarrow> (string list \<Rightarrow> bool) \<Rightarrow> string list \<Rightarrow> string list \<Rightarrow> bool" where
  "reaches flt enter p r \<longleftrightarrow>
     (\<forall>r1 x r2. r = r1 @ x # r2 \<longrightarrow>
        enter (p @ r1) \<and> flt ReaddirOp (p @ r1) \<noteq> Some ENOENT \<and> flt LstatOp (p @ r1 @ [x]) \<noteq> Some ENOENT)"

lemma reaches_Nil [simp]: "reaches flt enter p []"
  by (simp add: reaches_def)

lemma reaches_Cons:
  "reaches flt enter p (x # r) \<longleftrightarrow>
     enter p \<and> flt ReaddirOp p \<noteq> Some ENOENT \<and> flt LstatOp (p @ [x]) \<noteq> Some ENOENT \<and> reaches flt enter (p @ [x]) r"
  unfolding reaches_def by (auto simp: Cons_eq_append_conv) (metis append_Nil append_Nil2 append_Cons append_assoc)+

lemma filesIn_iff:
  "wfTree n \<Longrightarrow> (q, c) \<in> set (filesIn flt enter p n) \<longleftrightarrow> (\<exists>r. q = p @ r \<and> isFile n r c \<and> reaches flt enter p r)"
proof (induction n arbitrary: p rule: tnode_nested_induct)
  case (Dir es)
  have map: "(x, n) \<in> set es \<longleftrightarrow> map_of es x = Some n" for x n
    using Dir.prems by (auto simp: strict_sorted_iff dest: map_of_SomeD)
  have IH: "(q, c) \<in> set (filesIn flt enter (p @ [x]) n) \<longleftrightarrow> (\<exists>r. q = p @ x # r \<and> isFile n r c \<and> reaches flt enter (p @ [x]) r)"
    if "map_of es x = Some n" for x n p
    using Dir.IH [of x n "p @ [x]"] Dir.prems that map [of x n] by fastforce
  show ?case (is "?l \<longleftrightarrow> ?r")
  proof
    assume ?l
    then have here: "enter p" "flt ReaddirOp p \<noteq> Some ENOENT" and "(q, c) \<in> set (filesOf flt enter p es)"
      by (auto split: if_splits)
    then obtain x n where n: "map_of es x = Some n" "flt LstatOp (p @ [x]) \<noteq> Some ENOENT" "(q, c) \<in> set (filesIn flt enter (p @ [x]) n)"
      by (auto simp: filesOf_iff map)
    then obtain r where "q = p @ x # r" "isFile n r c" "reaches flt enter (p @ [x]) r" using IH by blast
    then show ?r using here n by (intro exI [of _ "x # r"]) (simp add: reaches_Cons)
  next
    assume ?r
    then obtain r where r: "q = p @ r" "isFile (TDir es) r c" "reaches flt enter p r" by blast
    then obtain x xs where "r = x # xs" by (cases r) auto
    then show ?l using r IH by (fastforce simp: reaches_Cons filesOf_iff map)
  qed
qed auto

section \<open>What the calls change\<close>

lemma map_of_setEntry [simp]: "map_of (setEntry x n es) = (map_of es)(x \<mapsto> n)"
  by (induction x n es rule: setEntry.induct) (auto simp: fun_eq_iff)

lemma setEntry_sorted:
  "sorted_wrt (<) (map fst es) \<Longrightarrow>
     set (setEntry x n es) = insert (x, n) {e \<in> set es. fst e \<noteq> x} \<and> sorted_wrt (<) (map fst (setEntry x n es))"
proof (induction x n es rule: setEntry.induct)
  case (2 x n y m es)
  have tail: "y < fst e" if "e \<in> set es" for e using 2(2) that by auto
  consider "x = y" | "x < y" | "x \<noteq> y" "\<not> x < y" by blast
  then show ?case
  proof cases
    case 1
    then show ?thesis using 2(2) tail by fastforce
  next
    case less: 2
    then have lt: "x < fst e" if "e \<in> set ((y, m) # es)" for e using that tail by (metis fst_conv order.strict_trans set_ConsD)
    then have "{e \<in> set ((y, m) # es). fst e \<noteq> x} = set ((y, m) # es)" by blast
    then show ?thesis using 2(2) less lt less_imp_neq [OF less] by simp
  next
    case 3
    then have "y < x" by simp
    then show ?thesis using 2 3 tail by auto
  qed
qed simp

lemma map_of_dropEntry [simp]: "map_of (dropEntry x es) = (map_of es)(x := None)"
  by (induction es) (auto simp: dropEntry_def fun_eq_iff)

lemma wf_setEntry: "wfTree (TDir es) \<Longrightarrow> wfTree n \<Longrightarrow> wfTree (TDir (setEntry x n es))"
  using setEntry_sorted [of es x n] by auto

lemma wf_entry: "wfTree (TDir es) \<Longrightarrow> map_of es x = Some n \<Longrightarrow> wfTree n"
  using map_of_SomeD by fastforce

lemma wf_atDir: "(\<And>es. wfTree (TDir es) \<Longrightarrow> wfTree (TDir (f es))) \<Longrightarrow> wfTree n \<Longrightarrow> wfTree (atDir f p n)"
proof (induction f p n rule: atDir.induct)
  case (2 f x xs es)
  then show ?case using wf_setEntry wf_entry by (auto split: option.split simp del: wfTree.simps)
qed auto

lemma wf_makeDirs: "wfTree n \<Longrightarrow> makeDirs p n = Inr n' \<Longrightarrow> wfTree n'"
proof (induction p n arbitrary: n' rule: makeDirs.induct)
  case (2 x xs es)
  let ?m = "case map_of es x of None \<Rightarrow> TDir [] | Some n \<Rightarrow> n"
  have m: "wfTree ?m" using wf_entry [OF 2(2)] by (cases "map_of es x") simp_all
  obtain n where "makeDirs xs ?m = Inr n" "n' = TDir (setEntry x n es)" using 2(3) by (auto split: sum.splits)
  then show ?case using 2(1) [OF m] wf_setEntry [OF 2(2)] by blast
qed auto

text \<open>Writing a file changes that file and no other.\<close>

lemma isFile_write:
  assumes "resolve n d = Inr (TDir es)" and "\<And>es'. resolve n (d @ [x]) \<noteq> Inr (TDir es')"
  shows "isFile (atDir (setEntry x (TFile c)) d n) q c' \<longleftrightarrow> (if q = d @ [x] then c' = c else isFile n q c')"
  using assms
proof (induction d arbitrary: n q)
  case Nil
  then obtain es where n: "n = TDir es" by (cases n) auto
  show ?case
  proof (cases q)
    case (Cons y ys)
    have "\<not> isFile m (z # zs) c''" if "map_of es x = Some m" for m z zs c''
      using Nil(2) n that by (cases m) (auto simp: isFile_def)
    then show ?thesis using n Cons by (cases ys) (auto split: if_splits)
  qed (use n in auto)
next
  case (Cons y d)
  then obtain es' m where n: "n = TDir es'" "map_of es' y = Some m" "resolve m d = Inr (TDir es)"
    by (cases n) (auto split: option.splits)
  have "isFile (atDir (setEntry x (TFile c)) d m) q' c' \<longleftrightarrow> (if q' = d @ [x] then c' = c else isFile m q' c')" for q'
    using Cons n by (intro Cons.IH) auto
  then show ?case using n by (cases q) auto
qed

lemma isFile_makeDirs: "makeDirs d n = Inr n' \<Longrightarrow> isFile n' q c \<longleftrightarrow> isFile n q c"
proof (induction d n arbitrary: n' q rule: makeDirs.induct)
  case (2 x xs es)
  let ?m = "case map_of es x of None \<Rightarrow> TDir [] | Some n \<Rightarrow> n"
  obtain m where m: "makeDirs xs ?m = Inr m" "n' = TDir (setEntry x m es)" using 2(2) by (auto split: sum.splits)
  then have "isFile m r c \<longleftrightarrow> isFile ?m r c" for r using 2(1) by blast
  moreover have "\<not> isFile (TDir []) r c" for r by (cases r) auto
  ultimately show ?case using m by (cases q) (auto split: option.splits)
qed auto

lemma makeDirs_there: "makeDirs d n = Inr n' \<Longrightarrow> \<exists>es. resolve n' d = Inr (TDir es)"
  by (induction d n arbitrary: n' rule: makeDirs.induct) (auto split: sum.splits)

lemma writeFile_ok:
  assumes "ioutilWriteFile (d @ [x]) c s = (s', Inr ())"
  shows "treeErr s' = treeErr s" and "isFile (treeRoot s') q c' \<longleftrightarrow> (if q = d @ [x] then c' = c else isFile (treeRoot s) q c')"
    and "wfTree (treeRoot s) \<Longrightarrow> wfTree (treeRoot s')"
proof -
  obtain es where d: "resolve (treeRoot s) d = Inr (TDir es)" "\<And>es'. resolve (treeRoot s) (d @ [x]) \<noteq> Inr (TDir es')"
    "s' = s\<lparr>treeRoot := atDir (setEntry x (TFile c)) d (treeRoot s)\<rparr>"
    using assms by (auto simp: ioutilWriteFile_def split: option.splits sum.splits tnode.splits)
  then show "treeErr s' = treeErr s" by simp
  show "isFile (treeRoot s') q c' \<longleftrightarrow> (if q = d @ [x] then c' = c else isFile (treeRoot s) q c')"
    using isFile_write [OF d(1,2)] d(3) by simp
  show "wfTree (treeRoot s')" if "wfTree (treeRoot s)"
    using d(3) that wf_atDir [OF wf_setEntry] by simp
qed

lemma mkdirAll_ok:
  assumes "osMkdirAll d s = (s', Inr ())"
  shows "treeErr s' = treeErr s" and "isFile (treeRoot s') q c \<longleftrightarrow> isFile (treeRoot s) q c"
    and "wfTree (treeRoot s) \<Longrightarrow> wfTree (treeRoot s')"
  using assms isFile_makeDirs wf_makeDirs by (auto simp: osMkdirAll_def split: option.splits sum.splits)

end
