(* ===== verification/Keystore.thy ===== *)
theory Keystore
  imports Dir_Tree Appc_Names
begin

text \<open>
  The store of trusted keys, \<^verbatim>\<open>pkg/keystore/keystore.go\<close>. Keys are files named by their fingerprint: in
  \<^verbatim>\<open>root.d\<close> for every image and below \<^verbatim>\<open>prefix.d\<close> for the images whose name begins with the path; those of
  the system come with the distribution, and an empty local file masks one of them. OpenPGP itself, the
  reading of key rings and the check of detached signatures, is a parameter. Signed files and signature
  files are regular, so that seeking in them does not fail.
\<close>

section \<open>Paths\<close>

text \<open>\<^verbatim>\<open>path.Join\<close> of an absolute path and a relative one, which is cleaned.\<close>

definition cleanStep :: "string list \<Rightarrow> string \<Rightarrow> string list" where
  "cleanStep acc x = (if x = '''' \<or> x = ''.'' then acc else if x = ''..'' then butlast acc else acc @ [x])"

definition pathJoin :: "string list \<Rightarrow> string \<Rightarrow> string list" where
  "pathJoin base rel = foldl cleanStep base (splitOn CHR ''/'' rel)"

definition pathString :: "string list \<Rightarrow> string" where
  "pathString p = concat (map (\<lambda>x. CHR ''/'' # x) p)"

section \<open>Keys and their places\<close>

record entity =
  Fingerprint :: "8 word list"
  Identities :: "string list"

datatype sigErr = SigEOF | SignatureError string | SigOther goerr

record openpgp =
  ReadArmoredKeyRing :: "string \<Rightarrow> goerr + entity list"
  CheckArmoredDetachedSignature :: "(string \<Rightarrow> entity option) \<Rightarrow> string \<Rightarrow> string \<Rightarrow> sigErr + entity"
  CheckDetachedSignature :: "(string \<Rightarrow> entity option) \<Rightarrow> string \<Rightarrow> string \<Rightarrow> sigErr + entity"

record ksConfig =
  LocalRootPath :: "string list"
  LocalPrefixPath :: "string list"
  SystemRootPath :: "string list"
  SystemPrefixPath :: "string list"

definition NewConfig :: "string list \<Rightarrow> string list \<Rightarrow> ksConfig" where
  "NewConfig systemPath localPath =
     \<lparr>LocalRootPath = localPath @ [''trustedkeys'', ''root.d''], LocalPrefixPath = localPath @ [''trustedkeys'', ''prefix.d''],
      SystemRootPath = systemPath @ [''trustedkeys'', ''root.d''], SystemPrefixPath = systemPath @ [''trustedkeys'', ''prefix.d'']\<rparr>"

definition fingerprintToFilename :: "8 word list \<Rightarrow> string" where
  "fingerprintToFilename fp = hexEncode fp"

section \<open>Changing the trusted keys\<close>

definition acIdentifier :: "string \<Rightarrow> string ftio" where
  "acIdentifier pfx = (case NewACIdentifier pfx of Inl e \<Rightarrow> fail (Msg e) | Inr i \<Rightarrow> ret i)"

definition DeleteTrustedKeyPrefix :: "ksConfig \<Rightarrow> string \<Rightarrow> string \<Rightarrow> unit ftio" where
  "DeleteTrustedKeyPrefix ks pfx fingerprint =
     bindIO (acIdentifier pfx) (\<lambda>i. osRemove (pathJoin (LocalPrefixPath ks) (i @ ''/'' @ fingerprint)))"

definition MaskTrustedKeySystemPrefix :: "ksConfig \<Rightarrow> string \<Rightarrow> string \<Rightarrow> string list ftio" where
  "MaskTrustedKeySystemPrefix ks pfx fingerprint =
     bindIO (acIdentifier pfx) (\<lambda>i.
     let dst = pathJoin (LocalPrefixPath ks) (i @ ''/'' @ fingerprint)
     in bindIO (ioutilWriteFile dst '''') (\<lambda>_. ret dst))"

definition DeleteTrustedKeyRoot :: "ksConfig \<Rightarrow> string \<Rightarrow> unit ftio" where
  "DeleteTrustedKeyRoot ks fingerprint = osRemove (pathJoin (LocalRootPath ks) fingerprint)"

definition MaskTrustedKeySystemRoot :: "ksConfig \<Rightarrow> string \<Rightarrow> string list ftio" where
  "MaskTrustedKeySystemRoot ks fingerprint =
     (let dst = pathJoin (LocalRootPath ks) fingerprint in bindIO (ioutilWriteFile dst '''') (\<lambda>_. ret dst))"

definition firstEntity :: "openpgp \<Rightarrow> string \<Rightarrow> goerr + entity" where
  "firstEntity pgp c =
     (case ReadArmoredKeyRing pgp c of
        Inl e \<Rightarrow> Inl e
      | Inr [] \<Rightarrow> Inl (Msg ''missing opengpg entity'')
      | Inr (e # _) \<Rightarrow> Inr e)"

fun anyExists :: "string list list \<Rightarrow> bool ftio" where
  "anyExists [] = ret False"
| "anyExists (p # ps) =
     tryIO (osStat p) (\<lambda>r.
     case r of
       Inr _ \<Rightarrow> ret True
     | Inl e \<Rightarrow> if \<not> osIsNotExist e then fail (Wrap ''cannot check file: '' e) else anyExists ps)"

definition TrustedKeyPrefixExists :: "openpgp \<Rightarrow> ksConfig \<Rightarrow> string \<Rightarrow> string \<Rightarrow> bool ftio" where
  "TrustedKeyPrefixExists pgp ks pfx r =
     (case firstEntity pgp r of
        Inl e \<Rightarrow> fail e
      | Inr pubKey \<Rightarrow>
          let fileName = fingerprintToFilename (Fingerprint pubKey)
          in bindIO (acIdentifier pfx) (\<lambda>i.
             anyExists [pathJoin (LocalPrefixPath ks) (i @ ''/'' @ fileName), pathJoin (SystemPrefixPath ks) (i @ ''/'' @ fileName),
               pathJoin (LocalRootPath ks) fileName, pathJoin (SystemRootPath ks) fileName]))"

definition storeTrustedKey :: "openpgp \<Rightarrow> string list \<Rightarrow> string \<Rightarrow> string list ftio" where
  "storeTrustedKey pgp d pubkeyBytes =
     bindIO (osMkdirAll d) (\<lambda>_.
     case firstEntity pgp pubkeyBytes of
       Inl e \<Rightarrow> fail e
     | Inr pubKey \<Rightarrow>
         let trustedKeyPath = pathJoin d (fingerprintToFilename (Fingerprint pubKey))
         in bindIO (ioutilWriteFile trustedKeyPath pubkeyBytes) (\<lambda>_. ret trustedKeyPath))"

definition StoreTrustedKeyPrefix :: "openpgp \<Rightarrow> ksConfig \<Rightarrow> string \<Rightarrow> string \<Rightarrow> string list ftio" where
  "StoreTrustedKeyPrefix pgp ks pfx r =
     bindIO (acIdentifier pfx) (\<lambda>i. storeTrustedKey pgp (pathJoin (LocalPrefixPath ks) i) r)"

definition StoreTrustedKeyRoot :: "openpgp \<Rightarrow> ksConfig \<Rightarrow> string \<Rightarrow> string list ftio" where
  "StoreTrustedKeyRoot pgp ks r = storeTrustedKey pgp (LocalRootPath ks) r"

section \<open>The keys that are trusted for a name\<close>

type_synonym ring = "string \<Rightarrow> entity option"

definition entityFromFile :: "openpgp \<Rightarrow> string list \<Rightarrow> string \<Rightarrow> goerr + entity" where
  "entityFromFile pgp p c =
     (case firstEntity pgp c of
        Inl e \<Rightarrow> Inl e
      | Inr ent \<Rightarrow>
          if fingerprintToFilename (Fingerprint ent) \<noteq> last p then Inl (Msg ''fingerprint mismatch'') else Inr ent)"

text \<open>What the callback does with a file. Its size is that of its contents, and it is opened if it has any.\<close>

definition trustFile :: "openpgp \<Rightarrow> fileTree \<Rightarrow> string list \<Rightarrow> string \<Rightarrow> ring \<Rightarrow> goerr + ring" where
  "trustFile pgp s p c trustedKeys =
     (if c = '''' then Inr (trustedKeys(last p := None))
      else case treeErr s OpenOp p of
        Some e \<Rightarrow> Inl (PathError e)
      | None \<Rightarrow>
          (case entityFromFile pgp p c of
             Inl e \<Rightarrow> Inl e
           | Inr ent \<Rightarrow> Inr (trustedKeys(fingerprintToFilename (Fingerprint ent) \<mapsto> ent))))"

definition keyWalkFn :: "openpgp \<Rightarrow> fileTree \<Rightarrow> string list \<Rightarrow> ring walkFn" where
  "keyWalkFn pgp s fullPath p info err trustedKeys =
     (case err of
        Some e \<Rightarrow> if \<not> osIsNotExist e then (trustedKeys, WErr e)
                  else (case info of
                          None \<Rightarrow> (trustedKeys, WNil)
                        | Some (TDir _) \<Rightarrow> (trustedKeys, if hasPrefix (pathString fullPath) (pathString p) then WNil else WSkipDir)
                        | Some (TFile c) \<Rightarrow>
                            (case trustFile pgp s p c trustedKeys of Inl e \<Rightarrow> (trustedKeys, WErr e) | Inr tk \<Rightarrow> (tk, WNil)))
      | None \<Rightarrow>
          (case info of
             None \<Rightarrow> (trustedKeys, WNil)
           | Some (TDir _) \<Rightarrow> (trustedKeys, if hasPrefix (pathString fullPath) (pathString p) then WNil else WSkipDir)
           | Some (TFile c) \<Rightarrow>
               (case trustFile pgp s p c trustedKeys of Inl e \<Rightarrow> (trustedKeys, WErr e) | Inr tk \<Rightarrow> (tk, WNil))))"

fun loadPaths :: "openpgp \<Rightarrow> (string list \<times> string list) list \<Rightarrow> fileTree \<Rightarrow> ring \<Rightarrow> goerr + ring" where
  "loadPaths pgp [] s trustedKeys = Inr trustedKeys"
| "loadPaths pgp ((root, fullPath) # ps) s trustedKeys =
     (case filepathWalk (keyWalkFn pgp s fullPath) root trustedKeys s of
        (tk, WNil) \<Rightarrow> loadPaths pgp ps s tk
      | (tk, WErr e) \<Rightarrow> Inl e
      | (tk, WSkipDir) \<Rightarrow> Inl (Msg ''skip this directory''))"

definition keyPaths :: "ksConfig \<Rightarrow> string \<Rightarrow> (string list \<times> string list) list" where
  "keyPaths ks i =
     (let prefixRoot = splitOn CHR ''/'' i ! 0 in
      [(SystemRootPath ks, SystemRootPath ks), (LocalRootPath ks, LocalRootPath ks),
       (pathJoin (SystemPrefixPath ks) prefixRoot, pathJoin (SystemPrefixPath ks) i),
       (pathJoin (LocalPrefixPath ks) prefixRoot, pathJoin (LocalPrefixPath ks) i)])"

definition loadKeyring :: "openpgp \<Rightarrow> ksConfig \<Rightarrow> string \<Rightarrow> fileTree \<Rightarrow> goerr + ring" where
  "loadKeyring pgp ks pfx s =
     (case NewACIdentifier pfx of Inl e \<Rightarrow> Inl (Msg e) | Inr i \<Rightarrow> loadPaths pgp (keyPaths ks i) s Map.empty)"

definition checkSignature :: "openpgp \<Rightarrow> ksConfig \<Rightarrow> string \<Rightarrow> string \<Rightarrow> string \<Rightarrow> fileTree \<Rightarrow> sigErr + entity" where
  "checkSignature pgp ks pfx dat sig s =
     (case NewACIdentifier pfx of
        Inl e \<Rightarrow> Inl (SigOther (Msg e))
      | Inr i \<Rightarrow>
          (case loadKeyring pgp ks i s of
             Inl e \<Rightarrow> Inl (SigOther (Wrap ''keystore: error loading keyring '' e))
           | Inr keyring \<Rightarrow>
               let r = CheckArmoredDetachedSignature pgp keyring dat sig;
                   r2 = (if r = Inl SigEOF then CheckDetachedSignature pgp keyring dat sig else r)
               in if r2 = Inl SigEOF then Inl (SigOther (Msg ''keystore: no valid signatures found in signature file'')) else r2))"

end
