(* ===== verification/Keystore_Facts.thy ===== *)
theory Keystore_Facts
  imports Keystore
begin

text \<open>
  Which keys are trusted: every one has a file in a place that counts for the name, a mask removes what
  came from elsewhere, a key that has been stored is found again. A place counts by the text of its path,
  so a key can be trusted for more names than the prefix it was stored for.
\<close>

section \<open>What a load visits\<close>

interpretation keys: visitor "keyWalkFn pgp s full" "\<lambda>p. hasPrefix (pathString full) (pathString p)" "trustFile pgp s" for pgp s full
  by unfold_locales (auto simp: keyWalkFn_def split: sum.splits)

definition visited :: "fileTree \<Rightarrow> string list \<times> string list \<Rightarrow> (string list \<times> string) list" where
  "visited s place =
     (case lookupAt LstatOp (fst place) s of
        Inl _ \<Rightarrow> []
      | Inr n \<Rightarrow> filesIn (treeErr s) (\<lambda>p. hasPrefix (pathString (snd place)) (pathString p)) (fst place) n)"

lemma loadPaths_visits:
  "loadPaths pgp ps s tk = Inr tk' \<Longrightarrow> visitAll (trustFile pgp s) (concat (map (visited s) ps)) tk = Inr tk'"
proof (induction pgp ps s tk rule: loadPaths.induct)
  case (2 pgp root full ps s tk)
  obtain tk1 w where w: "filepathWalk (keyWalkFn pgp s full) root tk s = (tk1, w)" by fastforce
  then have "w = WNil" "loadPaths pgp ps s tk1 = Inr tk'" using 2(2) by (auto split: walkRes.splits)
  moreover have "visitAll (trustFile pgp s) (visited s (root, full)) tk = Inr tk1"
    using keys.walk_done w \<open>w = WNil\<close> by (fastforce simp: visited_def split: sum.splits)
  ultimately show ?case using 2(1) [OF w [symmetric]] by (simp add: visitAll_append)
qed simp

text \<open>The last file of a name decides.\<close>

lemma trust_from_file:
  assumes "visitAll (trustFile pgp s) fs tk = Inr tk'" and "tk' f = Some ent"
  shows "tk f = Some ent \<and> f \<notin> set (map (last \<circ> fst) fs) \<or>
    (\<exists>fs1 p c fs2. fs = fs1 @ (p, c) # fs2 \<and> last p = f \<and> c \<noteq> '''' \<and> firstEntity pgp c = Inr ent \<and>
       fingerprintToFilename (Fingerprint ent) = f \<and> f \<notin> set (map (last \<circ> fst) fs2))"
  using assms
proof (induction fs arbitrary: tk' rule: rev_induct)
  case (snoc x fs)
  obtain p c where x: "x = (p, c)" by fastforce
  obtain tk1 where one: "visitAll (trustFile pgp s) fs tk = Inr tk1" "trustFile pgp s p c tk1 = Inr tk'"
    using snoc.prems(1) x by (auto simp: visitAll_append split: sum.splits)
  show ?case
  proof (cases "last p = f")
    case True
    then have "c \<noteq> ''''" "firstEntity pgp c = Inr ent" "fingerprintToFilename (Fingerprint ent) = f"
      using one(2) snoc.prems(2)
      by (auto simp: trustFile_def entityFromFile_def split: if_splits option.splits sum.splits)
    then show ?thesis using x True by fastforce
  next
    case False
    then have "tk1 f = Some ent"
      using one(2) snoc.prems(2) by (auto simp: trustFile_def entityFromFile_def split: if_splits option.splits sum.splits)
    from snoc.IH [OF one(1) this] show ?thesis
    proof (elim disjE exE)
      fix fs1 p1 c1 fs2
      assume "fs = fs1 @ (p1, c1) # fs2 \<and> last p1 = f \<and> c1 \<noteq> '''' \<and> firstEntity pgp c1 = Inr ent \<and>
        fingerprintToFilename (Fingerprint ent) = f \<and> f \<notin> set (map (last \<circ> fst) fs2)"
      then show ?thesis using x False
        by (intro disjI2 exI [of _ fs1] exI [of _ p1] exI [of _ c1] exI [of _ "fs2 @ [x]"]) auto
    qed (use x False in auto)
  qed
qed simp

lemma trust_present:
  assumes "visitAll (trustFile pgp s) fs tk = Inr tk'" and "(p, c) \<in> set fs" and "\<forall>(q, d) \<in> set fs. last q = last p \<longrightarrow> d \<noteq> ''''"
  shows "tk' (last p) \<noteq> None"
  using assms
proof (induction fs arbitrary: tk' rule: rev_induct)
  case (snoc x fs)
  obtain q d where x: "x = (q, d)" by fastforce
  obtain tk1 where one: "visitAll (trustFile pgp s) fs tk = Inr tk1" "trustFile pgp s q d tk1 = Inr tk'"
    using snoc.prems(1) x by (auto simp: visitAll_append split: sum.splits)
  show ?case
  proof (cases "last q = last p")
    case True
    then show ?thesis using one(2) snoc.prems(3) x
      by (auto simp: trustFile_def entityFromFile_def split: option.splits sum.splits if_splits)
  next
    case False
    then have "tk1 (last p) \<noteq> None" using snoc one(1) x by auto
    then show ?thesis using one(2) False
      by (auto simp: trustFile_def entityFromFile_def split: if_splits option.splits sum.splits)
  qed
qed simp

lemma trust_succeeds:
  assumes "\<And>p c. (p, c) \<in> set fs \<Longrightarrow> c \<noteq> '''' \<Longrightarrow> treeErr s OpenOp p = None \<and> (\<exists>ent. entityFromFile pgp p c = Inr ent)"
  shows "\<exists>tk'. visitAll (trustFile pgp s) fs tk = Inr tk'"
  using assms
proof (induction fs arbitrary: tk)
  case (Cons x fs)
  obtain p c where x: "x = (p, c)" by fastforce
  have "\<exists>tk1. trustFile pgp s p c tk = Inr tk1" using Cons.prems [of p c] x by (auto simp: trustFile_def)
  then show ?case using Cons x by (auto split: sum.split)
qed simp

section \<open>Where a trusted key comes from\<close>

text \<open>
  A place counts for a name if it is below one of the four directories and every directory on the way is
  a textual prefix of the directory that belongs to the name.
\<close>

definition counts :: "string list \<times> string list \<Rightarrow> string list \<Rightarrow> bool" where
  "counts place p \<longleftrightarrow> (\<exists>r. p = fst place @ r \<and>
     (\<forall>r1 x r2. r = r1 @ x # r2 \<longrightarrow> hasPrefix (pathString (snd place)) (pathString (fst place @ r1))))"

lemma isFile_below: "resolve t p = Inr n \<Longrightarrow> isFile n r c \<longleftrightarrow> isFile t (p @ r) c"
proof (induction t p rule: resolve.induct)
  case (3 es x xs)
  then show ?case by (auto split: option.splits)
qed auto

lemma wf_below: "wfTree t \<Longrightarrow> resolve t p = Inr n \<Longrightarrow> wfTree n"
  by (induction t p rule: resolve.induct) (auto split: option.splits dest!: wf_entry [rotated] simp del: wfTree.simps)

lemma visited_iff:
  assumes "wfTree (treeRoot s)" and "\<And>c q. treeErr s c q \<noteq> Some ENOENT"
  shows "(p, c) \<in> set (visited s place) \<longleftrightarrow>
    treeErr s LstatOp (fst place) = None \<and> isFile (treeRoot s) p c \<and> counts place p"
proof (cases "lookupAt LstatOp (fst place) s")
  case (Inl e)
  have "\<not> (treeErr s LstatOp (fst place) = None \<and> isFile (treeRoot s) p c \<and> counts place p)"
  proof
    assume *: "treeErr s LstatOp (fst place) = None \<and> isFile (treeRoot s) p c \<and> counts place p"
    then obtain r e' where "p = fst place @ r" "resolve (treeRoot s) (fst place) = Inl e'"
      using Inl by (auto simp: counts_def lookupAt_def split: sum.splits)
    moreover have "\<not> isFile t (q @ r) c" if "resolve t q = Inl e'" for t q
      using that by (induction t q rule: resolve.induct) (auto split: option.splits)
    ultimately show False using * by blast
  qed
  then show ?thesis using Inl by (simp add: visited_def)
next
  case (Inr n)
  then have n: "treeErr s LstatOp (fst place) = None" "resolve (treeRoot s) (fst place) = Inr n"
    by (auto simp: lookupAt_def split: option.splits sum.splits)
  then show ?thesis
    using filesIn_iff [OF wf_below [OF assms(1) n(2)]] isFile_below [OF n(2)] assms(2) Inr
    by (auto simp: visited_def counts_def reaches_def)
qed

lemma visited_sound:
  assumes "wfTree (treeRoot s)" and "(p, c) \<in> set (visited s place)"
  shows "isFile (treeRoot s) p c \<and> counts place p"
proof -
  obtain n where n: "lookupAt LstatOp (fst place) s = Inr n"
    and f: "(p, c) \<in> set (filesIn (treeErr s) (\<lambda>p. hasPrefix (pathString (snd place)) (pathString p)) (fst place) n)"
    using assms(2) by (cases "lookupAt LstatOp (fst place) s") (auto simp: visited_def)
  have "resolve (treeRoot s) (fst place) = Inr n" using n by (auto simp: lookupAt_def split: option.splits sum.splits)
  then show ?thesis
    using f filesIn_iff [OF wf_below [OF assms(1)]] isFile_below by (auto simp: counts_def reaches_def)
qed

lemma identifier_same: "NewACIdentifier pfx = Inr i \<Longrightarrow> i = pfx"
  by (auto simp: NewACIdentifier_def split: sum.splits)

lemma loadKeyring_paths: "loadKeyring pgp ks pfx s = Inr ring \<Longrightarrow> loadPaths pgp (keyPaths ks pfx) s Map.empty = Inr ring"
  by (auto simp: loadKeyring_def dest: identifier_same split: sum.splits)

lemma loadKeyring_visits:
  "loadKeyring pgp ks pfx s = Inr ring \<Longrightarrow> visitAll (trustFile pgp s) (concat (map (visited s) (keyPaths ks pfx))) Map.empty = Inr ring"
  using loadPaths_visits [OF loadKeyring_paths] .

text \<open>
  Every key that is trusted for a name has a file that says so: not empty, named by the fingerprint
  of the key it holds, and in a place that counts for the name. A key ring is loaded from nowhere else.
\<close>

theorem trusted_keys_have_a_place:
  assumes "wfTree (treeRoot s)" and "loadKeyring pgp ks pfx s = Inr ring" and "ring f = Some ent"
  shows "\<exists>place \<in> set (keyPaths ks pfx). \<exists>p c. isFile (treeRoot s) p c \<and> counts place p \<and> c \<noteq> '''' \<and>
    firstEntity pgp c = Inr ent \<and> last p = fingerprintToFilename (Fingerprint ent) \<and> fingerprintToFilename (Fingerprint ent) = f"
proof -
  obtain fs1 p c fs2 where fs: "concat (map (visited s) (keyPaths ks pfx)) = fs1 @ (p, c) # fs2" and
    p: "last p = f" "c \<noteq> ''''" "firstEntity pgp c = Inr ent" "fingerprintToFilename (Fingerprint ent) = f"
    using trust_from_file [OF loadKeyring_visits [OF assms(2)] assms(3)] by auto
  have "(p, c) \<in> set (concat (map (visited s) (keyPaths ks pfx)))" unfolding fs by simp
  then obtain place where place: "place \<in> set (keyPaths ks pfx)" "(p, c) \<in> set (visited s place)" by auto
  show ?thesis
    using visited_sound [OF assms(1) place(2)] p by (intro bexI [OF _ place(1)] exI [of _ p] exI [of _ c]) simp
qed

text \<open>What the signature checks of OpenPGP promise: the signer is one of the keys in the ring.\<close>

definition signsFromRing :: "openpgp \<Rightarrow> bool" where
  "signsFromRing pgp \<longleftrightarrow> (\<forall>ring dat sig ent.
     CheckArmoredDetachedSignature pgp ring dat sig = Inr ent \<or> CheckDetachedSignature pgp ring dat sig = Inr ent \<longrightarrow> (\<exists>fp. ring fp = Some ent))"

text \<open>
  C7. A signature is accepted for a name only if its signer has a key file that says so: not empty, named by
  the fingerprint of the key it holds, and in a place that counts for the name.
\<close>

theorem signers_have_key_files:
  assumes "wfTree (treeRoot s)" and "signsFromRing pgp" and "checkSignature pgp ks name dat sig s = Inr ent"
  shows "\<exists>place \<in> set (keyPaths ks name). \<exists>p c. isFile (treeRoot s) p c \<and> counts place p \<and> c \<noteq> '''' \<and>
    firstEntity pgp c = Inr ent \<and> last p = fingerprintToFilename (Fingerprint ent)"
proof -
  obtain i where i: "NewACIdentifier name = Inr i"
    using assms(3) by (cases "NewACIdentifier name") (simp_all add: checkSignature_def)
  then have "i = name" by (rule identifier_same)
  obtain ring where ring: "loadKeyring pgp ks name s = Inr ring"
    using assms(3) i \<open>i = name\<close> by (cases "loadKeyring pgp ks name s") (simp_all add: checkSignature_def)
  then have "CheckArmoredDetachedSignature pgp ring dat sig = Inr ent \<or> CheckDetachedSignature pgp ring dat sig = Inr ent"
    using assms(3) i \<open>i = name\<close> by (auto simp: checkSignature_def Let_def split: if_splits)
  then obtain fp where "ring fp = Some ent" using assms(2) unfolding signsFromRing_def by blast
  from trusted_keys_have_a_place [OF assms(1) ring this] show ?thesis by blast
qed

section \<open>Names as paths\<close>

definition plainPath :: "string \<Rightarrow> bool" where
  "plainPath i \<longleftrightarrow> list_all (\<lambda>x. x \<notin> {'''', ''.'', ''..''}) (splitOn CHR ''/'' i)"

lemma splitOn_append_sep: "splitOn c (a @ c # b) = splitOn c a @ splitOn c b"
proof (induction a)
  case (Cons x a)
  then show ?case by (cases "splitOn c a") auto
qed simp

lemma pathJoin_plain: "plainPath i \<Longrightarrow> pathJoin base i = base @ splitOn CHR ''/'' i"
proof -
  have "list_all (\<lambda>x. x \<notin> {'''', ''.'', ''..''}) xs \<Longrightarrow> foldl cleanStep base xs = base @ xs" for xs
    by (induction xs arbitrary: base) (auto simp: cleanStep_def)
  then show "plainPath i \<Longrightarrow> pathJoin base i = base @ splitOn CHR ''/'' i" by (simp add: plainPath_def pathJoin_def)
qed

text \<open>The name of a key file.\<close>

definition fileName :: "string \<Rightarrow> bool" where
  "fileName f \<longleftrightarrow> CHR ''/'' \<notin> set f \<and> f \<notin> {'''', ''.'', ''..''}"

lemma pathJoin_name: "fileName f \<Longrightarrow> pathJoin base f = base @ [f]"
  by (simp add: fileName_def pathJoin_def splitOn_no_sep cleanStep_def)

lemma pathJoin_file: "plainPath i \<Longrightarrow> fileName f \<Longrightarrow> pathJoin base (i @ ''/'' @ f) = base @ splitOn CHR ''/'' i @ [f]"
  using pathJoin_plain [of "i @ ''/'' @ f" base] by (simp add: plainPath_def fileName_def splitOn_append_sep splitOn_no_sep)

lemma plain_first: "plainPath i \<Longrightarrow> pathJoin base (splitOn CHR ''/'' i ! 0) = base @ [hd (splitOn CHR ''/'' i)]"
proof -
  assume "plainPath i"
  then have "fileName (hd (splitOn CHR ''/'' i))"
    using splitOn_pieces [of "hd (splitOn CHR ''/'' i)" "CHR ''/''" i] by (cases "splitOn CHR ''/'' i") (auto simp: plainPath_def fileName_def)
  then show ?thesis by (simp add: pathJoin_name hd_conv_nth)
qed

lemma pathString_append: "hasPrefix (pathString (a @ b)) (pathString a)"
  by (simp add: pathString_def)

lemma counts_below: "xs \<noteq> [] \<Longrightarrow> counts (base @ [hd xs], base @ xs @ deeper) (base @ xs @ [f])"
proof -
  assume "xs \<noteq> []"
  then obtain x ys where xs: "xs = x # ys" by (cases xs) auto
  have "hasPrefix (pathString (base @ (x # ys) @ deeper)) (pathString ((base @ [x]) @ r1))" if "ys @ [f] = r1 @ z # r2" for r1 z r2
  proof -
    have "prefix r1 ys" using that by (cases r2 rule: rev_cases) (auto simp: prefix_def)
    then obtain t where "ys = r1 @ t" by (auto simp: prefix_def)
    then show ?thesis using pathString_append [of "(base @ [x]) @ r1" "t @ deeper"] by simp
  qed
  then show ?thesis unfolding counts_def xs by (intro exI [of _ "ys @ [f]"]) auto
qed

lemma local_place:
  "plainPath i \<Longrightarrow> last (keyPaths ks i) = (LocalPrefixPath ks @ [hd (splitOn CHR ''/'' i)], LocalPrefixPath ks @ splitOn CHR ''/'' i)"
  by (simp add: keyPaths_def Let_def plain_first pathJoin_plain)

section \<open>Masked keys\<close>

lemma last_segment:
  assumes "A @ L = fs1 @ (p, c) # fs2" and "(q, d) \<in> set L" and "last q = f" and "f \<notin> set (map (last \<circ> fst) fs2)"
  shows "(p, c) \<in> set L"
proof -
  have "(q, d) \<notin> set fs2" using assms(3,4) by force
  moreover have "(\<exists>us. L = us @ (p, c) # fs2) \<or> (\<exists>us. fs2 = us @ L)"
    using assms(1) by (auto simp: append_eq_append_conv2 Cons_eq_append_conv append_eq_Cons_conv)
  ultimately show ?thesis using assms(2) by auto
qed

text \<open>
  C27. Masking a key of the system for a prefix works: once it has succeeded, no key of that fingerprint
  from the directories of the system, and none from a root directory, is trusted for the prefix. If one
  is still trusted, somebody has put it into the local directory of a shorter prefix.
\<close>

theorem mask_removes_system_keys:
  assumes "MaskTrustedKeySystemPrefix ks pfx f s = (s', Inr dst)" and "plainPath pfx" and "fileName f"
    and "wfTree (treeRoot s)" and "\<And>c q. treeErr s c q \<noteq> Some ENOENT"
    and "loadKeyring pgp ks pfx s' = Inr ring" and "ring f = Some ent"
  shows "\<exists>p c. isFile (treeRoot s) p c \<and> c \<noteq> '''' \<and> last p = f \<and> prefix (LocalPrefixPath ks) p \<and>
    p \<noteq> LocalPrefixPath ks @ splitOn CHR ''/'' pfx @ [f]"
proof -
  let ?xs = "splitOn CHR ''/'' pfx" let ?base = "LocalPrefixPath ks"
  have w: "ioutilWriteFile ((?base @ ?xs) @ [f]) '''' s = (s', Inr ())"
    using assms(1) pathJoin_file [OF assms(2,3), of ?base]
    by (auto simp: MaskTrustedKeySystemPrefix_def acIdentifier_def Let_def io_simps dest: identifier_same split: sum.splits prod.splits)
  note s' = writeFile_ok [OF w]
  have wf: "wfTree (treeRoot s')" using s'(3) assms(4) .
  let ?place = "(?base @ [hd ?xs], ?base @ ?xs)"
  let ?A = "concat (map (visited s') (butlast (keyPaths ks pfx)))" and ?L = "visited s' ?place"
  have AL: "concat (map (visited s') (keyPaths ks pfx)) = ?A @ ?L"
    using local_place [OF assms(2), of ks] by (simp add: keyPaths_def Let_def)
  obtain fs1 p c fs2 where fs: "?A @ ?L = fs1 @ (p, c) # fs2" "last p = f" "c \<noteq> ''''" "f \<notin> set (map (last \<circ> fst) fs2)"
    using trust_from_file [OF loadKeyring_visits [OF assms(6)] assms(7)] unfolding AL by auto
  have "filepathWalk (keyWalkFn pgp s' (?base @ ?xs)) (?base @ [hd ?xs]) tk s' = (tk', WNil) \<Longrightarrow> treeErr s' LstatOp (?base @ [hd ?xs]) = None" for tk tk'
    using assms(5) s'(1) by (auto simp: filepathWalk_def lookupAt_def keys.missing split: option.splits if_splits)
  then have "treeErr s' LstatOp (fst ?place) = None"
    using loadKeyring_paths [OF assms(6)] plain_first [OF assms(2), of ?base] pathJoin_plain [OF assms(2), of ?base]
    by (auto simp: keyPaths_def Let_def split: prod.splits walkRes.splits)
  moreover have "isFile (treeRoot s') (?base @ ?xs @ [f]) ''''" using s'(2) by simp
  ultimately have mask: "(?base @ ?xs @ [f], '''') \<in> set ?L"
    using visited_iff [OF wf, of "?base @ ?xs @ [f]" "''''" ?place] assms(5) s'(1) counts_below [of ?xs ?base "[]" f] by simp
  have "(p, c) \<in> set ?L" by (rule last_segment [OF fs(1) mask _ fs(4)]) simp
  then have "isFile (treeRoot s') p c" "counts ?place p" using visited_sound [OF wf] by blast+
  then show ?thesis using s'(2) fs(2,3) by (intro exI [of _ p] exI [of _ c]) (auto simp: counts_def split: if_splits)
qed

section \<open>Stored keys\<close>

definition keyDirs :: "ksConfig \<Rightarrow> string list list" where
  "keyDirs ks = [SystemRootPath ks, LocalRootPath ks, SystemPrefixPath ks, LocalPrefixPath ks]"

text \<open>Nothing fails, directories are where they should be, and every key file holds the key it is named after.\<close>

definition soundKeys :: "openpgp \<Rightarrow> ksConfig \<Rightarrow> fileTree \<Rightarrow> bool" where
  "soundKeys pgp ks s \<longleftrightarrow> wfTree (treeRoot s) \<and> (\<forall>c q. treeErr s c q = None) \<and>
     (\<forall>q c. isFile (treeRoot s) q c \<longrightarrow>
        (\<forall>d \<in> set (keyDirs ks). \<not> prefix q d \<and> (prefix d q \<and> c \<noteq> '''' \<longrightarrow> (\<exists>ent. entityFromFile pgp q c = Inr ent))))"

lemma resolve_err: "resolve t p = Inl e \<Longrightarrow> e = ENOENT \<or> (\<exists>q c. strict_prefix q p \<and> isFile t q c)"
proof (induction t p rule: resolve.induct)
  case (2 c x xs)
  then show ?case by (intro disjI2 exI [of _ "[]"] exI [of _ c]) auto
next
  case (3 es x xs)
  show ?case
  proof (cases "map_of es x")
    case (Some n)
    then consider "e = ENOENT" | q c where "strict_prefix q xs" "isFile n q c" using 3 by auto
    then show ?thesis
    proof cases
      case 2
      then show ?thesis using Some by (intro disjI2 exI [of _ "x # q"] exI [of _ c]) simp
    qed simp
  qed (use 3 in simp)
qed simp

lemma loadPaths_succeeds:
  assumes "\<And>c q. treeErr s c q = None"
    and "\<And>place q c. place \<in> set ps \<Longrightarrow> isFile (treeRoot s) q c \<Longrightarrow> \<not> strict_prefix q (fst place)"
    and "\<And>place p c. place \<in> set ps \<Longrightarrow> (p, c) \<in> set (visited s place) \<Longrightarrow> c \<noteq> '''' \<Longrightarrow> \<exists>ent. entityFromFile pgp p c = Inr ent"
  shows "\<exists>tk'. loadPaths pgp ps s tk = Inr tk'"
  using assms(2,3)
proof (induction ps arbitrary: tk)
  case (Cons place ps)
  obtain root full where place: "place = (root, full)" by fastforce
  have "\<exists>tk1. filepathWalk (keyWalkFn pgp s full) root tk s = (tk1, WNil)"
  proof (cases "resolve (treeRoot s) root")
    case (Inl e)
    then have "e = ENOENT" using resolve_err [OF Inl] Cons.prems(1) [of place] place by auto
    then show ?thesis using Inl assms(1) by (simp add: filepathWalk_def lookupAt_def keys.missing)
  next
    case (Inr n)
    then have look: "lookupAt LstatOp root s = Inr n" using assms(1) by (simp add: lookupAt_def)
    obtain tk1 where "visitAll (trustFile pgp s) (visited s place) tk = Inr tk1"
      using trust_succeeds [of "visited s place" s pgp tk] Cons.prems(2) [of place] assms(1) by auto
    moreover obtain tk2 w where "walkNode (treeErr s) (keyWalkFn pgp s full) root n tk = (tk2, w)" by fastforce
    ultimately show ?thesis
      using keys.walk_complete(1) [OF _ refl assms(1)] look place by (simp add: filepathWalk_def visited_def)
  qed
  moreover have "\<exists>tk'. loadPaths pgp ps s tk1 = Inr tk'" for tk1
    by (rule Cons.IH) (use Cons.prems in \<open>meson list.set_intros(2)\<close>)+
  ultimately show ?case using place by auto
qed simp

lemma hex_fileName: "fp \<noteq> [] \<Longrightarrow> fileName (fingerprintToFilename fp)"
proof -
  assume "fp \<noteq> []"
  have digit: "hexDigit n \<notin> {CHR ''/'', CHR ''.''}" if "n < 16" for n
    using fromHexChar_hexDigit [OF that] by (auto simp del: fromHexChar_hexDigit)
  have "c \<notin> {CHR ''/'', CHR ''.''}" if "c \<in> set (hexByte b)" for c and b :: "8 word"
  proof -
    have "unat b div 16 < 16" using unat_byte [of b] by auto
    then show ?thesis using that digit [of "unat b div 16"] digit [of "unat b mod 16"] by (auto simp: hexByte_def)
  qed
  then have "set (hexEncode fp) \<inter> {CHR ''/'', CHR ''.''} = {}"
    unfolding hexEncode_def set_concat set_map by blast
  moreover have "hexEncode fp \<noteq> []" using \<open>fp \<noteq> []\<close> by (cases fp) (simp_all add: hexEncode_def hexByte_def)
  ultimately show ?thesis by (auto simp: fileName_def fingerprintToFilename_def)
qed

lemma storeTrustedKey_ok:
  assumes "storeTrustedKey pgp d key s = (s', Inr p)" and "firstEntity pgp key = Inr ent" and "Fingerprint ent \<noteq> []"
  shows "p = d @ [fingerprintToFilename (Fingerprint ent)]" and "treeErr s' = treeErr s"
    and "isFile (treeRoot s') q c \<longleftrightarrow> (if q = p then c = key else isFile (treeRoot s) q c)"
    and "wfTree (treeRoot s) \<Longrightarrow> wfTree (treeRoot s')"
proof -
  let ?f = "fingerprintToFilename (Fingerprint ent)"
  have "pathJoin d ?f = d @ [?f]" using pathJoin_name [OF hex_fileName [OF assms(3)]] .
  then obtain s1 where s1: "osMkdirAll d s = (s1, Inr ())" "ioutilWriteFile (d @ [?f]) key s1 = (s', Inr ())" and p: "p = d @ [?f]"
    using assms(1,2) by (auto simp: storeTrustedKey_def io_simps Let_def split: sum.splits prod.splits)
  show "p = d @ [?f]" by (rule p)
  show "treeErr s' = treeErr s" using mkdirAll_ok(1) [OF s1(1)] writeFile_ok(1) [OF s1(2)] by simp
  show "isFile (treeRoot s') q c \<longleftrightarrow> (if q = p then c = key else isFile (treeRoot s) q c)"
    using mkdirAll_ok(2) [OF s1(1)] writeFile_ok(2) [OF s1(2)] p by simp
  show "wfTree (treeRoot s')" if "wfTree (treeRoot s)"
    using mkdirAll_ok(3) [OF s1(1) that] writeFile_ok(3) [OF s1(2)] by simp
qed

lemma soundKeys_load:
  assumes "soundKeys pgp ks s" and "plainPath i" and "NewACIdentifier i = Inr i"
  shows "\<exists>ring. loadKeyring pgp ks i s = Inr ring"
proof -
  have sound: "wfTree (treeRoot s)" "\<And>c q. treeErr s c q = None"
    "\<And>q c d. isFile (treeRoot s) q c \<Longrightarrow> d \<in> set (keyDirs ks) \<Longrightarrow> \<not> prefix q d"
    "\<And>q c d. isFile (treeRoot s) q c \<Longrightarrow> d \<in> set (keyDirs ks) \<Longrightarrow> prefix d q \<Longrightarrow> c \<noteq> '''' \<Longrightarrow> \<exists>ent. entityFromFile pgp q c = Inr ent"
    using assms(1) by (auto simp: soundKeys_def)
  have place: "\<exists>d \<in> set (keyDirs ks). fst place = d \<or> (\<exists>x. fst place = d @ [x])" if "place \<in> set (keyPaths ks i)" for place
    using that plain_first [OF assms(2)] by (auto simp: keyPaths_def keyDirs_def Let_def)
  have "\<exists>tk'. loadPaths pgp (keyPaths ks i) s Map.empty = Inr tk'"
  proof (rule loadPaths_succeeds [OF sound(2)])
    fix place q c assume "place \<in> set (keyPaths ks i)" and q: "isFile (treeRoot s) q c"
    then obtain d where "d \<in> set (keyDirs ks)" "fst place = d \<or> (\<exists>x. fst place = d @ [x])" using place by blast
    then show "\<not> strict_prefix q (fst place)" using sound(3) [OF q] by (auto simp: strict_prefix_def)
  next
    fix place p c assume pl: "place \<in> set (keyPaths ks i)" and v: "(p, c) \<in> set (visited s place)" "c \<noteq> ''''"
    have p: "isFile (treeRoot s) p c" "prefix (fst place) p" using visited_sound [OF sound(1) v(1)] by (auto simp: counts_def)
    obtain d where "d \<in> set (keyDirs ks)" "prefix d (fst place)" using place [OF pl] by auto
    then show "\<exists>ent. entityFromFile pgp p c = Inr ent" using sound(4) [OF p(1) _ _ v(2)] p(2) prefix_order.trans by blast
  qed
  then show ?thesis using assms(3) by (simp add: loadKeyring_def)
qed

lemma soundKeys_stored:
  assumes "soundKeys pgp ks s" and "storeTrustedKey pgp d key s = (s', Inr p)" and "firstEntity pgp key = Inr ent" and "Fingerprint ent \<noteq> []"
    and "\<forall>k \<in> set (keyDirs ks). \<not> prefix p k"
  shows "soundKeys pgp ks s'"
proof -
  note ok = storeTrustedKey_ok [OF assms(2-4)]
  have "entityFromFile pgp p key = Inr ent" using ok(1) assms(3) by (simp add: entityFromFile_def)
  then show ?thesis using assms(1,5) ok(2,3,4) by (auto simp: soundKeys_def split: if_splits)
qed

text \<open>
  C26. A key that has been stored for a prefix is trusted for the prefix and for every name that continues
  it: if nothing fails, the key rings of these names can be loaded, before and after, and unless a local
  file masks the fingerprint the ring holds a key of that fingerprint.
\<close>

theorem stored_key_is_trusted:
  assumes "soundKeys pgp (NewConfig sys loc) s" and "\<not> prefix loc sys"
    and "StoreTrustedKeyPrefix pgp (NewConfig sys loc) pfx key s = (s', Inr p)"
    and "firstEntity pgp key = Inr ent" and "Fingerprint ent \<noteq> []" and "key \<noteq> ''''"
    and "\<forall>q. isFile (treeRoot s) q '''' \<longrightarrow> last q \<noteq> fingerprintToFilename (Fingerprint ent)"
    and "plainPath i" and "NewACIdentifier i = Inr i" and "splitOn CHR ''/'' i = splitOn CHR ''/'' pfx @ deeper"
  shows "soundKeys pgp (NewConfig sys loc) s' \<and>
    (\<exists>ring. loadKeyring pgp (NewConfig sys loc) i s' = Inr ring \<and> ring (fingerprintToFilename (Fingerprint ent)) \<noteq> None)"
proof -
  let ?ks = "NewConfig sys loc" and ?f = "fingerprintToFilename (Fingerprint ent)" and ?xs = "splitOn CHR ''/'' pfx"
  let ?base = "LocalPrefixPath ?ks"
  have plain: "plainPath pfx" using assms(8,10) by (simp add: plainPath_def)
  have st: "storeTrustedKey pgp (?base @ ?xs) key s = (s', Inr p)"
    using assms(3) pathJoin_plain [OF plain, of ?base]
    by (auto simp: StoreTrustedKeyPrefix_def acIdentifier_def io_simps dest: identifier_same split: sum.splits)
  note ok = storeTrustedKey_ok [OF st assms(4,5)]
  have "\<not> prefix p d" if "d \<in> set (keyDirs ?ks)" for d
  proof
    assume "prefix p d"
    then obtain z where z: "d = loc @ [''trustedkeys'', ''prefix.d''] @ ?xs @ [?f] @ z"
      using ok(1) by (auto simp: prefix_def NewConfig_def)
    have "d = sys @ [''trustedkeys'', ''root.d''] \<or> d = sys @ [''trustedkeys'', ''prefix.d'']"
      using that z by (auto simp: keyDirs_def NewConfig_def)
    then have "butlast (butlast d) = sys" by (auto simp: butlast_append)
    moreover have "prefix loc (butlast (butlast d))" unfolding z using append_butlast_last_id [of "?xs @ [?f] @ z"] by (simp add: butlast_append prefix_def)
    ultimately show False using assms(2) by simp
  qed
  then have sound: "soundKeys pgp ?ks s'" using soundKeys_stored [OF assms(1) st assms(4,5)] by blast
  obtain ring where ring: "loadKeyring pgp ?ks i s' = Inr ring" using soundKeys_load [OF sound assms(8,9)] by blast
  have quiet: "wfTree (treeRoot s')" "\<And>c q. treeErr s' c q = None" using sound by (auto simp: soundKeys_def)
  have i: "splitOn CHR ''/'' i \<noteq> []" "hd (splitOn CHR ''/'' i) = hd ?xs" using assms(10) by simp_all
  have "(?base @ ?xs @ [?f], key) \<in> set (visited s' (last (keyPaths ?ks i)))"
    unfolding local_place [OF assms(8)]
    using visited_iff [OF quiet(1)] quiet(2) ok(1,3) counts_below [of ?xs ?base deeper ?f] i assms(10) by simp
  then have mem: "(?base @ ?xs @ [?f], key) \<in> set (concat (map (visited s') (keyPaths ?ks i)))"
    by (auto simp: keyPaths_def Let_def)
  have "last q = ?f \<longrightarrow> c \<noteq> ''''" if v: "(q, c) \<in> set (concat (map (visited s') (keyPaths ?ks i)))" for q c
  proof -
    obtain place where "(q, c) \<in> set (visited s' place)" using v by auto
    then have "isFile (treeRoot s') q c" using visited_sound [OF quiet(1)] by blast
    then show ?thesis using ok(3) [of q c] assms(6,7) by (cases "q = p") auto
  qed
  then have "ring ?f \<noteq> None" using trust_present [OF loadKeyring_visits [OF ring] mem] by auto
  then show ?thesis using sound ring by blast
qed

section \<open>Sample keys\<close>

definition samplePgp :: openpgp where
  "samplePgp =
     \<lparr>ReadArmoredKeyRing = \<lambda>c. if c = ''key'' then Inr [\<lparr>Fingerprint = [0xff], Identities = [''me'']\<rparr>] else Inl (Msg ''EOF''),
      CheckArmoredDetachedSignature = \<lambda>ring dat sig. if ring ''ff'' \<noteq> None \<and> sig = ''signed '' @ dat then Inr (the (ring ''ff'')) else Inl (SignatureError ''bad''),
      CheckDetachedSignature = \<lambda>ring dat sig. Inl SigEOF\<rparr>"

definition sampleConfig :: ksConfig where
  "sampleConfig = NewConfig [''usr''] [''etc'']"

text \<open>A key of the system for \<^verbatim>\<open>example.com/app\<close>, and a local directory for that prefix.\<close>

definition sampleTree :: fileTree where
  "sampleTree =
     \<lparr>treeRoot = TDir
        [(''etc'', TDir [(''trustedkeys'', TDir [(''prefix.d'', TDir [(''example.com'', TDir [(''app'', TDir [])])])])]),
         (''usr'', TDir [(''trustedkeys'', TDir [(''prefix.d'', TDir [(''example.com'', TDir [(''app'', TDir [(''ff'', TFile ''key'')])])])])])],
      treeErr = \<lambda>_ _. None, treeTorn = ''''\<rparr>"

text \<open>
  A prefix counts by its text, not by its components: a key that the system trusts for
  \<^verbatim>\<open>example.com/app\<close> also verifies images called \<^verbatim>\<open>example.com/apple\<close>.
\<close>

theorem prefixes_are_textual:
  "(case loadKeyring samplePgp sampleConfig ''example.com/apple'' sampleTree of Inl _ \<Rightarrow> False | Inr ring \<Rightarrow> ring ''ff'' \<noteq> None) \<and>
   checkSignature samplePgp sampleConfig ''example.com/apple'' ''data'' ''signed data'' sampleTree =
     Inr \<lparr>Fingerprint = [0xff], Identities = [''me'']\<rparr> \<and>
   isl (checkSignature samplePgp sampleConfig ''example.com/bar'' ''data'' ''signed data'' sampleTree)"
  by code_simp

text \<open>The same with a local key for \<^verbatim>\<open>example.com\<close>, which outlives a mask for \<^verbatim>\<open>example.com/app\<close>.\<close>

definition localTree :: fileTree where
  "localTree = sampleTree\<lparr>treeRoot := TDir
     [(''etc'', TDir [(''trustedkeys'', TDir [(''prefix.d'', TDir [(''example.com'', TDir [(''app'', TDir []), (''ff'', TFile ''key'')])])])])]\<rparr>"

lemma allFiles:
  assumes "wfTree n" and "list_all (\<lambda>(q, c). P q c) (filesIn (\<lambda>_ _. None) (\<lambda>_. True) [] n)" and "isFile n q c"
  shows "P q c"
  using filesIn_iff [OF assms(1), of q c "\<lambda>_ _. None" "\<lambda>_. True" "[]"] assms(2,3) by (auto simp: reaches_def list_all_iff)

lemma sample_wf: "wfTree (treeRoot sampleTree)" "wfTree (treeRoot localTree)"
  by code_simp+

lemma keytrees_quiet: "treeErr sampleTree c q = None" "treeErr localTree c q = None"
  by (simp_all add: sampleTree_def localTree_def)

theorem trusted_keys_have_a_place_witness:
  "\<exists>place \<in> set (keyPaths sampleConfig ''example.com/app''). \<exists>p. isFile (treeRoot sampleTree) p ''key'' \<and> counts place p \<and> last p = ''ff''"
proof -
  have "case loadKeyring samplePgp sampleConfig ''example.com/app'' sampleTree of Inl _ \<Rightarrow> False
    | Inr ring \<Rightarrow> ring ''ff'' = Some \<lparr>Fingerprint = [0xff], Identities = [''me'']\<rparr>" by code_simp
  then obtain ring where "loadKeyring samplePgp sampleConfig ''example.com/app'' sampleTree = Inr ring"
    "ring ''ff'' = Some \<lparr>Fingerprint = [0xff], Identities = [''me'']\<rparr>" by (auto split: sum.splits)
  from trusted_keys_have_a_place [OF sample_wf(1) this] obtain place p c where
    "place \<in> set (keyPaths sampleConfig ''example.com/app'')" "isFile (treeRoot sampleTree) p c" "counts place p"
    "firstEntity samplePgp c = Inr \<lparr>Fingerprint = [0xff], Identities = [''me'']\<rparr>" "last p = ''ff''" by metis
  moreover from this have "c = ''key''" by (auto simp: firstEntity_def samplePgp_def split: if_splits)
  ultimately show ?thesis by blast
qed

theorem signers_have_key_files_witness:
  "\<exists>place \<in> set (keyPaths sampleConfig ''example.com/app''). \<exists>p. isFile (treeRoot sampleTree) p ''key'' \<and> counts place p \<and> last p = ''ff''"
proof -
  have "signsFromRing samplePgp" unfolding signsFromRing_def samplePgp_def by (auto split: if_splits)
  moreover have "checkSignature samplePgp sampleConfig ''example.com/app'' ''data'' ''signed data'' sampleTree = Inr \<lparr>Fingerprint = [0xff], Identities = [''me'']\<rparr>"
    by code_simp
  moreover have "fingerprintToFilename [0xff] = ''ff''" by code_simp
  ultimately obtain place p c where "place \<in> set (keyPaths sampleConfig ''example.com/app'')" "isFile (treeRoot sampleTree) p c" "counts place p"
    "firstEntity samplePgp c = Inr \<lparr>Fingerprint = [0xff], Identities = [''me'']\<rparr>" "last p = ''ff''"
    using signers_have_key_files [OF sample_wf(1), of samplePgp sampleConfig "''example.com/app''" "''data''" "''signed data''"] by fastforce
  moreover from this have "c = ''key''" by (auto simp: firstEntity_def samplePgp_def split: if_splits)
  ultimately show ?thesis by blast
qed

theorem mask_removes_system_keys_witness:
  "\<exists>p c. isFile (treeRoot localTree) p c \<and> c \<noteq> '''' \<and> last p = ''ff'' \<and> prefix (LocalPrefixPath sampleConfig) p"
proof -
  let ?m = "MaskTrustedKeySystemPrefix sampleConfig ''example.com/app'' ''ff'' localTree"
  have "\<not> isl (snd ?m)" by code_simp
  then obtain dst where m: "?m = (fst ?m, Inr dst)" by (metis isl_def prod.collapse sum.exhaust)
  have "case loadKeyring samplePgp sampleConfig ''example.com/app'' (fst ?m) of Inl _ \<Rightarrow> False
    | Inr ring \<Rightarrow> ring ''ff'' = Some \<lparr>Fingerprint = [0xff], Identities = [''me'']\<rparr>" by code_simp
  then obtain ring where ring: "loadKeyring samplePgp sampleConfig ''example.com/app'' (fst ?m) = Inr ring"
    "ring ''ff'' = Some \<lparr>Fingerprint = [0xff], Identities = [''me'']\<rparr>" by (auto split: sum.splits)
  have "plainPath ''example.com/app''" "fileName ''ff''" by code_simp+
  then show ?thesis using mask_removes_system_keys [OF m _ _ sample_wf(2) _ ring] keytrees_quiet(2) by fastforce
qed

theorem stored_key_is_trusted_witness:
  "\<exists>s' p ring. StoreTrustedKeyPrefix samplePgp sampleConfig ''example.com/app'' ''key'' sampleTree = (s', Inr p) \<and>
     loadKeyring samplePgp sampleConfig ''example.com/app/one'' s' = Inr ring \<and> ring ''ff'' \<noteq> None"
proof -
  let ?m = "StoreTrustedKeyPrefix samplePgp sampleConfig ''example.com/app'' ''key'' sampleTree"
  have "\<not> isl (snd ?m)" by code_simp
  then obtain p where m: "?m = (fst ?m, Inr p)" by (metis isl_def prod.collapse sum.exhaust)
  let ?P = "\<lambda>q c. (\<forall>d \<in> set (keyDirs sampleConfig). \<not> prefix q d) \<and> \<not> isl (entityFromFile samplePgp q c) \<and> c \<noteq> ''''"
  have files: "?P q c" if "isFile (treeRoot sampleTree) q c" for q c
    by (rule allFiles [OF sample_wf(1) _ that]) code_simp
  have "soundKeys samplePgp sampleConfig sampleTree"
    unfolding soundKeys_def using files sample_wf(1) keytrees_quiet(1) by (auto simp: isl_def) (metis sum.exhaust_sel)
  moreover have "firstEntity samplePgp ''key'' = Inr \<lparr>Fingerprint = [0xff], Identities = [''me'']\<rparr>"
    "plainPath ''example.com/app/one''" "NewACIdentifier ''example.com/app/one'' = Inr ''example.com/app/one''"
    "splitOn CHR ''/'' ''example.com/app/one'' = splitOn CHR ''/'' ''example.com/app'' @ [''one'']"
    "fingerprintToFilename [0xff] = ''ff''" by code_simp+
  ultimately show ?thesis
    using stored_key_is_trusted [of samplePgp "[''usr'']" "[''etc'']" sampleTree "''example.com/app''" "''key''" "fst ?m" p] m files
    by (fastforce simp: sampleConfig_def)
qed

end
