(* ===== verification/Discovery_App.thy ===== *)
theory Discovery_App
  imports Appc_Schema
begin

text \<open>
  Image names with labels, \<^verbatim>\<open>discovery/parse.go\<close> of the vendored \<^verbatim>\<open>appc/spec\<close>: a name such as
  \<^verbatim>\<open>example.com/app:1.0,os=linux\<close> is rewritten into a query string and taken apart by \<^verbatim>\<open>url.ParseQuery\<close>. The
  labels are a Go map, here an association list; its order only decides which of several errors is
  reported.
\<close>

section \<open>Query strings\<close>

fun queryUnescape :: "string \<Rightarrow> string option" where
  "queryUnescape [] = Some []"
| "queryUnescape (c # s) =
     (if c = CHR ''%'' then
        (case s of
           a # b # rest \<Rightarrow>
             (case (fromHexChar a, fromHexChar b) of
                (Some x, Some y) \<Rightarrow> map_option ((#) (char_of (16 * x + y :: nat))) (queryUnescape rest)
              | _ \<Rightarrow> None)
         | _ \<Rightarrow> None)
      else map_option ((#) (if c = CHR ''+'' then CHR '' '' else c)) (queryUnescape s))"

text \<open>Cut at every \<^verbatim>\<open>&\<close> and \<^verbatim>\<open>;\<close>.\<close>

definition cutQuery :: "string \<Rightarrow> string list" where
  "cutQuery q = concat (map (splitOn CHR '';'') (splitOn CHR ''&'' q))"

text \<open>A piece is cut at its first \<^verbatim>\<open>=\<close>.\<close>

definition keyValue :: "string \<Rightarrow> (string \<times> string) option" where
  "keyValue p =
     (let k = takeWhile (\<lambda>c. c \<noteq> CHR ''='') p; v = drop (Suc (length k)) p in
      case (queryUnescape k, queryUnescape v) of (Some k', Some v') \<Rightarrow> Some (k', v') | _ \<Rightarrow> None)"

fun keyValues :: "string list \<Rightarrow> (string \<times> string) list option" where
  "keyValues [] = Some []"
| "keyValues (p # ps) =
     (if p = [] then keyValues ps
      else case keyValue p of
        None \<Rightarrow> None
      | Some kv \<Rightarrow> map_option ((#) kv) (keyValues ps))"

definition ParseQuery :: "string \<Rightarrow> (string \<times> string) list option" where
  "ParseQuery q = keyValues (cutQuery q)"

section \<open>Apps\<close>

record App =
  app_Name :: string
  app_Labels :: "(string \<times> string) list"

definition NewApp :: "string \<Rightarrow> (string \<times> string) list \<Rightarrow> string + App" where
  "NewApp name labels =
     (case NewACIdentifier name of Inl e \<Rightarrow> Inl e | Inr acn \<Rightarrow> Inr \<lparr>app_Name = acn, app_Labels = labels\<rparr>)"

text \<open>The loop over the values: the pairs in order of their keys' first appearance.\<close>

fun collectLabels :: "(string \<times> string) list \<Rightarrow> string \<Rightarrow> (string \<times> string) list \<Rightarrow> string + (string \<times> (string \<times> string) list)" where
  "collectLabels [] name labels = Inr (name, rev labels)"
| "collectLabels ((k, v) # kvs) name labels =
     (if list_ex (\<lambda>(k', _). k' = k) kvs then Inl (''label '' @ k @ '' with multiple values'')
      else if k = ''name'' then collectLabels kvs v labels
      else case NewACIdentifier k of Inl e \<Rightarrow> Inl e | Inr labelName \<Rightarrow> collectLabels kvs name ((labelName, v) # labels))"

definition NewAppFromString :: "string \<Rightarrow> string + App" where
  "NewAppFromString app =
     (let q = replaceChar CHR '','' ''&'' (''name='' @ replaceChar CHR '':'' '',version='' app) in
      case ParseQuery q of
        None \<Rightarrow> Inl ''invalid URL escape''
      | Some kvs \<Rightarrow>
          (case collectLabels kvs '''' [] of
             Inl e \<Rightarrow> Inl e
           | Inr (name, labels) \<Rightarrow> NewApp name labels))"

definition App_String :: "App \<Rightarrow> string" where
  "App_String a = app_Name a @ concat (map (\<lambda>(n, v). '','' @ n @ ''='' @ v) (app_Labels a))"

definition Labels_ToMap :: "Label list \<Rightarrow> (string \<times> string) list" where
  "Labels_ToMap l = fold (\<lambda>lbl m. filter (\<lambda>(n, _). n \<noteq> l_Name lbl) m @ [(l_Name lbl, l_Value lbl)]) l []"

definition LabelsFromMap :: "(string \<times> string) list \<Rightarrow> string + Label list" where
  "LabelsFromMap labelsMap =
     (let labels = map (\<lambda>(n, v). \<lparr>l_Name = n, l_Value = v\<rparr>) labelsMap in
      case Labels_assertValid labels of Inl e \<Rightarrow> Inl e | Inr _ \<Rightarrow> Inr labels)"

section \<open>Names read back\<close>

text \<open>Characters that the rewriting and the query syntax leave alone.\<close>

definition inert :: "string \<Rightarrow> bool" where
  "inert s \<longleftrightarrow> set s \<inter> set '':,&;%+'' = {}"

lemma inert_simps [simp]: "inert []" "inert (a @ b) \<longleftrightarrow> inert a \<and> inert b"
  by (auto simp: inert_def)

lemma queryUnescape_inert: "inert s \<Longrightarrow> queryUnescape s = Some s"
  by (induction s) (auto simp: inert_def)

lemma replaceChar_none: "c \<notin> set s \<Longrightarrow> replaceChar c r s = s"
  by (induction s) (auto simp: replaceChar_def)

lemma replaceChar_Cons: "replaceChar c r (x # s) = (if x = c then r else [x]) @ replaceChar c r s"
  by (simp add: replaceChar_def)

lemma replaceChar_append: "replaceChar c r (a @ b) = replaceChar c r a @ replaceChar c r b"
  by (simp add: replaceChar_def)

lemma identifier_inert: "NewACIdentifier n = Inr n \<Longrightarrow> inert n \<and> CHR ''='' \<notin> set n \<and> n \<noteq> []"
proof -
  assume "NewACIdentifier n = Inr n"
  then have ok: "n \<noteq> []" "\<forall>c \<in> set n. isAlnum c \<or> c \<in> set identifierSeps"
    by (auto simp: NewACIdentifier_def assertValidName_def invalidChars_def list_ex_iff split: sum.splits if_splits)
  have "\<not> (isAlnum c \<or> c \<in> set identifierSeps)" if "c \<in> set '':,&;%+=''" for c
    using that by (auto simp: isAlnum_def identifierSeps_def Let_def)
  then show ?thesis using ok by (fastforce simp: inert_def)
qed

lemma keyValue_plain: "inert k \<Longrightarrow> CHR ''='' \<notin> set k \<Longrightarrow> inert v \<Longrightarrow> keyValue (k @ ''='' @ v) = Some (k, v)"
proof -
  assume "inert k" "CHR ''='' \<notin> set k" "inert v"
  moreover from this(2) have "takeWhile (\<lambda>c. c \<noteq> CHR ''='') (k @ ''='' @ v) = k" by (simp add: takeWhile_append)
  ultimately show ?thesis by (simp add: keyValue_def queryUnescape_inert)
qed

lemma splitOn_pieces_joined:
  "\<forall>y \<in> set (x # ys). c \<notin> set y \<Longrightarrow> splitOn c (x @ concat (map ((#) c) ys)) = x # ys"
proof (induction ys arbitrary: x)
  case (Cons y ys)
  then show ?case using splitOn_append [of c x "y @ concat (map ((#) c) ys)"] by simp
qed (simp add: splitOn_no_sep)

lemma cutQuery_pieces:
  assumes "\<forall>y \<in> set (x # ys). inert y"
  shows "cutQuery (x @ concat (map ((#) CHR ''&'') ys)) = x # ys"
proof -
  have clean: "\<forall>y \<in> set (x # ys). CHR ''&'' \<notin> set y \<and> CHR '';'' \<notin> set y" using assms by (auto simp: inert_def)
  have "map (splitOn CHR '';'') (x # ys) = map (\<lambda>y. [y]) (x # ys)" by (intro map_cong refl splitOn_no_sep) (use clean in auto)
  then have "concat (map (splitOn CHR '';'') (x # ys)) = x # ys" by (simp only: concat_map_singleton) simp
  moreover have "splitOn CHR ''&'' (x @ concat (map ((#) CHR ''&'') ys)) = x # ys" by (rule splitOn_pieces_joined) (use clean in blast)
  ultimately show ?thesis by (simp only: cutQuery_def)
qed

text \<open>Labels that a name can carry: valid names, each once, none of them \<^verbatim>\<open>name\<close>, and values without special characters.\<close>

definition printable :: "(string \<times> string) list \<Rightarrow> bool" where
  "printable ls \<longleftrightarrow> distinct (map fst ls) \<and> list_all (\<lambda>(n, v). NewACIdentifier n = Inr n \<and> n \<noteq> ''name'' \<and> inert v) ls"

lemma keyValues_labels: "printable ls \<Longrightarrow> keyValues (map (\<lambda>(n, v). n @ ''='' @ v) ls) = Some ls"
proof (induction ls)
  case (Cons l ls)
  obtain n v where l: "l = (n, v)" by fastforce
  then have "keyValue (n @ ''='' @ v) = Some (n, v)"
    using Cons.prems identifier_inert [of n] by (intro keyValue_plain) (auto simp: printable_def)
  then show ?case using Cons l by (simp add: printable_def)
qed simp

lemma collectLabels_printable:
  "printable (ls) \<Longrightarrow> collectLabels ls name acc = Inr (name, rev acc @ ls)"
proof (induction ls arbitrary: acc)
  case (Cons l ls)
  then show ?case by (cases l) (auto simp: printable_def list_ex_iff image_iff)
qed simp

lemma App_String_query:
  assumes "inert name" and "printable ls"
  shows "replaceChar CHR '','' ''&'' (''name='' @ replaceChar CHR '':'' '',version='' (App_String \<lparr>app_Name = name, app_Labels = ls\<rparr>)) =
    (''name='' @ name) @ concat (map ((#) CHR ''&'') (map (\<lambda>(n, v). n @ ''='' @ v) ls))"
proof -
  have lab: "inert n" "inert v" if "(n, v) \<in> set ls" for n v
    using assms(2) identifier_inert that by (auto simp: printable_def list_all_iff)
  have piece: "replaceChar CHR '','' ''&'' (replaceChar CHR '':'' '',version='' ('','' @ n @ ''='' @ v)) = CHR ''&'' # n @ ''='' @ v"
    if "(n, v) \<in> set ls" for n v
  proof -
    have "CHR '':'' \<notin> set (n @ ''='' @ v)" "CHR '','' \<notin> set (n @ ''='' @ v)" using lab [OF that] by (auto simp: inert_def)
    then show ?thesis by (simp add: replaceChar_append replaceChar_Cons replaceChar_none)
  qed
  have "replaceChar CHR '','' ''&'' (replaceChar CHR '':'' '',version='' (concat (map (\<lambda>(n, v). '','' @ n @ ''='' @ v) ls))) =
      concat (map ((#) CHR ''&'') (map (\<lambda>(n, v). n @ ''='' @ v) ls))"
    using piece by (induction ls) (auto simp: replaceChar_append replaceChar_def)
  moreover have "CHR '':'' \<notin> set name" "CHR '','' \<notin> set name" using assms(1) by (auto simp: inert_def)
  ultimately show ?thesis by (simp add: App_String_def replaceChar_append replaceChar_Cons replaceChar_none)
qed



end
