(* ===== verification/Discovery.thy ===== *)
theory Discovery
  imports Discovery_App Kernel
begin

text \<open>
  Meta discovery, \<^verbatim>\<open>discovery/discovery.go\<close> and \<^verbatim>\<open>discovery/http.go\<close> of the vendored \<^verbatim>\<open>appc/spec\<close>: the pages at
  the prefixes of an image name are read, longest prefix first, and their \<^verbatim>\<open>meta\<close> tags name the places of
  images and keys. The servers answer requests one by one; the requests made are in the state. The
  parser of URLs and the HTML tokenizer are parameters. The labels of an app are in the order in which the
  loop over the Go map meets them.
\<close>

section \<open>The network\<close>

record urlT =
  Scheme :: string
  Host :: string
  Path :: string
  RawQuery :: string

record httpReq =
  rq_url :: string
  rq_headers :: "(string \<times> string) list"
  rq_insecure :: bool

text \<open>The body that arrives, and the error that reading it ends with, if it is not the end of the body.\<close>

record httpResp =
  StatusCode :: nat
  h_ETag :: string
  h_CacheControl :: string
  respBody :: string
  bodyErr :: "goerr option"

record htmlAttr =
  Namespace :: string
  attrKey :: string
  attrVal :: string

text \<open>\<open>metaTags\<close> gives the attributes of the \<^verbatim>\<open>meta\<close> tags the tokenizer finds, opening and self-closing.\<close>

record netEnv =
  urlParse :: "string \<Rightarrow> urlT option"
  urlText :: "urlT \<Rightarrow> string"
  httpDo :: "nat \<Rightarrow> httpReq \<Rightarrow> goerr + httpResp"
  metaTags :: "string \<Rightarrow> htmlAttr list list"

record netWorld =
  requests :: "httpReq list"

type_synonym ('z, 'a) netio = "('z netWorld_scheme, goerr, 'a) io"

definition sendRequest :: "'e netEnv_scheme \<Rightarrow> httpReq \<Rightarrow> ('z, httpResp) netio" where
  "sendRequest env req w =
     (w\<lparr>requests := requests w @ [req]\<rparr>,
      case httpDo env (length (requests w)) req of Inl e \<Rightarrow> Inl (Fail e) | Inr res \<Rightarrow> Inr res)"

definition plainRequest :: "string \<Rightarrow> httpReq" where
  "plainRequest url = \<lparr>rq_url = url, rq_headers = [], rq_insecure = False\<rparr>"

definition schemeGet :: "'e netEnv_scheme \<Rightarrow> string \<Rightarrow> string \<Rightarrow> ('z, string \<times> httpResp) netio" where
  "schemeGet env name scheme =
     (case urlParse env (scheme @ ''://'' @ name) of
        None \<Rightarrow> fail (Msg ''parse error'')
      | Some u \<Rightarrow>
          let urlStr = urlText env (u\<lparr>RawQuery := ''ac-discovery=1''\<rparr>) in
          bindIO (sendRequest env (plainRequest urlStr)) (\<lambda>res. ret (urlStr, res)))"

definition httpsOrHTTP :: "'e netEnv_scheme \<Rightarrow> string \<Rightarrow> bool \<Rightarrow> ('z, string \<times> httpResp) netio" where
  "httpsOrHTTP env name insecure =
     bindIO
       (tryIO (schemeGet env name ''https'') (\<lambda>r.
        if (case r of Inl _ \<Rightarrow> True | Inr (_, res) \<Rightarrow> StatusCode res \<noteq> 200) \<and> insecure then schemeGet env name ''http''
        else case r of Inl e \<Rightarrow> fail e | Inr x \<Rightarrow> ret x))
       (\<lambda>(urlStr, res).
        if StatusCode res \<noteq> 200 then fail (Msg (''expected a 200 OK got '' @ itoa (StatusCode res))) else ret (urlStr, res))"

section \<open>Tags and templates\<close>

record acMeta =
  m_name :: string
  m_prefix :: string
  m_uri :: string

record ACIEndpoint =
  ACI :: string
  ASC :: string

record Endpoints =
  ACIEndpoints :: "ACIEndpoint list"
  Keys :: "string list"

definition Endpoints_Append :: "Endpoints \<Rightarrow> Endpoints \<Rightarrow> Endpoints" where
  "Endpoints_Append e ep = \<lparr>ACIEndpoints = ACIEndpoints e @ ACIEndpoints ep, Keys = Keys e @ Keys ep\<rparr>"

definition metaAttr :: "acMeta \<Rightarrow> htmlAttr \<Rightarrow> acMeta" where
  "metaAttr m a =
     (if Namespace a \<noteq> '''' then m
      else if attrKey a = ''name'' then m\<lparr>m_name := attrVal a\<rparr>
      else if attrKey a = ''content'' then
        (case splitN2 CHR '' '' (trimSpace (attrVal a)) of
           [pre, uri] \<Rightarrow> m\<lparr>m_prefix := pre, m_uri := trimSpace uri\<rparr>
         | _ \<Rightarrow> m)
      else m)"

definition appendMeta :: "acMeta list \<Rightarrow> htmlAttr list \<Rightarrow> acMeta list" where
  "appendMeta meta attrs =
     (let m = foldl metaAttr \<lparr>m_name = '''', m_prefix = '''', m_uri = ''''\<rparr> attrs in
      if \<not> hasPrefix (m_name m) ''ac-'' \<or> m_prefix m = '''' \<or> m_uri m = '''' then meta else meta @ [m])"

definition extractACMeta :: "'e netEnv_scheme \<Rightarrow> string \<Rightarrow> acMeta list" where
  "extractACMeta env body = foldl appendMeta [] (metaTags env body)"

text \<open>A match of the regular expression \<^verbatim>\<open>{.*?}\<close>: a closing brace after an opening one on the same line.\<close>

fun hasExpression :: "string \<Rightarrow> bool" where
  "hasExpression [] = False"
| "hasExpression (c # s) = (c = CHR ''{'' \<and> CHR ''}'' \<in> set (takeWhile (\<lambda>x. x \<noteq> CHR 0x0A) s) \<or> hasExpression s)"

definition renderTemplate :: "string \<Rightarrow> (string \<times> string) list \<Rightarrow> string \<times> bool" where
  "renderTemplate tpl kvs = (let t = foldl (\<lambda>t (k, v). replaceAll k v t) tpl kvs in (t, \<not> hasExpression t))"

definition createTemplateVars :: "App \<Rightarrow> (string \<times> string) list" where
  "createTemplateVars app = (''{name}'', app_Name app) # map (\<lambda>(n, v). (''{'' @ n @ ''}'', v)) (app_Labels app)"

definition defaultVersion :: string where "defaultVersion = ''latest''"

text \<open>The lookup of a missing label yields the empty string.\<close>

definition withVersion :: "App \<Rightarrow> App" where
  "withVersion app =
     (if map_of (app_Labels app) ''version'' \<in> {None, Some ''''}
      then app\<lparr>app_Labels := filter (\<lambda>(n, _). n \<noteq> ''version'') (app_Labels app) @ [(''version'', defaultVersion)]\<rparr>
      else app)"

definition addMeta :: "App \<Rightarrow> Endpoints \<Rightarrow> acMeta \<Rightarrow> Endpoints" where
  "addMeta app de m =
     (if \<not> hasPrefix (app_Name app) (m_prefix m) then de
      else if m_name m = ''ac-discovery'' then
        (let uri = fst (renderTemplate (m_uri m) (createTemplateVars app));
             (asc, ascOk) = renderTemplate uri [(''{ext}'', ''aci.asc'')];
             (aci, aciOk) = renderTemplate uri [(''{ext}'', ''aci'')]
         in if \<not> ascOk \<or> \<not> aciOk then de
            else de\<lparr>ACIEndpoints := ACIEndpoints de @ [\<lparr>ACI = aci, ASC = asc\<rparr>]\<rparr>)
      else if m_name m = ''ac-discovery-pubkeys'' then de\<lparr>Keys := Keys de @ [m_uri m]\<rparr>
      else de)"

definition noEndpoints :: Endpoints where "noEndpoints = \<lparr>ACIEndpoints = [], Keys = []\<rparr>"

definition readEndpoints :: "'e netEnv_scheme \<Rightarrow> App \<Rightarrow> httpResp \<Rightarrow> Endpoints" where
  "readEndpoints env app res = foldl (addMeta app) noEndpoints (extractACMeta env (respBody res))"

definition doDiscover :: "'e netEnv_scheme \<Rightarrow> string \<Rightarrow> App \<Rightarrow> bool \<Rightarrow> ('z, Endpoints) netio" where
  "doDiscover env pre app insecure =
     bindIO (httpsOrHTTP env pre insecure) (\<lambda>(_, res). ret (readEndpoints env (withVersion app) res))"

section \<open>The walk\<close>

text \<open>
  \<open>discoverFn\<close> gets what was found at a prefix and updates the results; \<open>True\<close> stands for an error, which
  stops the walk. The error of the walk is that of the last attempt, never the one that stopped it.
\<close>

type_synonym 'a discoverFn = "string \<Rightarrow> goerr + Endpoints \<Rightarrow> 'a \<Rightarrow> 'a \<times> bool"

definition errOf :: "'e + 'a \<Rightarrow> 'e option" where
  "errOf r = (case r of Inl e \<Rightarrow> Some e | Inr _ \<Rightarrow> None)"

primrec walkPrefixes :: "'e netEnv_scheme \<Rightarrow> App \<Rightarrow> bool \<Rightarrow> 'a discoverFn \<Rightarrow> string list \<Rightarrow> 'a \<Rightarrow> goerr option \<Rightarrow> ('z, 'a \<times> goerr option) netio" where
  "walkPrefixes env app insecure discoverFn [] acc err = ret (acc, err)"
| "walkPrefixes env app insecure discoverFn (pre # pres) acc err =
     tryIO (doDiscover env pre app insecure) (\<lambda>r.
     case discoverFn pre r acc of
       (acc', enough) \<Rightarrow>
         if enough then ret (acc', errOf r) else walkPrefixes env app insecure discoverFn pres acc' (errOf r))"

definition prefixesOf :: "string \<Rightarrow> string list" where
  "prefixesOf name =
     (let parts = splitOn CHR ''/'' name in map (\<lambda>i. joinWith ''/'' (take (length parts - i) parts)) [0..<length parts])"

definition DiscoverWalk :: "'e netEnv_scheme \<Rightarrow> App \<Rightarrow> bool \<Rightarrow> 'a discoverFn \<Rightarrow> 'a \<Rightarrow> ('z, 'a \<times> goerr option) netio" where
  "DiscoverWalk env app insecure discoverFn acc =
     walkPrefixes env app insecure discoverFn (prefixesOf (app_Name app)) acc None"

type_synonym attempts = "(string \<times> goerr) list"

definition walker :: "(Endpoints \<Rightarrow> bool) \<Rightarrow> (Endpoints \<times> attempts) discoverFn" where
  "walker testFn pre r acc =
     (case acc of
        (out, attempts) \<Rightarrow>
          (case r of
             Inl e \<Rightarrow> ((out, attempts @ [(pre, e)]), False)
           | Inr eps \<Rightarrow> let out' = Endpoints_Append out eps in ((out', attempts), testFn out')))"

definition discoverWith :: "(Endpoints \<Rightarrow> 'b list) \<Rightarrow> 'e netEnv_scheme \<Rightarrow> App \<Rightarrow> bool \<Rightarrow> ('z, attempts \<times> (goerr + Endpoints)) netio" where
  "discoverWith sel env app insecure =
     bindIO (DiscoverWalk env app insecure (walker (\<lambda>out. sel out \<noteq> [])) (noEndpoints, [])) (\<lambda>((out, attempts), err).
     case err of Some e \<Rightarrow> ret (attempts, Inl e) | None \<Rightarrow> ret (attempts, Inr out))"

definition DiscoverEndpoints :: "'e netEnv_scheme \<Rightarrow> App \<Rightarrow> bool \<Rightarrow> ('z, attempts \<times> (goerr + Endpoints)) netio" where
  "DiscoverEndpoints = discoverWith ACIEndpoints"

definition DiscoverPublicKeys :: "'e netEnv_scheme \<Rightarrow> App \<Rightarrow> bool \<Rightarrow> ('z, attempts \<times> (goerr + Endpoints)) netio" where
  "DiscoverPublicKeys = discoverWith Keys"

section \<open>What a page advertises\<close>

text \<open>Servers whose answers do not depend on what was asked before.\<close>

definition stable :: "'e netEnv_scheme \<Rightarrow> bool" where
  "stable env \<longleftrightarrow> (\<forall>n req. httpDo env n req = httpDo env 0 req)"

definition discoveryURL :: "'e netEnv_scheme \<Rightarrow> string \<Rightarrow> string \<Rightarrow> string option" where
  "discoveryURL env scheme pre = map_option (\<lambda>u. urlText env (u\<lparr>RawQuery := ''ac-discovery=1''\<rparr>)) (urlParse env (scheme @ ''://'' @ pre))"

definition answer :: "'e netEnv_scheme \<Rightarrow> string \<Rightarrow> string \<Rightarrow> goerr + httpResp" where
  "answer env scheme pre =
     (case discoveryURL env scheme pre of None \<Rightarrow> Inl (Msg ''parse error'') | Some url \<Rightarrow> httpDo env 0 (plainRequest url))"

definition servedWell :: "goerr + httpResp \<Rightarrow> bool" where
  "servedWell r \<longleftrightarrow> (case r of Inl _ \<Rightarrow> False | Inr res \<Rightarrow> StatusCode res = 200)"

text \<open>The page at a prefix is that over TLS if it is served, else the plain one if that is allowed.\<close>

definition page :: "'e netEnv_scheme \<Rightarrow> bool \<Rightarrow> string \<Rightarrow> goerr + httpResp" where
  "page env insecure pre =
     (case (if servedWell (answer env ''https'' pre) \<or> \<not> insecure then answer env ''https'' pre else answer env ''http'' pre) of
        Inl e \<Rightarrow> Inl e
      | Inr res \<Rightarrow> if StatusCode res = 200 then Inr res else Inl (Msg (''expected a 200 OK got '' @ itoa (StatusCode res))))"

definition advert :: "'e netEnv_scheme \<Rightarrow> App \<Rightarrow> bool \<Rightarrow> string \<Rightarrow> goerr + Endpoints" where
  "advert env app insecure pre = map_sum id (readEndpoints env (withVersion app)) (page env insecure pre)"

lemma schemeGet_answer:
  assumes "stable env"
  shows "\<exists>w' url. schemeGet env pre scheme w = (w', map_sum Fail (Pair url) (answer env scheme pre))"
proof -
  have "httpDo env (length (requests w)) = httpDo env 0" using assms by (simp add: stable_def fun_eq_iff)
  then show ?thesis
    by (auto simp: schemeGet_def answer_def discoveryURL_def sendRequest_def io_simps Let_def split: option.splits sum.splits)
qed

lemma doDiscover_advert:
  assumes "stable env"
  shows "\<exists>w'. doDiscover env pre app insecure w = (w', map_sum Fail id (advert env app insecure pre))"
proof -
  obtain w1 u1 where r1: "schemeGet env pre ''https'' w = (w1, map_sum Fail (Pair u1) (answer env ''https'' pre))"
    using schemeGet_answer [OF assms] by blast
  obtain w2 u2 where r2: "schemeGet env pre ''http'' w1 = (w2, map_sum Fail (Pair u2) (answer env ''http'' pre))"
    using schemeGet_answer [OF assms] by blast
  show ?thesis using r1 r2
    by (cases "answer env ''https'' pre"; cases "answer env ''http'' pre")
      (auto simp: doDiscover_def httpsOrHTTP_def advert_def page_def servedWell_def tryIO_def bindIO_def ret_def stop_def)
qed

lemma walker_simps [simp]:
  "walker testFn pre (Inl e) (out, att) = ((out, att @ [(pre, e)]), False)"
  "walker testFn pre (Inr eps) (out, att) = ((Endpoints_Append out eps, att), testFn (Endpoints_Append out eps))"
  by (simp_all add: walker_def Let_def)

lemma walk_step:
  assumes "doDiscover env pre app insecure w = (w1, map_sum Fail id r)"
  shows "walkPrefixes env app insecure fn (pre # pres) acc err w =
    (case fn pre r acc of (acc', enough) \<Rightarrow>
       if enough then (w1, Inr (acc', errOf r)) else walkPrefixes env app insecure fn pres acc' (errOf r) w1)"
  using assms by (cases r) (auto simp: tryIO_def ret_def split: prod.split)

text \<open>What a walk looks for: images or keys, of which the results collect those of every page.\<close>

locale sought =
  fixes sel :: "Endpoints \<Rightarrow> 'b list"
  assumes sel_append: "sel (Endpoints_Append a b) = sel a @ sel b"
    and sel_none: "sel noEndpoints = []"
begin

definition offers :: "'e netEnv_scheme \<Rightarrow> App \<Rightarrow> bool \<Rightarrow> string \<Rightarrow> bool" where
  "offers env app insecure pre \<longleftrightarrow> (case advert env app insecure pre of Inl _ \<Rightarrow> False | Inr e \<Rightarrow> sel e \<noteq> [])"

text \<open>The outcome of a walk over \<open>pres\<close> after attempts that ended with \<open>err\<close>.\<close>

definition nearest :: "'e netEnv_scheme \<Rightarrow> App \<Rightarrow> bool \<Rightarrow> string list \<Rightarrow> goerr option \<Rightarrow> Endpoints \<Rightarrow> goerr option \<Rightarrow> bool" where
  "nearest env app insecure pres err out' err' \<longleftrightarrow>
    (case find (offers env app insecure) pres of
       Some pre \<Rightarrow> err' = None \<and> (\<exists>e. advert env app insecure pre = Inr e \<and> sel out' = sel e)
     | None \<Rightarrow> sel out' = [] \<and> err' = (if pres = [] then err else errOf (advert env app insecure (last pres))))"

lemma nearest_skip:
  assumes "\<not> offers env app insecure pre" and "nearest env app insecure pres (errOf (advert env app insecure pre)) out' err'"
  shows "nearest env app insecure (pre # pres) err out' err'"
  using assms by (cases "find (offers env app insecure) pres"; cases "pres = []") (auto simp: nearest_def)

lemma walk_nearest:
  assumes "stable env" and "sel out = []"
  shows "\<exists>w' out' att' err'. walkPrefixes env app insecure (walker (\<lambda>out. sel out \<noteq> [])) pres (out, att) err w = (w', Inr ((out', att'), err')) \<and>
    nearest env app insecure pres err out' err'"
  using assms(2)
proof (induction pres arbitrary: out att err w)
  case (Cons pre pres)
  obtain w1 where w1: "doDiscover env pre app insecure w = (w1, map_sum Fail id (advert env app insecure pre))"
    using doDiscover_advert [OF assms(1)] by blast
  show ?case
  proof (cases "offers env app insecure pre")
    case True
    then obtain e where e: "advert env app insecure pre = Inr e" "sel e \<noteq> []" by (auto simp: offers_def split: sum.splits)
    then have "walkPrefixes env app insecure (walker (\<lambda>out. sel out \<noteq> [])) (pre # pres) (out, att) err w = (w1, Inr ((Endpoints_Append out e, att), None))"
      by (simp add: walk_step [OF w1] sel_append errOf_def del: walkPrefixes.simps)
    then show ?thesis using True e Cons.prems by (simp add: nearest_def sel_append del: walkPrefixes.simps)
  next
    case False
    obtain out1 att1 where step: "walkPrefixes env app insecure (walker (\<lambda>out. sel out \<noteq> [])) (pre # pres) (out, att) err w =
        walkPrefixes env app insecure (walker (\<lambda>out. sel out \<noteq> [])) pres (out1, att1) (errOf (advert env app insecure pre)) w1" and "sel out1 = []"
      using False Cons.prems
      by (cases "advert env app insecure pre") (auto simp: walk_step [OF w1] offers_def sel_append simp del: walkPrefixes.simps)
    then show ?thesis
      using Cons.IH [of out1 att1 "errOf (advert env app insecure pre)" w1] nearest_skip [OF False] unfolding step by blast
  qed
qed (simp add: ret_def nearest_def)

lemma discover_nearest:
  assumes "stable env"
  shows "\<exists>w' att r. discoverWith sel env app insecure w = (w', Inr (att, r)) \<and>
    (case find (offers env app insecure) (prefixesOf (app_Name app)) of
       Some pre \<Rightarrow> \<exists>out e. r = Inr out \<and> advert env app insecure pre = Inr e \<and> sel out = sel e
     | None \<Rightarrow> (case advert env app insecure (last (prefixesOf (app_Name app))) of
          Inl e \<Rightarrow> r = Inl e
        | Inr _ \<Rightarrow> \<exists>out. r = Inr out \<and> sel out = []))"
proof -
  have ne: "prefixesOf (app_Name app) \<noteq> []" by (simp add: prefixesOf_def Let_def)
  obtain w' out' att' err' where walk: "walkPrefixes env app insecure (walker (\<lambda>out. sel out \<noteq> [])) (prefixesOf (app_Name app)) (noEndpoints, []) None w =
      (w', Inr ((out', att'), err'))" and cases: "nearest env app insecure (prefixesOf (app_Name app)) None out' err'"
    using walk_nearest [OF assms sel_none] by blast
  show ?thesis
  proof (cases "find (offers env app insecure) (prefixesOf (app_Name app))")
    case None
    then show ?thesis using walk cases
      by (cases "advert env app insecure (last (prefixesOf (app_Name app)))") (auto simp: nearest_def ne discoverWith_def DiscoverWalk_def bindIO_def errOf_def ret_def)
  next
    case (Some pre)
    then show ?thesis using walk cases by (auto simp: nearest_def discoverWith_def DiscoverWalk_def bindIO_def ret_def)
  qed
qed

end

interpretation images: sought ACIEndpoints
  by unfold_locales (simp_all add: Endpoints_Append_def noEndpoints_def)

interpretation pubkeys: sought Keys
  by unfold_locales (simp_all add: Endpoints_Append_def noEndpoints_def)

text \<open>
  C23. Discovery takes the nearest page: if a prefix of the name advertises images, the result has the
  images of the longest such prefix. If none does, the result is empty or, when the page of the first
  component of the name could not be had, that error.
\<close>

theorem nearest_page_wins:
  assumes "stable env"
  shows "\<exists>w' att r. DiscoverEndpoints env app insecure w = (w', Inr (att, r)) \<and>
    (case find (\<lambda>pre. case advert env app insecure pre of Inl _ \<Rightarrow> False | Inr e \<Rightarrow> ACIEndpoints e \<noteq> []) (prefixesOf (app_Name app)) of
       Some pre \<Rightarrow> \<exists>out e. r = Inr out \<and> advert env app insecure pre = Inr e \<and> ACIEndpoints out = ACIEndpoints e
     | None \<Rightarrow> (case advert env app insecure (last (prefixesOf (app_Name app))) of
          Inl e \<Rightarrow> r = Inl e
        | Inr _ \<Rightarrow> \<exists>out. r = Inr out \<and> ACIEndpoints out = []))"
  using images.discover_nearest [OF assms, of app insecure w]
  unfolding DiscoverEndpoints_def images.offers_def .

section \<open>Requests\<close>

text \<open>What requests without headers keep, discovery keeps.\<close>

lemma inv_discoverWith:
  assumes "\<And>w url. I w \<Longrightarrow> I (w\<lparr>requests := requests w @ [plainRequest url]\<rparr>)"
  shows "invIO I (discoverWith sel env app b) (\<lambda>_. True)"
proof -
  have send: "invIO I (sendRequest env (plainRequest url)) (\<lambda>_. True)" for url
    by (rule invIOI) (auto simp: sendRequest_def assms)
  have page: "invIO I (doDiscover env pre app b) (\<lambda>_. True)" for pre
    unfolding doDiscover_def httpsOrHTTP_def schemeGet_def Let_def by (intro inv_intros send; (simp split: sum.splits prod.splits)?)
  have "invIO I (walkPrefixes env app b fn pres acc err) (\<lambda>_. True)" for fn :: "'x discoverFn" and pres acc err
    by (induction pres arbitrary: acc err) (auto intro!: inv_intros page split: prod.splits)
  then show ?thesis
    unfolding discoverWith_def DiscoverWalk_def by (auto intro!: inv_intros split: prod.splits option.splits)
qed

definition tlsRequest :: "'e netEnv_scheme \<Rightarrow> string \<Rightarrow> httpReq list" where
  "tlsRequest env pre = (case discoveryURL env ''https'' pre of None \<Rightarrow> [] | Some url \<Rightarrow> [plainRequest url])"

lemma doDiscover_tls:
  "\<exists>r. doDiscover env pre app False w = (w\<lparr>requests := requests w @ tlsRequest env pre\<rparr>, map_sum Fail id r)"
proof (cases "urlParse env (''https://'' @ pre)")
  case None
  then show ?thesis
    by (intro exI [of _ "Inl (Msg ''parse error'')"])
      (simp add: doDiscover_def httpsOrHTTP_def schemeGet_def tlsRequest_def discoveryURL_def tryIO_def bindIO_def ret_def stop_def Let_def)
next
  case (Some u)
  let ?req = "plainRequest (urlText env (u\<lparr>RawQuery := ''ac-discovery=1''\<rparr>))"
  show ?thesis
  proof (cases "httpDo env (length (requests w)) ?req")
    case (Inl e)
    then show ?thesis using Some
      by (intro exI [of _ "Inl e"])
        (simp add: doDiscover_def httpsOrHTTP_def schemeGet_def sendRequest_def tlsRequest_def discoveryURL_def tryIO_def bindIO_def ret_def stop_def Let_def)
  next
    case (Inr res)
    then show ?thesis using Some
      by (intro exI [of _ "if StatusCode res = 200 then Inr (readEndpoints env (withVersion app) res)
            else Inl (Msg (''expected a 200 OK got '' @ itoa (StatusCode res)))"])
        (simp add: doDiscover_def httpsOrHTTP_def schemeGet_def sendRequest_def tlsRequest_def discoveryURL_def tryIO_def bindIO_def ret_def stop_def Let_def)
  qed
qed

lemma walk_tls:
  "\<exists>reqs x. walkPrefixes env app False fn pres acc err w = (w\<lparr>requests := requests w @ reqs\<rparr>, Inr x) \<and>
     prefix reqs (concat (map (tlsRequest env) pres))"
proof (induction pres arbitrary: acc err w)
  case (Cons pre pres)
  obtain r where r: "doDiscover env pre app False w = (w\<lparr>requests := requests w @ tlsRequest env pre\<rparr>, map_sum Fail id r)"
    using doDiscover_tls by blast
  obtain acc' enough where fn: "fn pre r acc = (acc', enough)" by fastforce
  obtain reqs x where rest: "walkPrefixes env app False fn pres acc' (errOf r) (w\<lparr>requests := requests w @ tlsRequest env pre\<rparr>) =
      (w\<lparr>requests := requests w @ tlsRequest env pre @ reqs\<rparr>, Inr x)" "prefix reqs (concat (map (tlsRequest env) pres))"
    using Cons.IH [of acc' "errOf r" "w\<lparr>requests := requests w @ tlsRequest env pre\<rparr>"] by auto
  show ?case
  proof (cases enough)
    case True
    then show ?thesis using fn
      by (intro exI [of _ "tlsRequest env pre"] exI [of _ "(acc', errOf r)"]) (simp add: walk_step [OF r] del: walkPrefixes.simps)
  next
    case False
    then show ?thesis using fn rest
      by (intro exI [of _ "tlsRequest env pre @ reqs"] exI [of _ x]) (simp add: walk_step [OF r] del: walkPrefixes.simps)
  qed
qed (simp add: ret_def)


text \<open>A site with a tag on the page of its name and another one on the page of an app.\<close>

definition siteNet :: netEnv where
  "siteNet =
     \<lparr>urlParse = \<lambda>u. if take 8 u = ''https://'' then Some \<lparr>Scheme = ''https'', Host = drop 8 u, Path = '''', RawQuery = ''''\<rparr> else None,
      urlText = \<lambda>u. Scheme u @ ''://'' @ Host u @ Path u @ (if RawQuery u = '''' then '''' else ''?'' @ RawQuery u),
      httpDo = \<lambda>_ r. Inr \<lparr>StatusCode = if rq_url r = ''https://example.com/app?ac-discovery=1'' then 404 else 200,
        h_ETag = '''', h_CacheControl = '''', respBody = rq_url r, bodyErr = None\<rparr>,
      metaTags = \<lambda>b. [[\<lparr>Namespace = '''', attrKey = ''name'', attrVal = ''ac-discovery''\<rparr>,
        \<lparr>Namespace = '''', attrKey = ''content'', attrVal = ''example.com https://storage/{name}-{version}.{ext}''\<rparr>]]\<rparr>"

theorem nearest_page_wins_witness:
  "stable siteNet \<and> (\<exists>w' att out. DiscoverEndpoints siteNet \<lparr>app_Name = ''example.com/app'', app_Labels = []\<rparr> False \<lparr>requests = []\<rparr> = (w', Inr (att, Inr out)) \<and>
     ACIEndpoints out = [\<lparr>ACI = ''https://storage/example.com/app-latest.aci'', ASC = ''https://storage/example.com/app-latest.aci.asc''\<rparr>])"
proof -
  let ?app = "\<lparr>app_Name = ''example.com/app'', app_Labels = []\<rparr>"
  have s: "stable siteNet" by (simp add: stable_def siteNet_def)
  have "find (\<lambda>pre. case advert siteNet ?app False pre of Inl _ \<Rightarrow> False | Inr e \<Rightarrow> ACIEndpoints e \<noteq> []) (prefixesOf (app_Name ?app)) = Some ''example.com''"
    by code_simp
  moreover have "advert siteNet ?app False ''example.com'' = Inr \<lparr>ACIEndpoints =
      [\<lparr>ACI = ''https://storage/example.com/app-latest.aci'', ASC = ''https://storage/example.com/app-latest.aci.asc''\<rparr>], Keys = []\<rparr>"
    by code_simp
  ultimately show ?thesis
    using s nearest_page_wins [OF s, of ?app False "\<lparr>requests = []\<rparr>"] by auto
qed

end
