(* ===== verification/Fetch_Keys.thy ===== *)
theory Fetch_Keys
  imports Keystore_Facts Discovery
begin

text \<open>
  Fetching and trusting keys, \<^verbatim>\<open>rkt/fetch_keys.go\<close> and \<^verbatim>\<open>rkt/trust.go\<close>. The state has the tree of the key
  directories, the requests made and the lines the user of a terminal types, each ended by a newline.
  OpenPGP is a parameter, as are the files named on the command line. What is only printed is left out.
\<close>

section \<open>The outside world\<close>

text \<open>\<open>localFile\<close> opens and reads a file; \<open>tempErr\<close> is the error of making a temporary file, if there is one.\<close>

record keyEnv = netEnv +
  localFile :: "string \<Rightarrow> goerr + string"
  tempErr :: "goerr option"

record keyWorld = netWorld +
  keyTree :: fileTree
  typed :: "string list"

type_synonym ('z, 'a) keyio = "('z keyWorld_scheme, goerr, 'a) io"

record globalFlagsT =
  gf_InsecureSkipVerify :: bool
  gf_TrustKeysFromHttps :: bool
  gf_SystemConfigDir :: "string list"
  gf_LocalConfigDir :: "string list"

definition getKeystore :: "globalFlagsT \<Rightarrow> ksConfig option" where
  "getKeystore gf =
     (if gf_InsecureSkipVerify gf then None else Some (NewConfig (gf_SystemConfigDir gf) (gf_LocalConfigDir gf)))"

definition onKeys :: "'a ftio \<Rightarrow> ('z, 'a) keyio" where
  "onKeys m w = (case m (keyTree w) of (t, r) \<Rightarrow> (w\<lparr>keyTree := t\<rparr>, r))"

section \<open>Finding keys\<close>

definition metaDiscoverPubKeyLocations :: "'e keyEnv_scheme \<Rightarrow> string \<Rightarrow> bool \<Rightarrow> ('z, string list) keyio" where
  "metaDiscoverPubKeyLocations env pfx allowHTTP =
     (case NewAppFromString pfx of
        Inl e \<Rightarrow> fail (Msg e)
      | Inr app \<Rightarrow>
          bindIO (DiscoverPublicKeys env app allowHTTP) (\<lambda>(attempts, r).
          case r of Inl e \<Rightarrow> fail e | Inr ep \<Rightarrow> ret (Keys ep)))"

definition getPubKeyLocations :: "'e keyEnv_scheme \<Rightarrow> string \<Rightarrow> bool \<Rightarrow> ('z, string list) keyio" where
  "getPubKeyLocations env pfx allowHTTP =
     (if pfx = '''' then fail (Msg ''empty prefix'')
      else bindIO (mapErr (Wrap ''prefix meta discovery error: '') (metaDiscoverPubKeyLocations env pfx allowHTTP)) (\<lambda>kls.
           if kls = [] then fail (Msg (''meta discovery on '' @ pfx @ '' resulted in no keys'')) else ret kls))"

definition downloadKey :: "'e keyEnv_scheme \<Rightarrow> string \<Rightarrow> ('z, string) keyio" where
  "downloadKey env url =
     (case tempErr env of
        Some e \<Rightarrow> fail (Wrap ''error creating tempfile: '' e)
      | None \<Rightarrow>
          bindIO (mapErr (Wrap ''error getting key: '') (sendRequest env (plainRequest url))) (\<lambda>res.
          if StatusCode res \<noteq> 200 then fail (Msg (''bad HTTP status code: '' @ itoa (StatusCode res)))
          else case bodyErr res of
            Some e \<Rightarrow> fail (Wrap ''error copying key: '' e)
          | None \<Rightarrow> ret (respBody res)))"

definition getPubKey :: "'e keyEnv_scheme \<Rightarrow> string \<Rightarrow> string \<Rightarrow> bool \<Rightarrow> ('z, string) keyio" where
  "getPubKey env scheme location allowHTTP =
     (if scheme = '''' then (case localFile env location of Inl e \<Rightarrow> fail e | Inr c \<Rightarrow> ret c)
      else if scheme = ''http'' then
        if \<not> allowHTTP then fail (Msg ''--insecure-allow-http required for http URLs'') else downloadKey env location
      else if scheme = ''https'' then downloadKey env location
      else fail (Msg ''only http and https urls supported''))"

section \<open>Adding keys\<close>

definition displayKey :: "openpgp \<Rightarrow> string \<Rightarrow> ('z, unit) keyio" where
  "displayKey pgp key =
     (case ReadArmoredKeyRing pgp key of Inl e \<Rightarrow> fail (Wrap ''error reading key: '' e) | Inr _ \<Rightarrow> ret ())"

text \<open>The question is asked until the answer is yes or no; the lines end with a newline.\<close>

definition yesLine :: string where "yesLine = ''yes'' @ [CHR 0x0A]"
definition noLine :: string where "noLine = ''no'' @ [CHR 0x0A]"

fun askLines :: "string list \<Rightarrow> string list \<times> (goerr + bool)" where
  "askLines [] = ([], Inl (Wrap ''error reading input: '' (Msg ''EOF'')))"
| "askLines (input # rest) =
     (if input = yesLine then (rest, Inr True) else if input = noLine then (rest, Inr False) else askLines rest)"

definition reviewKey :: "('z, bool) keyio" where
  "reviewKey w =
     (case askLines (typed w) of
        (rest, Inl e) \<Rightarrow> (w\<lparr>typed := rest\<rparr>, Inl (Fail e))
      | (rest, Inr b) \<Rightarrow> (w\<lparr>typed := rest\<rparr>, Inr b))"

definition storeKey :: "openpgp \<Rightarrow> ksConfig \<Rightarrow> string \<Rightarrow> string \<Rightarrow> ('z, unit) keyio" where
  "storeKey pgp ks pfx pk =
     (if pfx = '''' then bindIO (mapErr (Wrap ''Error adding root key: '') (onKeys (StoreTrustedKeyRoot pgp ks pk))) (\<lambda>_. ret ())
      else bindIO (mapErr (Wrap ''Error adding key for prefix: '') (onKeys (StoreTrustedKeyPrefix pgp ks pfx pk))) (\<lambda>_. ret ()))"

text \<open>The loop over the locations. \<open>forceAccept\<close> is a variable of the function, so it stays set once it is set.\<close>

primrec addKeyList :: "openpgp \<Rightarrow> 'e keyEnv_scheme \<Rightarrow> globalFlagsT \<Rightarrow> ksConfig \<Rightarrow> string \<Rightarrow> bool \<Rightarrow> bool \<Rightarrow> string list \<Rightarrow> bool \<Rightarrow> ('z, unit) keyio" where
  "addKeyList pgp env gf ks pfx allowHTTP allowOverride [] forceAccept = ret ()"
| "addKeyList pgp env gf ks pfx allowHTTP allowOverride (pkl # pkls) forceAccept =
     (case urlParse env pkl of
        None \<Rightarrow> fail (Msg ''parse error'')
      | Some u \<Rightarrow>
          bindIO (mapErr (Wrap ''error accessing the key: '') (getPubKey env (Scheme u) pkl allowHTTP)) (\<lambda>pk.
          bindIO (mapErr (Wrap ''error reading the key: '') (onKeys (TrustedKeyPrefixExists pgp ks pfx pk))) (\<lambda>ex.
          bindIO (mapErr (Wrap ''error displaying the key: '') (displayKey pgp pk)) (\<lambda>_.
          if ex \<and> \<not> allowOverride then addKeyList pgp env gf ks pfx allowHTTP allowOverride pkls forceAccept
          else
            let force = forceAccept \<or> gf_TrustKeysFromHttps gf \<and> Scheme u = ''https'' in
            bindIO (if \<not> force then mapErr (Wrap ''error reviewing key: '') reviewKey else ret True) (\<lambda>accepted.
            if \<not> accepted then addKeyList pgp env gf ks pfx allowHTTP allowOverride pkls force
            else bindIO (storeKey pgp ks pfx pk) (\<lambda>_.
                 addKeyList pgp env gf ks pfx allowHTTP allowOverride pkls force))))))"

definition addKeys :: "openpgp \<Rightarrow> 'e keyEnv_scheme \<Rightarrow> globalFlagsT \<Rightarrow> string list \<Rightarrow> string \<Rightarrow> bool \<Rightarrow> bool \<Rightarrow> bool \<Rightarrow> ('z, unit) keyio" where
  "addKeys pgp env gf pkls pfx allowHTTP forceAccept allowOverride =
     (case getKeystore gf of
        None \<Rightarrow> panic ''could not get the key store''
      | Some ks \<Rightarrow> addKeyList pgp env gf ks pfx allowHTTP allowOverride pkls forceAccept)"

text \<open>\<^verbatim>\<open>rkt trust\<close>; the result is the exit code.\<close>

definition trustWith :: "openpgp \<Rightarrow> 'e keyEnv_scheme \<Rightarrow> globalFlagsT \<Rightarrow> string \<Rightarrow> bool \<Rightarrow> string list \<Rightarrow> ('z, nat) keyio" where
  "trustWith pgp env gf pfx allowHTTP pkls =
     tryIO (addKeys pgp env gf pkls pfx allowHTTP (gf_InsecureSkipVerify gf) True) (\<lambda>r.
     case r of Inl _ \<Rightarrow> ret 1 | Inr _ \<Rightarrow> ret 0)"

definition runTrust :: "openpgp \<Rightarrow> 'e keyEnv_scheme \<Rightarrow> globalFlagsT \<Rightarrow> string \<Rightarrow> bool \<Rightarrow> bool \<Rightarrow> string list \<Rightarrow> ('z, nat) keyio" where
  "runTrust pgp env gf flagPrefix flagRoot flagAllowHTTP args =
     (if gf_InsecureSkipVerify gf then ret 1
      else if flagPrefix = '''' \<and> \<not> flagRoot then ret 1
      else if flagPrefix \<noteq> '''' \<and> flagRoot then ret 1
      else if (case urlParse env flagPrefix of None \<Rightarrow> False | Some u \<Rightarrow> Scheme u \<noteq> '''') then ret 1
      else if args = [] then
        tryIO (getPubKeyLocations env flagPrefix flagAllowHTTP) (\<lambda>r.
        case r of
          Inl _ \<Rightarrow> ret 1
        | Inr pkls \<Rightarrow> trustWith pgp env gf flagPrefix flagAllowHTTP pkls)
      else trustWith pgp env gf flagPrefix flagAllowHTTP args)"

section \<open>Consent\<close>

lemma downloadKey_keys: "downloadKey env url w = (w', r) \<Longrightarrow> keyTree w' = keyTree w \<and> typed w' = typed w"
  by (auto simp: downloadKey_def io_simps mapErr_def sendRequest_def split: option.splits sum.splits if_splits prod.splits)

lemma getPubKey_keys: "getPubKey env sch loc http w = (w', r) \<Longrightarrow> keyTree w' = keyTree w \<and> typed w' = typed w"
  by (auto simp: getPubKey_def io_simps split: if_splits sum.splits dest: downloadKey_keys)

lemma anyExists_state: "anyExists ps s = (s', r) \<Longrightarrow> s' = s"
proof (induction ps arbitrary: r)
  case (Cons p ps)
  then show ?case by (cases "lookupAt LstatOp p s") (auto simp: osStat_def io_simps split: if_splits)
qed (simp add: io_simps)

lemma exists_state: "onKeys (TrustedKeyPrefixExists pgp ks pfx pk) w = (w', r) \<Longrightarrow> w' = w"
  by (auto simp: onKeys_def TrustedKeyPrefixExists_def acIdentifier_def io_simps Let_def dest!: anyExists_state
      split: sum.splits prod.splits simp del: anyExists.simps)

lemma askLines_no: "yesLine \<notin> set ls \<Longrightarrow> askLines ls = (rest, r) \<Longrightarrow> r \<noteq> Inr True \<and> set rest \<subseteq> set ls"
  by (induction ls) (auto split: if_splits)

text \<open>The keys are as they were, and nobody will say yes.\<close>

definition untrusting :: "fileTree \<Rightarrow> 'z keyWorld_scheme \<Rightarrow> bool" where
  "untrusting t w \<longleftrightarrow> keyTree w = t \<and> yesLine \<notin> set (typed w)"

lemma inv_review: "invIO (untrusting t) reviewKey (\<lambda>accepted. \<not> accepted)"
proof (rule invIOI)
  fix w w' x assume "untrusting t w" and "reviewKey w = (w', x)"
  then show "untrusting t w' \<and> (\<forall>a. x = Inr a \<longrightarrow> \<not> a)"
    using askLines_no [of "typed w"] by (auto simp: untrusting_def reviewKey_def split: prod.splits sum.splits)
qed

lemma inv_getPubKey [inv_intros]: "invIO (untrusting t) (getPubKey env sch loc http) (\<lambda>_. True)"
  by (rule invIOI) (auto simp: untrusting_def dest: getPubKey_keys)

lemma inv_exists [inv_intros]: "invIO (untrusting t) (onKeys (TrustedKeyPrefixExists pgp ks pfx pk)) (\<lambda>_. True)"
  by (rule invIOI) (auto dest: exists_state)

lemma inv_display [inv_intros]: "invIO (untrusting t) (displayKey pgp pk) (\<lambda>_. True)"
  unfolding displayKey_def by (intro inv_intros) simp

lemma addKeyList_untrusting:
  assumes "\<And>pkl u. pkl \<in> set pkls \<Longrightarrow> urlParse env pkl = Some u \<Longrightarrow> \<not> (gf_TrustKeysFromHttps gf \<and> Scheme u = ''https'')"
  shows "invIO (untrusting t :: 'z keyWorld_scheme \<Rightarrow> bool) (addKeyList pgp env gf ks pfx http over pkls False) (\<lambda>_. True)"
  using assms
proof (induction pkls)
  case (Cons pkl pkls)
  have rest: "invIO (untrusting t :: 'z keyWorld_scheme \<Rightarrow> bool) (addKeyList pgp env gf ks pfx http over pkls False) (\<lambda>_. True)"
    by (rule Cons.IH) (use Cons.prems in auto)
  have tail: "invIO (untrusting t :: 'z keyWorld_scheme \<Rightarrow> bool) (bindIO (if \<not> False then mapErr (Wrap ''error reviewing key: '') reviewKey else ret True)
      (\<lambda>accepted. if \<not> accepted then addKeyList pgp env gf ks pfx http over pkls False
        else bindIO (storeKey pgp ks pfx pk) (\<lambda>_. addKeyList pgp env gf ks pfx http over pkls False))) (\<lambda>_. True)" for pk
    by (rule invIO_bind [where R' = "\<lambda>a. \<not> a"]) (use inv_review rest in \<open>auto intro: invIO_mapErr\<close>)
  show ?case
  proof (cases "urlParse env pkl")
    case (Some u)
    then have force: "(False \<or> gf_TrustKeysFromHttps gf \<and> Scheme u = ''https'') = False" using Cons.prems [of pkl u] by simp
    show ?thesis
      unfolding addKeyList.simps Some option.case Let_def force
      by (intro invIO_bind' [OF invIO_mapErr] inv_getPubKey inv_exists inv_display invIO_if rest tail)
  qed (simp add: invIO_stop)
qed (auto intro: inv_intros)

text \<open>
  C12. No key is trusted without consent: unless the caller accepts all keys, keys that come over TLS are
  accepted by a flag, or the user types yes, adding keys leaves the trusted keys as they are, whatever
  the network sends.
\<close>

theorem no_trust_without_consent:
  assumes "yesLine \<notin> set (typed w)"
    and "\<forall>pkl \<in> set pkls. \<forall>u. urlParse env pkl = Some u \<longrightarrow> \<not> (gf_TrustKeysFromHttps gf \<and> Scheme u = ''https'')"
  shows "keyTree (fst (addKeys pgp env gf pkls pfx allowHTTP False allowOverride w)) = keyTree w"
proof (cases "getKeystore gf")
  case (Some ks)
  have "untrusting (keyTree w) w" using assms(1) by (simp add: untrusting_def)
  then have "untrusting (keyTree w) (fst (addKeyList pgp env gf ks pfx allowHTTP allowOverride pkls False w))"
    using invIO_state [OF addKeyList_untrusting] assms(2) by metis
  then show ?thesis using Some by (simp add: addKeys_def untrusting_def)
qed (simp add: addKeys_def io_simps)

lemma root_exists_fails:
  "\<exists>e. onKeys (TrustedKeyPrefixExists pgp ks '''' pk) w = (w, Inl (Fail e))"
proof -
  have "\<exists>e. NewACIdentifier '''' = Inl e" by (simp add: NewACIdentifier_def assertValidName_def)
  then show ?thesis by (auto simp: onKeys_def TrustedKeyPrefixExists_def acIdentifier_def Let_def io_simps split: sum.splits)
qed

lemma addKeyList_root:
  "\<exists>e w'. addKeyList pgp env gf ks '''' http over (pkl # pkls) force w = (w', Inl (Fail e)) \<and> keyTree w' = keyTree w"
proof (cases "urlParse env pkl")
  case (Some u)
  obtain w1 r1 where r1: "getPubKey env (Scheme u) pkl http w = (w1, r1)" by fastforce
  have fails: "\<exists>e'. e = Fail e'" if "r1 = Inl e" for e
    using r1 that by (auto simp: getPubKey_def downloadKey_def sendRequest_def io_simps mapErr_def split: if_splits sum.splits option.splits prod.splits)
  show ?thesis
  proof (cases r1)
    case (Inl e)
    then show ?thesis using Some r1 fails [OF Inl] getPubKey_keys [OF r1] by (auto simp: io_simps mapErr_def)
  next
    case (Inr pk)
    obtain e where "onKeys (TrustedKeyPrefixExists pgp ks '''' pk) w1 = (w1, Inl (Fail e))" using root_exists_fails by blast
    then show ?thesis using Some r1 Inr getPubKey_keys [OF r1] by (auto simp: io_simps mapErr_def)
  qed
qed (simp add: io_simps)

text \<open>
  C40. \<^verbatim>\<open>rkt trust --root\<close> never adds a key: the look-up of the key among the trusted ones rejects the
  empty prefix, so the command always fails and leaves the keys as they are.
\<close>

theorem trust_root_never_adds:
  "\<exists>w'. runTrust pgp env gf '''' True allowHTTP args w = (w', Inr 1) \<and> keyTree w' = keyTree w"
proof (cases "gf_InsecureSkipVerify gf \<or> (case urlParse env '''' of None \<Rightarrow> False | Some u \<Rightarrow> Scheme u \<noteq> '''') \<or> args = []")
  case True
  then show ?thesis by (auto simp: runTrust_def getPubKeyLocations_def io_simps)
next
  case False
  then obtain pkl pkls ks where args: "args = pkl # pkls" and ks: "getKeystore gf = Some ks"
    by (cases args) (auto simp: getKeystore_def)
  obtain e w' where "addKeyList pgp env gf ks '''' allowHTTP True args False w = (w', Inl (Fail e))" "keyTree w' = keyTree w"
    unfolding args using addKeyList_root by blast
  then show ?thesis using False ks by (auto simp: runTrust_def trustWith_def addKeys_def tryIO_def io_simps)
qed

text \<open>What requests, keys and the user keep, looking for keys and adding them keeps.\<close>

lemma inv_addKeys:
  assumes "\<And>w url. I w \<Longrightarrow> I (w\<lparr>requests := requests w @ [plainRequest url]\<rparr>)"
    and "\<And>w t. I w \<Longrightarrow> I (w\<lparr>keyTree := t\<rparr>)" and "\<And>w ls. I w \<Longrightarrow> I (w\<lparr>typed := ls\<rparr>)"
  shows "invIO I (addKeys pgp env gf pkls pfx allowHTTP force over) (\<lambda>_. True)"
    and "invIO I (getPubKeyLocations env pfx allowHTTP) (\<lambda>_. True)"
proof -
  have keys: "invIO I (onKeys m) (\<lambda>_. True)" for m :: "'x ftio"
    by (rule invIOI) (auto simp: onKeys_def assms(2) split: prod.splits)
  have review: "invIO I reviewKey (\<lambda>_. True)"
    by (rule invIOI) (auto simp: reviewKey_def assms(3) split: prod.splits sum.splits)
  have send: "invIO I (sendRequest env (plainRequest url)) (\<lambda>_. True)" for url
    by (rule invIOI) (auto simp: sendRequest_def assms(1))
  have key: "invIO I (getPubKey env sch loc allowHTTP) (\<lambda>_. True)" for sch loc
    unfolding getPubKey_def downloadKey_def by (auto intro!: inv_intros send split: sum.splits option.splits)
  have show_store: "invIO I (displayKey pgp pk) (\<lambda>_. True)" "invIO I (storeKey pgp ks pfx pk) (\<lambda>_. True)" for ks pk
    unfolding displayKey_def storeKey_def by (auto intro!: inv_intros keys split: sum.splits)
  have "invIO I (addKeyList pgp env gf ks pfx allowHTTP over pkls force) (\<lambda>_. True)" for ks
    by (induction pkls arbitrary: force) (auto simp: Let_def intro!: inv_intros key keys review show_store split: option.splits)
  then show "invIO I (addKeys pgp env gf pkls pfx allowHTTP force over) (\<lambda>_. True)"
    by (auto simp: addKeys_def intro!: inv_intros split: option.splits)
  show "invIO I (getPubKeyLocations env pfx allowHTTP) (\<lambda>_. True)"
    unfolding getPubKeyLocations_def metaDiscoverPubKeyLocations_def DiscoverPublicKeys_def
    by (auto intro!: inv_intros inv_discoverWith assms(1) split: sum.splits prod.splits)
qed

text \<open>A network with two keys, one over TLS and one not, and a user who types nothing.\<close>

definition twoKeys :: openpgp where
  "twoKeys = samplePgp\<lparr>ReadArmoredKeyRing := \<lambda>c.
     if c = ''key'' then Inr [\<lparr>Fingerprint = [0xff], Identities = [''me'']\<rparr>]
     else if c = ''other'' then Inr [\<lparr>Fingerprint = [0xee], Identities = [''other'']\<rparr>] else Inl (Msg ''EOF'')\<rparr>"

definition sampleNet :: keyEnv where
  "sampleNet =
     \<lparr>urlParse = \<lambda>u. if take 8 u = ''https://'' then Some \<lparr>Scheme = ''https'', Host = drop 8 u, Path = '''', RawQuery = ''''\<rparr>
        else if take 7 u = ''http://'' then Some \<lparr>Scheme = ''http'', Host = drop 7 u, Path = '''', RawQuery = ''''\<rparr>
        else Some \<lparr>Scheme = '''', Host = '''', Path = u, RawQuery = ''''\<rparr>,
      urlText = \<lambda>u. if Scheme u = '''' then Path u else Scheme u @ ''://'' @ Host u @ Path u,
      httpDo = \<lambda>_ r. Inr \<lparr>StatusCode = 200, h_ETag = '''', h_CacheControl = '''',
        respBody = if rq_url r = ''https://a'' then ''key'' else ''other'', bodyErr = None\<rparr>,
      metaTags = \<lambda>_. [], localFile = \<lambda>_. Inl ErrNotExist, tempErr = None\<rparr>"

definition sampleFlags :: "bool \<Rightarrow> globalFlagsT" where
  "sampleFlags trustHttps =
     \<lparr>gf_InsecureSkipVerify = False, gf_TrustKeysFromHttps = trustHttps,
      gf_SystemConfigDir = [''usr''], gf_LocalConfigDir = [''etc'']\<rparr>"

definition silentUser :: keyWorld where
  "silentUser = \<lparr>requests = [], keyTree = sampleTree, typed = [noLine]\<rparr>"

theorem no_trust_without_consent_witness:
  "keyTree (fst (addKeys twoKeys sampleNet (sampleFlags True) [''http://b''] ''example.com/bar'' True False False silentUser)) = sampleTree \<and>
   keyTree (fst (addKeys twoKeys sampleNet (sampleFlags True) [''https://a''] ''example.com/bar'' True False False silentUser)) \<noteq> sampleTree"
proof
  have "yesLine \<notin> set (typed silentUser)" by code_simp
  then show "keyTree (fst (addKeys twoKeys sampleNet (sampleFlags True) [''http://b''] ''example.com/bar'' True False False silentUser)) = sampleTree"
    using no_trust_without_consent [of silentUser "[''http://b'']" sampleNet "sampleFlags True" twoKeys]
    by (simp add: sampleNet_def silentUser_def)
  have "isl (snd (ioutilReadFile [''etc'', ''trustedkeys'', ''prefix.d'', ''example.com'', ''bar'', ''ff''] sampleTree)) \<and>
    \<not> isl (snd (ioutilReadFile [''etc'', ''trustedkeys'', ''prefix.d'', ''example.com'', ''bar'', ''ff'']
      (keyTree (fst (addKeys twoKeys sampleNet (sampleFlags True) [''https://a''] ''example.com/bar'' True False False silentUser)))))"
    by code_simp
  then show "keyTree (fst (addKeys twoKeys sampleNet (sampleFlags True) [''https://a''] ''example.com/bar'' True False False silentUser)) \<noteq> sampleTree"
    by force
qed

text \<open>
  A key over TLS also lets in the keys after it: once the flag has accepted one key, a key from a plain
  \<^verbatim>\<open>http\<close> location of the same list is stored with no question asked, although it is refused on its own.
\<close>

theorem https_key_lets_others_in:
  "(case addKeys twoKeys sampleNet (sampleFlags True) [''https://a'', ''http://b''] ''example.com/bar'' True False False silentUser of
      (w, r) \<Rightarrow> r = Inr () \<and> typed w = [noLine] \<and>
        snd (ioutilReadFile [''etc'', ''trustedkeys'', ''prefix.d'', ''example.com'', ''bar'', ''ee''] (keyTree w)) = Inr ''other'') \<and>
   (case addKeys twoKeys sampleNet (sampleFlags True) [''http://b'', ''https://a''] ''example.com/bar'' True False False silentUser of
      (w, r) \<Rightarrow> r = Inr () \<and> typed w = [] \<and>
        isl (snd (ioutilReadFile [''etc'', ''trustedkeys'', ''prefix.d'', ''example.com'', ''bar'', ''ee''] (keyTree w))))"
  by code_simp

end
