(* ===== verification/Diskv.thy ===== *)
theory Diskv
  imports Kernel
begin

text \<open>
  The key-value store on disk, \<^verbatim>\<open>Godeps/_workspace/src/github.com/peterbourgon/diskv/diskv.go\<close>, as the
  image store configures it: no cache, no index and no compression. The value of a key is the file
  named by the key in the directories that \<open>transform\<close> gives for it; a transform that panics is
  \<open>None\<close>. Every system call may fail with the error that \<open>diskvFault\<close> names, and a copy that fails
  leaves \<open>torn\<close> in the file. The directories themselves are not part of the state.
\<close>

datatype diskvOp =
    StatSrc | OpenSrc | RemoveSrc | EnsurePath | RenameSrc | OpenFile | IoCopy | CloseFile
  | StatFile | OpenRead | ReadAll | RemoveFile

record diskv =
  entries :: "string list \<Rightarrow> string option"
  diskvFault :: "diskvOp \<Rightarrow> goerr option"
  torn :: string

type_synonym 'a diskvio = "(diskv, goerr, 'a) io"
type_synonym transform = "string \<Rightarrow> string list option"

section \<open>Operations\<close>

definition errEmptyKey :: goerr where "errEmptyKey = Msg ''empty key''"

definition errImportDirectory :: goerr where "errImportDirectory = Msg ''can't import a directory''"

definition diskvCall :: "diskvOp \<Rightarrow> unit diskvio" where
  "diskvCall c s = (case diskvFault s c of Some e \<Rightarrow> (s, Inl (Fail e)) | None \<Rightarrow> (s, Inr ()))"

definition putEntry :: "string list \<Rightarrow> string option \<Rightarrow> unit diskvio" where
  "putEntry f v s = (s\<lparr>entries := (entries s)(f := v)\<rparr>, Inr ())"

definition pathFor :: "transform \<Rightarrow> string \<Rightarrow> string list diskvio" where
  "pathFor t key = (case t key of None \<Rightarrow> panic ''transform'' | Some p \<Rightarrow> ret p)"

definition ensurePathWithLock :: "transform \<Rightarrow> string \<Rightarrow> unit diskvio" where
  "ensurePathWithLock t key = bindIO (pathFor t key) (\<lambda>_. diskvCall EnsurePath)"

definition completeFilename :: "transform \<Rightarrow> string \<Rightarrow> string list diskvio" where
  "completeFilename t key = bindIO (pathFor t key) (\<lambda>p. ret (p @ [key]))"

text \<open>The file is truncated when it is opened, and then filled.\<close>

definition writeStreamWithLock :: "transform \<Rightarrow> string \<Rightarrow> string \<Rightarrow> unit diskvio" where
  "writeStreamWithLock t key val =
     bindIO (mapErr (Wrap ''ensure path: '') (ensurePathWithLock t key)) (\<lambda>_.
     bindIO (completeFilename t key) (\<lambda>f.
     bindIO (mapErr (Wrap ''open file: '') (diskvCall OpenFile)) (\<lambda>_.
     bindIO (putEntry f (Some [])) (\<lambda>_.
     tryIO (diskvCall IoCopy) (\<lambda>r.
     case r of
       Inl e \<Rightarrow> (\<lambda>s. bindIO (putEntry f (Some (torn s))) (\<lambda>_. fail (Wrap ''i/o copy: '' e)) s)
     | Inr _ \<Rightarrow> bindIO (putEntry f (Some val)) (\<lambda>_. mapErr (Wrap ''file close: '') (diskvCall CloseFile)))))))"

definition diskvWrite :: "transform \<Rightarrow> string \<Rightarrow> string \<Rightarrow> unit diskvio" where
  "diskvWrite t key val = (if key = [] then fail errEmptyKey else writeStreamWithLock t key val)"

definition importCopy :: "transform \<Rightarrow> string \<Rightarrow> string \<Rightarrow> bool \<Rightarrow> unit diskvio" where
  "importCopy t data dstKey move =
     bindIO (diskvCall OpenSrc) (\<lambda>_.
     bindIO (writeStreamWithLock t dstKey data) (\<lambda>_.
     if move then diskvCall RemoveSrc else ret ()))"

text \<open>The source is a file of the given type and content.\<close>

definition diskvImport :: "transform \<Rightarrow> ftype \<times> string \<Rightarrow> string \<Rightarrow> bool \<Rightarrow> unit diskvio" where
  "diskvImport t src dstKey move =
     (if dstKey = [] then fail errEmptyKey
      else
        bindIO (diskvCall StatSrc) (\<lambda>_.
        if fst src = DirT then fail errImportDirectory
        else
          bindIO (mapErr (Wrap ''ensure path: '') (ensurePathWithLock t dstKey)) (\<lambda>_.
          if move then
            bindIO (completeFilename t dstKey) (\<lambda>f.
            tryIO (diskvCall RenameSrc) (\<lambda>r.
            case r of
              Inr _ \<Rightarrow> putEntry f (Some (snd src))
            | Inl e \<Rightarrow> if e \<noteq> Errno EXDEV then fail e else importCopy t (snd src) dstKey move))
          else importCopy t (snd src) dstKey move)))"

definition readWithRLock :: "transform \<Rightarrow> string \<Rightarrow> string diskvio" where
  "readWithRLock t key =
     bindIO (completeFilename t key) (\<lambda>filename.
     bindIO (diskvCall StatFile) (\<lambda>_ s.
       case entries s filename of
         None \<Rightarrow> (s, Inl (Fail (PathError ENOENT)))
       | Some v \<Rightarrow> bindIO (diskvCall OpenRead) (\<lambda>_. ret v) s))"

definition diskvReadStream :: "transform \<Rightarrow> string \<Rightarrow> string diskvio" where
  "diskvReadStream t key = readWithRLock t key"

definition diskvRead :: "transform \<Rightarrow> string \<Rightarrow> string diskvio" where
  "diskvRead t key = bindIO (diskvReadStream t key) (\<lambda>rc. bindIO (diskvCall ReadAll) (\<lambda>_. ret rc))"

definition diskvErase :: "transform \<Rightarrow> string \<Rightarrow> unit diskvio" where
  "diskvErase t key =
     bindIO (completeFilename t key) (\<lambda>filename.
     bindIO (mapErr (Wrap ''stat: '') (diskvCall StatFile)) (\<lambda>_ s.
       if entries s filename = None then (s, Inl (Fail (Wrap ''stat: '' (PathError ENOENT))))
       else bindIO (mapErr (Wrap ''remove: '') (diskvCall RemoveFile)) (\<lambda>_. putEntry filename None) s))"

definition diskvHas :: "transform \<Rightarrow> string \<Rightarrow> bool diskvio" where
  "diskvHas t key =
     bindIO (completeFilename t key) (\<lambda>filename.
     tryIO (diskvCall StatFile) (\<lambda>r s. (s, Inr (\<not> isl r \<and> entries s filename \<noteq> None))))"

section \<open>Behaviour\<close>

text \<open>The value of a key.\<close>

definition valueOf :: "transform \<Rightarrow> diskv \<Rightarrow> string \<Rightarrow> string option" where
  "valueOf t s key = (case t key of None \<Rightarrow> None | Some p \<Rightarrow> entries s (p @ [key]))"

text \<open>What an operation on a key may change: the value of that key, and nothing else.\<close>

definition touches :: "transform \<Rightarrow> string \<Rightarrow> diskv \<Rightarrow> diskv \<Rightarrow> bool" where
  "touches t key s s' \<longleftrightarrow>
     diskvFault s' = diskvFault s \<and> torn s' = torn s \<and> (\<forall>k. k \<noteq> key \<longrightarrow> valueOf t s' k = valueOf t s k)"

lemma touches_refl [simp]: "touches t key s s"
  by (simp add: touches_def)

lemma touches_trans: "touches t key s s1 \<Longrightarrow> touches t key s1 s2 \<Longrightarrow> touches t key s s2"
  by (simp add: touches_def)

lemma putEntry_run: "putEntry f v s = (s\<lparr>entries := (entries s)(f := v)\<rparr>, Inr ())"
  by (simp add: putEntry_def)

lemma putEntry_touches: "t key = Some p \<Longrightarrow> touches t key s (s\<lparr>entries := (entries s)(p @ [key] := v)\<rparr>)"
  by (auto simp: touches_def valueOf_def split: option.splits)

lemma putEntry_value:
  "t key = Some p \<Longrightarrow> valueOf t (s\<lparr>entries := (entries s)(p @ [key] := v)\<rparr>) key = v"
  by (simp add: valueOf_def)

lemma diskvCall_outcome: "diskvCall c s = (s, case diskvFault s c of Some e \<Rightarrow> Inl (Fail e) | None \<Rightarrow> Inr ())"
  by (simp add: diskvCall_def split: option.splits)

lemmas diskv_run = diskvCall_def putEntry_def pathFor_def completeFilename_def ensurePathWithLock_def

text \<open>A write leaves the old value, or the new one, or a torn one, and the new one if it succeeds.\<close>

lemma writeStream_outcome:
  assumes "writeStreamWithLock t key val s = (s', r)"
  shows "touches t key s s' \<and> valueOf t s' key \<in> {valueOf t s key, Some val, Some (torn s)} \<and> (\<not> isl r \<longrightarrow> valueOf t s' key = Some val)"
proof (cases "t key")
  case None
  then show ?thesis using assms by (auto simp: writeStreamWithLock_def diskv_run io_simps mapErr_def valueOf_def)
next
  case (Some p)
  note pt = putEntry_touches [of t key p, OF Some] and pv = putEntry_value [of t key p, OF Some]
  show ?thesis
    using assms Some pt [of s] pv [of s]
    by (auto simp: writeStreamWithLock_def diskv_run io_simps mapErr_def split: option.splits)
qed

lemma write_outcome:
  assumes "diskvWrite t key val s = (s', r)"
  shows "touches t key s s' \<and> (\<not> isl r \<longrightarrow> valueOf t s' key = Some val)"
    and "diskvFault s IoCopy = None \<Longrightarrow> valueOf t s' key \<in> {valueOf t s key, Some val}"
proof -
  show "touches t key s s' \<and> (\<not> isl r \<longrightarrow> valueOf t s' key = Some val)"
    using assms writeStream_outcome by (cases "key = []") (auto simp: diskvWrite_def io_simps)
  show "valueOf t s' key \<in> {valueOf t s key, Some val}" if "diskvFault s IoCopy = None"
  proof (cases "t key")
    case None
    then show ?thesis using assms by (auto simp: diskvWrite_def writeStreamWithLock_def diskv_run io_simps mapErr_def valueOf_def)
  next
    case (Some p)
    then show ?thesis using assms that putEntry_value [of t key p s]
      by (auto simp: diskvWrite_def writeStreamWithLock_def diskv_run io_simps mapErr_def split: option.splits if_splits)
  qed
qed

text \<open>Moving a file in is atomic unless it crosses devices.\<close>

lemma import_outcome:
  assumes "diskvImport t (ty, data) key move s = (s', r)"
  shows "touches t key s s' \<and> valueOf t s' key \<in> {valueOf t s key, Some data, Some (torn s)} \<and> (\<not> isl r \<longrightarrow> valueOf t s' key = Some data)"
    and "move \<Longrightarrow> diskvFault s RenameSrc \<noteq> Some (Errno EXDEV) \<Longrightarrow> valueOf t s' key \<in> {valueOf t s key, Some data}"
proof -
  have copy: "touches t key s s1 \<and> valueOf t s1 key \<in> {valueOf t s key, Some data, Some (torn s)} \<and> (\<not> isl x \<longrightarrow> valueOf t s1 key = Some data)"
    if c: "importCopy t data key move s = (s1, x)" for s1 x
  proof (cases "diskvFault s OpenSrc")
    case None
    obtain s2 y where w: "writeStreamWithLock t key data s = (s2, y)" by (cases "writeStreamWithLock t key data s")
    show ?thesis using c None w writeStream_outcome [OF w]
      by (auto simp: importCopy_def io_simps diskvCall_def split: sum.splits option.splits if_splits)
  qed (use c in \<open>auto simp: importCopy_def io_simps diskvCall_def\<close>)
  have cases: "(s' = s \<and> isl r) \<or> importCopy t data key move s = (s', r) \<and> (move \<longrightarrow> diskvFault s RenameSrc = Some (Errno EXDEV)) \<or>
    (\<exists>p. t key = Some p \<and> s' = s\<lparr>entries := (entries s)(p @ [key] := Some data)\<rparr>)"
    using assms
    by (auto simp: diskvImport_def diskv_run io_simps mapErr_def split: option.splits if_splits)
  show "touches t key s s' \<and> valueOf t s' key \<in> {valueOf t s key, Some data, Some (torn s)} \<and> (\<not> isl r \<longrightarrow> valueOf t s' key = Some data)"
    using cases copy putEntry_touches putEntry_value by auto
  show "valueOf t s' key \<in> {valueOf t s key, Some data}" if "move" "diskvFault s RenameSrc \<noteq> Some (Errno EXDEV)"
    using cases that putEntry_value by auto
qed

lemma erase_outcome:
  assumes "diskvErase t key s = (s', r)"
  shows "touches t key s s' \<and> valueOf t s' key \<in> {valueOf t s key, None} \<and> (\<not> isl r \<longrightarrow> valueOf t s' key = None)"
proof (cases "t key")
  case None
  then show ?thesis using assms by (auto simp: diskvErase_def diskv_run io_simps valueOf_def)
next
  case (Some p)
  then show ?thesis using assms putEntry_touches [of t key p s, OF Some] putEntry_value [of t key p s, OF Some]
    by (auto simp: diskvErase_def diskv_run io_simps mapErr_def split: option.splits if_splits)
qed

lemma readStream_outcome: "diskvReadStream t key s = (s', r) \<Longrightarrow> s' = s \<and> (\<forall>v. r = Inr v \<longrightarrow> valueOf t s key = Some v)"
  by (auto simp: diskvReadStream_def readWithRLock_def diskv_run io_simps valueOf_def split: option.splits)

lemma read_outcome: "diskvRead t key s = (s', r) \<Longrightarrow> s' = s \<and> (\<forall>v. r = Inr v \<longrightarrow> valueOf t s key = Some v)"
  using readStream_outcome [of t key s]
  by (cases "diskvReadStream t key s") (auto simp: diskvRead_def io_simps diskvCall_def split: sum.splits option.splits)

section \<open>Without faults\<close>

lemma read_ok: "diskvFault s = (\<lambda>_. None) \<Longrightarrow> valueOf t s key = Some v \<Longrightarrow> diskvRead t key s = (s, Inr v) \<and> diskvReadStream t key s = (s, Inr v)"
  by (auto simp: diskvRead_def diskvReadStream_def readWithRLock_def diskv_run io_simps valueOf_def split: option.splits)

lemma write_ok:
  assumes "diskvFault s = (\<lambda>_. None)" "key \<noteq> []" "t key = Some p"
  shows "diskvWrite t key val s = (s\<lparr>entries := (entries s)(p @ [key] := Some val)\<rparr>, Inr ())"
  using assms by (simp add: diskvWrite_def writeStreamWithLock_def diskv_run io_simps mapErr_def)

lemma import_ok:
  assumes "diskvFault s = (\<lambda>_. None)" "key \<noteq> []" "t key = Some p" "ty \<noteq> DirT"
  shows "diskvImport t (ty, data) key True s = (s\<lparr>entries := (entries s)(p @ [key] := Some data)\<rparr>, Inr ())"
  using assms by (simp add: diskvImport_def diskv_run io_simps mapErr_def)

lemma erase_ok:
  assumes "diskvFault s = (\<lambda>_. None)" "t key = Some p" "valueOf t s key = Some v"
  shows "diskvErase t key s = (s\<lparr>entries := (entries s)(p @ [key] := None)\<rparr>, Inr ())"
  using assms by (simp add: diskvErase_def diskv_run io_simps mapErr_def valueOf_def)

end
