(* ===== verification/Store_SQL.thy ===== *)
theory Store_SQL
  imports Kernel
begin

text \<open>
  The statements of the embedded database that the image store uses: typed tables with unique
  indices, and queries that select the rows of a table by one column. A transaction works on a
  copy of the database; every statement first consults \<open>sqlFault\<close>, an arbitrary table of injected
  failures.
\<close>

section \<open>Tables\<close>

datatype sqlType = TString | TInt | TTime | TBool

datatype sqlVal = VString string | VInt int | VTime int | VBool bool | VNull

type_synonym sqlRow = "sqlVal list"

record sqlTable =
  columns :: "(string \<times> sqlType) list"
  rows :: "sqlRow list"
  uniques :: "string list"

type_synonym database = "string \<Rightarrow> sqlTable option"

datatype sqlCond = Always | ColEq string sqlVal | ColPrefix string string

datatype sqlStmt =
    CreateTable string "(string \<times> sqlType) list"
  | CreateIndex bool string string
  | InsertInto string sqlRow
  | DeleteFrom string sqlCond
  | AddColumn string string sqlType
  | UpdateAll string string sqlVal

datatype sqlQuery = SelectTable string | SelectWhere string sqlCond | SelectOrdered string "string list" bool

fun hasType :: "sqlVal \<Rightarrow> sqlType \<Rightarrow> bool" where
  "hasType (VString _) t = (t = TString)"
| "hasType (VInt _) t = (t = TInt)"
| "hasType (VTime _) t = (t = TTime)"
| "hasType (VBool _) t = (t = TBool)"
| "hasType VNull t = True"

definition field :: "(string \<times> sqlType) list \<Rightarrow> string \<Rightarrow> sqlRow \<Rightarrow> sqlVal option" where
  "field cs c r = map_of (zip (map fst cs) r) c"

fun satisfies :: "(string \<times> sqlType) list \<Rightarrow> sqlCond \<Rightarrow> sqlRow \<Rightarrow> bool" where
  "satisfies cs Always r = True"
| "satisfies cs (ColEq c v) r = (field cs c r = Some v \<and> v \<noteq> VNull)"
| "satisfies cs (ColPrefix c p) r =
     (case field cs c r of Some (VString s) \<Rightarrow> hasPrefix s p | _ \<Rightarrow> False)"

fun condCols :: "sqlCond \<Rightarrow> string list" where
  "condCols Always = []"
| "condCols (ColEq c v) = [c]"
| "condCols (ColPrefix c p) = [c]"

definition knows :: "sqlTable \<Rightarrow> string list \<Rightarrow> bool" where
  "knows t ns \<longleftrightarrow> list_all (\<lambda>c. c \<in> set (map fst (columns t))) ns"

definition setField :: "(string \<times> sqlType) list \<Rightarrow> string \<Rightarrow> sqlVal \<Rightarrow> sqlRow \<Rightarrow> sqlRow" where
  "setField cs c v r = map2 (\<lambda>(c', _) w. if c' = c then v else w) cs r"

section \<open>Statements\<close>

definition onTable :: "database \<Rightarrow> string \<Rightarrow> (sqlTable \<Rightarrow> goerr + 'a) \<Rightarrow> goerr + 'a" where
  "onTable db t f =
     (case db t of None \<Rightarrow> Inl (Msg (''table '' @ t @ '' does not exist'')) | Some tab \<Rightarrow> f tab)"

text \<open>A row that a unique index refuses.\<close>

definition duplicate :: "sqlTable \<Rightarrow> sqlRow \<Rightarrow> bool" where
  "duplicate t r \<longleftrightarrow>
     list_ex (\<lambda>c. list_ex (\<lambda>r'. field (columns t) c r' = field (columns t) c r) (rows t)) (uniques t)"

fun execStmt :: "sqlStmt \<Rightarrow> database \<Rightarrow> goerr + database" where
  "execStmt (CreateTable t cs) db =
     Inr (if db t = None then db(t \<mapsto> \<lparr>columns = cs, rows = [], uniques = []\<rparr>) else db)"
| "execStmt (CreateIndex unique t c) db =
     onTable db t (\<lambda>tab.
       if \<not> knows tab [c] then Inl (Msg ''unknown column'')
       else Inr (if unique \<and> c \<notin> set (uniques tab) then db(t \<mapsto> tab\<lparr>uniques := c # uniques tab\<rparr>) else db))"
| "execStmt (InsertInto t r) db =
     onTable db t (\<lambda>tab.
       if length r \<noteq> length (columns tab) \<or> \<not> list_all2 hasType r (map snd (columns tab))
       then Inl (Msg ''type mismatch'')
       else if duplicate tab r then Inl (Msg ''duplicate value in unique index'')
       else Inr (db(t \<mapsto> tab\<lparr>rows := r # rows tab\<rparr>)))"
| "execStmt (DeleteFrom t c) db =
     onTable db t (\<lambda>tab.
       if \<not> knows tab (condCols c) then Inl (Msg ''unknown column'')
       else Inr (db(t \<mapsto> tab\<lparr>rows := filter (\<lambda>r. \<not> satisfies (columns tab) c r) (rows tab)\<rparr>)))"
| "execStmt (AddColumn t c ty) db =
     onTable db t (\<lambda>tab.
       if knows tab [c] then Inl (Msg ''column exists'')
       else Inr (db(t \<mapsto> tab\<lparr>columns := columns tab @ [(c, ty)], rows := map (\<lambda>r. r @ [VNull]) (rows tab)\<rparr>)))"
| "execStmt (UpdateAll t c v) db =
     onTable db t (\<lambda>tab.
       if \<not> knows tab [c] then Inl (Msg ''unknown column'')
       else Inr (db(t \<mapsto> tab\<lparr>rows := map (setField (columns tab) c v) (rows tab)\<rparr>)))"

text \<open>Values are ordered within their type; absent values come first.\<close>

fun leqVal :: "sqlVal \<Rightarrow> sqlVal \<Rightarrow> bool" where
  "leqVal (VString a) (VString b) = (a \<le> b)"
| "leqVal (VInt a) (VInt b) = (a \<le> b)"
| "leqVal (VTime a) (VTime b) = (a \<le> b)"
| "leqVal (VBool a) (VBool b) = (a \<le> b)"
| "leqVal VNull _ = True"
| "leqVal _ _ = False"

fun leqFields :: "(string \<times> sqlType) list \<Rightarrow> string list \<Rightarrow> sqlRow \<Rightarrow> sqlRow \<Rightarrow> bool" where
  "leqFields cs [] r r' = True"
| "leqFields cs (c # ns) r r' =
     (case (field cs c r, field cs c r') of
        (Some v, Some v') \<Rightarrow> if v = v' then leqFields cs ns r r' else leqVal v v'
      | _ \<Rightarrow> True)"

fun insertBy :: "('a \<Rightarrow> 'a \<Rightarrow> bool) \<Rightarrow> 'a \<Rightarrow> 'a list \<Rightarrow> 'a list" where
  "insertBy le x [] = [x]"
| "insertBy le x (y # ys) = (if le x y then x # y # ys else y # insertBy le x ys)"

definition sortBy :: "('a \<Rightarrow> 'a \<Rightarrow> bool) \<Rightarrow> 'a list \<Rightarrow> 'a list" where
  "sortBy le xs = foldr (insertBy le) xs []"

fun runQuery :: "sqlQuery \<Rightarrow> database \<Rightarrow> goerr + sqlRow list" where
  "runQuery (SelectTable t) db = Inr (if db t = None then [] else [[VString t]])"
| "runQuery (SelectWhere t c) db =
     onTable db t (\<lambda>tab.
       if \<not> knows tab (condCols c) then Inl (Msg ''unknown column'')
       else Inr (filter (satisfies (columns tab) c) (rows tab)))"
| "runQuery (SelectOrdered t ns asc) db =
     onTable db t (\<lambda>tab.
       if \<not> knows tab ns then Inl (Msg ''unknown column'')
       else Inr (sortBy (\<lambda>r r'. if asc then leqFields (columns tab) ns r r' else leqFields (columns tab) ns r' r) (rows tab)))"

section \<open>Transactions\<close>

datatype sqlCall = CallExec sqlStmt | CallQuery sqlQuery | CallRows sqlQuery

record txn =
  txDB :: database
  sqlFault :: "sqlCall \<Rightarrow> goerr option"

type_synonym 'a tx = "(txn, goerr, 'a) io"

definition txExec :: "sqlStmt \<Rightarrow> unit tx" where
  "txExec st s =
     (case sqlFault s (CallExec st) of
        Some e \<Rightarrow> (s, Inl (Fail e))
      | None \<Rightarrow>
          (case execStmt st (txDB s) of
             Inl e \<Rightarrow> (s, Inl (Fail e))
           | Inr db \<Rightarrow> (s\<lparr>txDB := db\<rparr>, Inr ())))"

definition txQuery :: "sqlQuery \<Rightarrow> sqlRow list tx" where
  "txQuery q s =
     (case sqlFault s (CallQuery q) of
        Some e \<Rightarrow> (s, Inl (Fail e))
      | None \<Rightarrow> (case runQuery q (txDB s) of Inl e \<Rightarrow> (s, Inl (Fail e)) | Inr rs \<Rightarrow> (s, Inr rs)))"

text \<open>\<^verbatim>\<open>rows.Err()\<close> after the loop over the rows.\<close>

definition rowsErr :: "sqlQuery \<Rightarrow> unit tx" where
  "rowsErr q s = (case sqlFault s (CallRows q) of Some e \<Rightarrow> (s, Inl (Fail e)) | None \<Rightarrow> (s, Inr ()))"

text \<open>The loop \<^verbatim>\<open>for rows.Next() { rows.Scan(...) }\<close>: the first row that cannot be scanned ends it.\<close>

fun scanRows :: "(sqlRow \<Rightarrow> 'a option) \<Rightarrow> sqlRow list \<Rightarrow> 'a list tx" where
  "scanRows scan [] = ret []"
| "scanRows scan (r # rs) =
     (case scan r of
        None \<Rightarrow> fail (Msg ''sql: Scan error'')
      | Some a \<Rightarrow> bindIO (scanRows scan rs) (\<lambda>as. ret (a # as)))"

section \<open>Facts\<close>

lemma sortBy_set [simp]: "set (sortBy le xs) = set xs"
proof -
  have ins: "set (insertBy le x ys) = insert x (set ys)" for x :: 'a and ys by (induction ys) auto
  show ?thesis unfolding sortBy_def by (induction xs) (auto simp: ins)
qed

lemma length_sortBy [simp]: "length (sortBy le xs) = length xs"
proof -
  have ins: "length (insertBy le x ys) = Suc (length ys)" for x :: 'a and ys by (induction ys) auto
  show ?thesis unfolding sortBy_def by (induction xs) (auto simp: ins)
qed

lemma scanRows_ok:
  "list_all (\<lambda>r. scan r \<noteq> None) rs \<Longrightarrow> scanRows scan rs s = (s, Inr (map (\<lambda>r. the (scan r)) rs))"
  by (induction rs) (auto simp: io_simps)

end
