(* ===== verification/Store_DB.thy ===== *)
theory Store_DB
  imports Store_SQL Flock
begin

text \<open>
  The database of the image store: \<^verbatim>\<open>store/db.go\<close>, \<^verbatim>\<open>store/schema.go\<close>, \<^verbatim>\<open>store/migrate.go\<close>,
  \<^verbatim>\<open>store/aciinfo.go\<close> and \<^verbatim>\<open>store/remote.go\<close>. Times are nanoseconds. What a function assigned to a
  variable of its caller is its result here.
\<close>

section \<open>Image records\<close>

record ACIInfo =
  BlobKey :: string
  AppName :: string
  ImportTime :: int
  Latest :: bool

definition NewACIInfo :: "string \<Rightarrow> bool \<Rightarrow> int \<Rightarrow> ACIInfo" where
  "NewACIInfo blobKey latest t = \<lparr>BlobKey = blobKey, AppName = '''', ImportTime = t, Latest = latest\<rparr>"

fun scanACIInfo :: "sqlRow \<Rightarrow> ACIInfo option" where
  "scanACIInfo [VString k, VString a, VTime t, VBool l] =
     Some \<lparr>BlobKey = k, AppName = a, ImportTime = t, Latest = l\<rparr>"
| "scanACIInfo _ = None"

definition aciRow :: "ACIInfo \<Rightarrow> sqlRow" where
  "aciRow i = [VString (BlobKey i), VString (AppName i), VTime (ImportTime i), VBool (Latest i)]"

definition queryACIInfos :: "sqlQuery \<Rightarrow> ACIInfo list tx" where
  "queryACIInfos q =
     bindIO (txQuery q) (\<lambda>rs.
     bindIO (scanRows scanACIInfo rs) (\<lambda>infos.
     bindIO (rowsErr q) (\<lambda>_. ret infos)))"

definition GetACIInfosWithKeyPrefix :: "string \<Rightarrow> ACIInfo list tx" where
  "GetACIInfosWithKeyPrefix pfx = queryACIInfos (SelectWhere ''aciinfo'' (ColPrefix ''blobkey'' pfx))"

definition GetACIInfosWithAppName :: "string \<Rightarrow> (ACIInfo list \<times> bool) tx" where
  "GetACIInfosWithAppName appname =
     bindIO (queryACIInfos (SelectWhere ''aciinfo'' (ColEq ''appname'' (VString appname)))) (\<lambda>infos.
     ret (infos, infos \<noteq> []))"

text \<open>Only the first row is scanned.\<close>

definition GetACIInfoWithBlobKey :: "string \<Rightarrow> ACIInfo option tx" where
  "GetACIInfoWithBlobKey blobKey =
     (let q = SelectWhere ''aciinfo'' (ColEq ''blobkey'' (VString blobKey)) in
      bindIO (txQuery q) (\<lambda>rs.
      bindIO (scanRows scanACIInfo (take 1 rs)) (\<lambda>infos.
      bindIO (rowsErr q) (\<lambda>_. ret (case infos of [] \<Rightarrow> None | i # _ \<Rightarrow> Some i)))))"

definition GetAllACIInfos_tx :: "string list \<Rightarrow> bool \<Rightarrow> ACIInfo list tx" where
  "GetAllACIInfos_tx sortfields ascending =
     queryACIInfos (if sortfields = [] then SelectWhere ''aciinfo'' Always else SelectOrdered ''aciinfo'' sortfields ascending)"

definition WriteACIInfo :: "ACIInfo \<Rightarrow> unit tx" where
  "WriteACIInfo aciinfo =
     bindIO (txExec (DeleteFrom ''aciinfo'' (ColEq ''blobkey'' (VString (BlobKey aciinfo))))) (\<lambda>_.
     txExec (InsertInto ''aciinfo'' (aciRow aciinfo)))"

definition RemoveACIInfo :: "string \<Rightarrow> unit tx" where
  "RemoveACIInfo blobKey = txExec (DeleteFrom ''aciinfo'' (ColEq ''blobkey'' (VString blobKey)))"

section \<open>Remotes\<close>

record Remote =
  ACIURL :: string
  SigURL :: string
  ETag :: string
  r_BlobKey :: string
  CacheMaxAge :: int
  DownloadTime :: int

text \<open>The zero value of \<^verbatim>\<open>time.Time\<close>.\<close>

definition zeroTime :: int where
  "zeroTime = -62135596800000000000"

definition NewRemote :: "string \<Rightarrow> string \<Rightarrow> Remote" where
  "NewRemote aciurl sigurl =
     \<lparr>ACIURL = aciurl, SigURL = sigurl, ETag = '''', r_BlobKey = '''', CacheMaxAge = 0, DownloadTime = zeroTime\<rparr>"

fun scanRemote :: "sqlRow \<Rightarrow> Remote option" where
  "scanRemote [VString a, VString s, VString e, VString k, VInt c, VTime t] =
     Some \<lparr>ACIURL = a, SigURL = s, ETag = e, r_BlobKey = k, CacheMaxAge = c, DownloadTime = t\<rparr>"
| "scanRemote _ = None"

definition remoteRow :: "Remote \<Rightarrow> sqlRow" where
  "remoteRow r = [VString (ACIURL r), VString (SigURL r), VString (ETag r), VString (r_BlobKey r),
     VInt (CacheMaxAge r), VTime (DownloadTime r)]"

text \<open>Every row is scanned into the same variable.\<close>

definition GetRemote_tx :: "string \<Rightarrow> Remote option tx" where
  "GetRemote_tx aciURL =
     (let q = SelectWhere ''remote'' (ColEq ''aciurl'' (VString aciURL)) in
      bindIO (txQuery q) (\<lambda>rs.
      bindIO (scanRows scanRemote rs) (\<lambda>remotes.
      bindIO (rowsErr q) (\<lambda>_. ret (if remotes = [] then None else Some (last remotes))))))"

definition WriteRemote_tx :: "Remote \<Rightarrow> unit tx" where
  "WriteRemote_tx remote =
     bindIO (txExec (DeleteFrom ''remote'' (ColEq ''aciurl'' (VString (ACIURL remote))))) (\<lambda>_.
     txExec (InsertInto ''remote'' (remoteRow remote)))"

definition RemoveRemote :: "string \<Rightarrow> unit tx" where
  "RemoveRemote blobKey = txExec (DeleteFrom ''remote'' (ColEq ''blobkey'' (VString blobKey)))"

section \<open>Schema and migration\<close>

definition dbVersion :: int where "dbVersion = 2"

definition remoteCols :: "(string \<times> sqlType) list" where
  "remoteCols = [(''aciurl'', TString), (''sigurl'', TString), (''etag'', TString), (''blobkey'', TString),
     (''cachemaxage'', TInt), (''downloadtime'', TTime)]"

definition aciCols :: "(string \<times> sqlType) list" where
  "aciCols = [(''blobkey'', TString), (''appname'', TString), (''importtime'', TTime), (''latest'', TBool)]"

definition dbCreateStmts :: "sqlStmt list" where
  "dbCreateStmts =
     [CreateTable ''version'' [(''version'', TInt)],
      InsertInto ''version'' [VInt dbVersion],
      CreateTable ''remote'' remoteCols,
      CreateIndex True ''remote'' ''aciurl'',
      CreateTable ''aciinfo'' aciCols,
      CreateIndex True ''aciinfo'' ''blobkey'',
      CreateIndex False ''aciinfo'' ''appname'']"

definition dbIsPopulated :: "bool tx" where
  "dbIsPopulated =
     bindIO (txQuery (SelectTable ''version'')) (\<lambda>rs.
     bindIO (rowsErr (SelectTable ''version'')) (\<lambda>_. ret (length rs > 0)))"

fun scanVersion :: "sqlRow \<Rightarrow> int option" where
  "scanVersion [VInt v] = Some v"
| "scanVersion _ = None"

definition getDBVersion :: "int tx" where
  "getDBVersion =
     (let q = SelectWhere ''version'' Always in
      bindIO (txQuery q) (\<lambda>rs.
      bindIO (scanRows scanVersion (take 1 rs)) (\<lambda>vs.
      bindIO (rowsErr q) (\<lambda>_.
      case vs of [] \<Rightarrow> fail (Msg ''db version table empty'') | v # _ \<Rightarrow> ret v))))"

definition updateDBVersion :: "int \<Rightarrow> unit tx" where
  "updateDBVersion version =
     bindIO (txExec (DeleteFrom ''version'' Always)) (\<lambda>_. txExec (InsertInto ''version'' [VInt version]))"

definition migrateToV1 :: "unit tx" where
  "migrateToV1 = ret ()"

definition migrateToV2 :: "unit tx" where
  "migrateToV2 =
     bindIO (txExec (AddColumn ''remote'' ''cachemaxage'' TInt)) (\<lambda>_.
     bindIO (txExec (AddColumn ''remote'' ''downloadedtime'' TTime)) (\<lambda>_.
     bindIO (txExec (UpdateAll ''remote'' ''cachemaxage'' (VInt 0))) (\<lambda>_.
     txExec (UpdateAll ''remote'' ''downloadedtime'' (VTime zeroTime)))))"

definition migrateTable :: "int \<Rightarrow> unit tx option" where
  "migrateTable v = (if v = 1 then Some migrateToV1 else if v = 2 then Some migrateToV2 else None)"

text \<open>The loop runs at most \<open>finalVersion - version\<close> times; the error of \<^verbatim>\<open>updateDBVersion\<close> is dropped.\<close>

function migrateFrom :: "int \<Rightarrow> int \<Rightarrow> unit tx" where
  "migrateFrom v finalVersion =
     (if v > finalVersion then ret ()
      else case migrateTable v of
             None \<Rightarrow> fail (Msg (''missing migrate function for version '' @ itoa (nat v)))
           | Some f \<Rightarrow>
               tryIO f (\<lambda>r.
               case r of
                 Inl e \<Rightarrow> fail (Wrap (''failed to migrate db to version '' @ itoa (nat v)) e)
               | Inr _ \<Rightarrow> tryIO (updateDBVersion v) (\<lambda>_. migrateFrom (v + 1) finalVersion)))"
  by pat_completeness auto
termination by (relation "measure (\<lambda>(v, n). nat (n + 1 - v))") auto

declare migrateFrom.simps [simp del]

definition migrate :: "int \<Rightarrow> unit tx" where
  "migrate finalVersion =
     (if finalVersion > dbVersion
      then fail (Msg ''required migrate final version greater than the last supported db version'')
      else bindIO getDBVersion (\<lambda>version. migrateFrom (version + 1) finalVersion))"

section \<open>The database handle\<close>

text \<open>
  The database lives under a directory of the store. The state has the lock and the open
  connection of the handle, the committed contents, and the injected failures of the driver.
\<close>

datatype casDir = BaseDir | CasDir | ImageLocks | TreeLocks | BackupsDir | TmpDir

datatype dbCall = DbOpen | DbBegin | DbCommit | DbClose

record dbWorld =
  kern :: "casDir kernel"
  db_lock :: "casDir FileLock option"
  db_sqldb :: bool
  committed :: database
  dbFault :: "dbCall \<Rightarrow> goerr option"
  stmtFault :: "sqlCall \<Rightarrow> goerr option"

type_synonym ('z, 'a) dbio = "('z dbWorld_scheme, goerr, 'a) io"

definition onKernel :: "(casDir, 'a) gofs \<Rightarrow> ('z, 'a) dbio" where
  "onKernel m s = (case m (kern s) of (k, r) \<Rightarrow> (s\<lparr>kern := k\<rparr>, r))"

definition driver :: "dbCall \<Rightarrow> ('z, unit) dbio" where
  "driver c s = (case dbFault s c of Some e \<Rightarrow> (s, Inl (Fail e)) | None \<Rightarrow> (s, Inr ()))"

definition dbPath :: "casDir \<times> string" where
  "dbPath = (CasDir, ''db'')"

definition DB_Open :: "('z, unit) dbio" where
  "DB_Open s =
     (if db_lock s \<noteq> None then panic ''cas db lock already gained'' s
      else bindIO (onKernel (ExclusiveLock dbPath Dir)) (\<lambda>dl.
           bindIO (\<lambda>s. (s\<lparr>db_lock := Some dl\<rparr>, Inr ())) (\<lambda>_.
           tryIO (driver DbOpen) (\<lambda>r.
           case r of
             Inl e \<Rightarrow> bindIO (onKernel (FileLock_Close dl)) (\<lambda>_. fail e)
           | Inr _ \<Rightarrow> \<lambda>s. (s\<lparr>db_sqldb := True\<rparr>, Inr ())))) s)"

definition DB_Close :: "('z, unit) dbio" where
  "DB_Close s =
     (case db_lock s of
        None \<Rightarrow> panic ''cas db, Close called without lock'' s
      | Some l \<Rightarrow>
          if \<not> db_sqldb s then panic ''cas db, Close called without an open sqldb'' s
          else bindIO (mapErr (Wrap ''cas db close failed: '') (driver DbClose)) (\<lambda>_.
               bindIO (\<lambda>s. (s\<lparr>db_sqldb := False\<rparr>, Inr ())) (\<lambda>_.
               bindIO (onKernel (FileLock_Close l)) (\<lambda>_ s. (s\<lparr>db_lock := None\<rparr>, Inr ())))) s)"

text \<open>
  One transaction: the functions work on a copy of the committed contents; an error rolls back,
  and the result of \<^verbatim>\<open>Commit\<close> is not looked at.
\<close>

fun runTxs :: "'a tx list \<Rightarrow> 'a list tx" where
  "runTxs [] = ret []"
| "runTxs (f # fs) = bindIO f (\<lambda>a. bindIO (runTxs fs) (\<lambda>as. ret (a # as)))"

definition DB_DoTx :: "'a tx list \<Rightarrow> ('z, 'a list) dbio" where
  "DB_DoTx fns =
     bindIO (driver DbBegin) (\<lambda>_ s.
       case runTxs fns \<lparr>txDB = committed s, sqlFault = stmtFault s\<rparr> of
         (t, Inl e) \<Rightarrow> (s, Inl e)
       | (t, Inr as) \<Rightarrow>
           (case dbFault s DbCommit of
              Some _ \<Rightarrow> (s, Inr as)
            | None \<Rightarrow> (s\<lparr>committed := txDB t\<rparr>, Inr as)))"

definition DB_Do :: "'a tx list \<Rightarrow> ('z, 'a list) dbio" where
  "DB_Do fns = bindIO DB_Open (\<lambda>_. deferring DB_Close (DB_DoTx fns))"

text \<open>The calls of the store pass one function and use what it computed.\<close>

definition DB_Do1 :: "'a tx \<Rightarrow> ('z, 'a) dbio" where
  "DB_Do1 f = bindIO (DB_Do [f]) (\<lambda>as. ret (hd as))"

end
