(* ===== verification/Store_DB_Facts.thy ===== *)
theory Store_DB_Facts
  imports Store_DB
begin

text \<open>
  What the database of the store promises: its tables behave as finite maps, transactions are all
  or nothing and exclude each other, and migration keeps the contents.
\<close>

section \<open>The contents of the tables\<close>

text \<open>The records a table stands for, newest first.\<close>

definition holdsACI :: "database \<Rightarrow> ACIInfo list \<Rightarrow> bool" where
  "holdsACI db is \<longleftrightarrow> distinct (map BlobKey is) \<and>
     db ''aciinfo'' = Some \<lparr>columns = aciCols, rows = map aciRow is, uniques = [''blobkey'']\<rparr>"

definition migratedCols :: "(string \<times> sqlType) list" where
  "migratedCols = butlast remoteCols @ [(''downloadedtime'', TTime)]"

definition holdsRemotes :: "database \<Rightarrow> Remote list \<Rightarrow> bool" where
  "holdsRemotes db rs \<longleftrightarrow> distinct (map ACIURL rs) \<and>
     (\<exists>cs \<in> {remoteCols, migratedCols}.
        db ''remote'' = Some \<lparr>columns = cs, rows = map remoteRow rs, uniques = [''aciurl'']\<rparr>)"

definition holdsVersion :: "database \<Rightarrow> int \<Rightarrow> bool" where
  "holdsVersion db v \<longleftrightarrow>
     db ''version'' = Some \<lparr>columns = [(''version'', TInt)], rows = [[VInt v]], uniques = []\<rparr>"

abbreviation calm :: "txn \<Rightarrow> bool" where
  "calm s \<equiv> sqlFault s = (\<lambda>_. None)"

lemma scan_rows [simp]: "scanACIInfo (aciRow i) = Some i" "scanRemote (remoteRow r) = Some r"
  by (simp_all add: aciRow_def remoteRow_def)

lemma aci_fields [simp]:
  "field aciCols ''blobkey'' (aciRow i) = Some (VString (BlobKey i))"
  "field aciCols ''appname'' (aciRow i) = Some (VString (AppName i))"
  "field aciCols ''importtime'' (aciRow i) = Some (VTime (ImportTime i))"
  "field aciCols ''latest'' (aciRow i) = Some (VBool (Latest i))"
  by (simp_all add: field_def aciCols_def aciRow_def)

lemma remote_fields [simp]:
  "cs \<in> {remoteCols, migratedCols} \<Longrightarrow> field cs ''aciurl'' (remoteRow r) = Some (VString (ACIURL r))"
  "cs \<in> {remoteCols, migratedCols} \<Longrightarrow> field cs ''blobkey'' (remoteRow r) = Some (VString (r_BlobKey r))"
  by (auto simp: field_def remoteCols_def migratedCols_def remoteRow_def)

lemma knows_aci:
  "columns t = aciCols \<Longrightarrow> knows t ns = list_all (\<lambda>c. c \<in> {''blobkey'', ''appname'', ''importtime'', ''latest''}) ns"
  by (simp add: knows_def aciCols_def)

lemma knows_remote:
  "columns t \<in> {remoteCols, migratedCols} \<Longrightarrow> knows t [''aciurl''] \<and> knows t [''blobkey'']"
  by (auto simp: knows_def remoteCols_def migratedCols_def)

lemma insert_aci:
  "length (aciRow i) = length aciCols" "list_all2 hasType (aciRow i) (map snd aciCols)"
  "duplicate \<lparr>columns = aciCols, rows = map aciRow is, uniques = [''blobkey'']\<rparr> (aciRow i) \<longleftrightarrow> (\<exists>x \<in> set is. BlobKey x = BlobKey i)"
  by (auto simp: aciRow_def aciCols_def duplicate_def list_ex_iff field_def)

lemma insert_remote:
  assumes "cs \<in> {remoteCols, migratedCols}"
  shows "length (remoteRow r) = length cs" "list_all2 hasType (remoteRow r) (map snd cs)"
    "duplicate \<lparr>columns = cs, rows = map remoteRow rs, uniques = [''aciurl'']\<rparr> (remoteRow r) \<longleftrightarrow> (\<exists>x \<in> set rs. ACIURL x = ACIURL r)"
  using assms by (auto simp: remoteRow_def remoteCols_def migratedCols_def duplicate_def list_ex_iff field_def)

lemma scan_map_aci [simp]: "scanRows scanACIInfo (map aciRow is) s = (s, Inr is)"
  by (subst scanRows_ok) (simp_all add: list_all_iff comp_def)

lemma scan_map_remote [simp]: "scanRows scanRemote (map remoteRow rs) s = (s, Inr rs)"
  by (subst scanRows_ok) (simp_all add: list_all_iff comp_def)

section \<open>A table as a map\<close>

text \<open>
  A table with a primary key, as its clients use it: \<open>put\<close> replaces what is stored under the key of
  the record, \<open>get\<close> finds it again. \<open>stored\<close> relates the database to the records it holds.
\<close>

locale keyed_table =
  fixes stored :: "database \<Rightarrow> 'r list \<Rightarrow> bool"
    and keyOf :: "'r \<Rightarrow> string"
    and get :: "string \<Rightarrow> 'r option tx"
    and put :: "'r \<Rightarrow> unit tx"
  assumes stored_distinct: "stored db rs \<Longrightarrow> distinct (map keyOf rs)"
    and get_ok: "calm s \<Longrightarrow> stored (txDB s) rs \<Longrightarrow> get k s = (s, Inr (List.find (\<lambda>r. keyOf r = k) rs))"
    and put_ok: "calm s \<Longrightarrow> stored (txDB s) rs \<Longrightarrow>
      \<exists>db. put r s = (s\<lparr>txDB := db\<rparr>, Inr ()) \<and> stored db (r # filter (\<lambda>x. keyOf x \<noteq> keyOf r) rs)"
begin

text \<open>The map a list of records stands for.\<close>

definition asMap :: "'r list \<Rightarrow> string \<Rightarrow> 'r option" where
  "asMap rs k = List.find (\<lambda>r. keyOf r = k) rs"

lemma asMap_put: "asMap (r # filter (\<lambda>x. keyOf x \<noteq> keyOf r) rs) = (asMap rs)(keyOf r \<mapsto> r)"
proof
  fix k show "asMap (r # filter (\<lambda>x. keyOf x \<noteq> keyOf r) rs) k = ((asMap rs)(keyOf r \<mapsto> r)) k"
    unfolding asMap_def by (induction rs) (auto split: if_splits)
qed

text \<open>A sequence of writes implements the updates of the map, and each key is read back.\<close>

lemma puts_refine:
  assumes "calm s" and "stored (txDB s) rs"
  shows "\<exists>db rs'. runTxs (map put us) s = (s\<lparr>txDB := db\<rparr>, Inr (replicate (length us) ())) \<and>
    stored db rs' \<and> asMap rs' = fold (\<lambda>r m. m(keyOf r \<mapsto> r)) us (asMap rs)"
  using assms
proof (induction us arbitrary: s rs)
  case Nil
  then show ?case by (auto simp: io_simps intro!: exI [of _ "txDB s"] exI [of _ rs])
next
  case (Cons u us)
  obtain db where put: "put u s = (s\<lparr>txDB := db\<rparr>, Inr ())"
    and st: "stored db (u # filter (\<lambda>x. keyOf x \<noteq> keyOf u) rs)"
    using put_ok [OF Cons.prems] by blast
  obtain db' rs' where "runTxs (map put us) (s\<lparr>txDB := db\<rparr>) = (s\<lparr>txDB := db'\<rparr>, Inr (replicate (length us) ()))"
    "stored db' rs'" "asMap rs' = fold (\<lambda>r m. m(keyOf r \<mapsto> r)) us ((asMap rs)(keyOf u \<mapsto> u))"
    using Cons.IH [of "s\<lparr>txDB := db\<rparr>"] Cons.prems(1) st asMap_put by fastforce
  then show ?case
    using put by (intro exI [of _ db'] exI [of _ rs']) (simp add: io_simps del: fun_upd_apply)
qed

lemma get_asMap: "calm s \<Longrightarrow> stored (txDB s) rs \<Longrightarrow> get k s = (s, Inr (asMap rs k))"
  by (simp add: asMap_def get_ok)

end

text \<open>A table whose records can also be removed by their key.\<close>

locale removable_table = keyed_table stored keyOf get put
  for stored :: "database \<Rightarrow> 'r list \<Rightarrow> bool" and keyOf :: "'r \<Rightarrow> string"
    and get :: "string \<Rightarrow> 'r option tx" and put :: "'r \<Rightarrow> unit tx" +
  fixes remove :: "string \<Rightarrow> unit tx"
  assumes remove_ok: "calm s \<Longrightarrow> stored (txDB s) rs \<Longrightarrow>
      \<exists>db. remove k s = (s\<lparr>txDB := db\<rparr>, Inr ()) \<and> stored db (filter (\<lambda>x. keyOf x \<noteq> k) rs)"
begin

lemma asMap_remove: "asMap (filter (\<lambda>x. keyOf x \<noteq> k) rs) = (asMap rs)(k := None)"
proof
  fix k' show "asMap (filter (\<lambda>x. keyOf x \<noteq> k) rs) k' = ((asMap rs)(k := None)) k'"
    unfolding asMap_def by (induction rs) (auto split: if_splits)
qed

end

lemma filter_key:
  "distinct (map key xs) \<Longrightarrow>
     filter (\<lambda>x. key x = k) xs = (case List.find (\<lambda>x. key x = k) xs of None \<Rightarrow> [] | Some x \<Rightarrow> [x])"
proof (induction xs)
  case (Cons x xs)
  have "filter (\<lambda>y. key y = key x) xs = []" using Cons.prems by (simp add: filter_empty_conv image_iff) metis
  with Cons show ?case by auto
qed simp

interpretation aci: removable_table holdsACI BlobKey GetACIInfoWithBlobKey WriteACIInfo RemoveACIInfo
proof unfold_locales
  fix db "is" assume "holdsACI db is"
  then show "distinct (map BlobKey is)" by (simp add: holdsACI_def)
next
  fix s "is" k assume calm: "calm s" and st: "holdsACI (txDB s) is"
  have del: "execStmt (DeleteFrom ''aciinfo'' (ColEq ''blobkey'' (VString k))) (txDB s) =
      Inr ((txDB s)(''aciinfo'' \<mapsto> \<lparr>columns = aciCols, rows = map aciRow (filter (\<lambda>i. BlobKey i \<noteq> k) is),
        uniques = [''blobkey'']\<rparr>))" for k
    using st by (simp add: holdsACI_def onTable_def knows_aci filter_map comp_def)
  show "\<exists>db. RemoveACIInfo k s = (s\<lparr>txDB := db\<rparr>, Inr ()) \<and> holdsACI db (filter (\<lambda>x. BlobKey x \<noteq> k) is)"
    using calm st by (auto simp: RemoveACIInfo_def txExec_def del holdsACI_def distinct_map_filter simp del: execStmt.simps)
  show "GetACIInfoWithBlobKey k s = (s, Inr (List.find (\<lambda>r. BlobKey r = k) is))"
    using calm st filter_key [of BlobKey "is" k]
    by (auto simp: GetACIInfoWithBlobKey_def Let_def io_simps txQuery_def rowsErr_def holdsACI_def onTable_def knows_aci
        filter_map comp_def split: option.split)
  show "\<exists>db. WriteACIInfo r s = (s\<lparr>txDB := db\<rparr>, Inr ()) \<and> holdsACI db (r # filter (\<lambda>x. BlobKey x \<noteq> BlobKey r) is)" for r
    using calm st
    by (auto simp: WriteACIInfo_def io_simps txExec_def del holdsACI_def distinct_map_filter onTable_def insert_aci
        simp del: execStmt.simps(4))
qed

interpretation remote: keyed_table holdsRemotes ACIURL GetRemote_tx WriteRemote_tx
proof unfold_locales
  fix db rs assume "holdsRemotes db rs"
  then show "distinct (map ACIURL rs)" by (simp add: holdsRemotes_def)
next
  fix s rs k assume calm: "calm s" and st: "holdsRemotes (txDB s) rs"
  obtain cs where cs: "cs \<in> {remoteCols, migratedCols}" and d: "distinct (map ACIURL rs)"
    and t: "txDB s ''remote'' = Some \<lparr>columns = cs, rows = map remoteRow rs, uniques = [''aciurl'']\<rparr>"
    using st by (auto simp: holdsRemotes_def)
  note facts = remote_fields [OF cs] insert_remote [OF cs] knows_remote
  show "GetRemote_tx k s = (s, Inr (List.find (\<lambda>r. ACIURL r = k) rs))"
    using calm t cs filter_key [OF d, of k]
    by (auto simp: GetRemote_tx_def Let_def io_simps txQuery_def rowsErr_def onTable_def facts
        filter_map comp_def split: option.split)
  show "\<exists>db. WriteRemote_tx r s = (s\<lparr>txDB := db\<rparr>, Inr ()) \<and> holdsRemotes db (r # filter (\<lambda>x. ACIURL x \<noteq> ACIURL r) rs)" for r
    using calm t cs d
    by (auto simp: WriteRemote_tx_def io_simps txExec_def holdsRemotes_def distinct_map_filter onTable_def facts filter_map comp_def)
qed

section \<open>Transactions are all or nothing\<close>

lemma onKernel_cases [io_elims]:
  assumes "onKernel m s = (s', r)"
  obtains k where "m (kern s) = (k, r)" and "s' = s\<lparr>kern := k\<rparr>"
  using assms by (auto simp: onKernel_def split: prod.splits)

lemma driver_outcome: "driver c s = (s', r) \<Longrightarrow> s' = s \<and> (r = Inr () \<and> dbFault s c = None \<or> (\<exists>e. r = Inl (Fail e) \<and> dbFault s c = Some e))"
  by (auto simp: driver_def split: option.splits)

text \<open>All but the handle and the machine are the same.\<close>

definition sameStore :: "'z dbWorld_scheme \<Rightarrow> 'z dbWorld_scheme \<Rightarrow> bool" where
  "sameStore s s' \<longleftrightarrow> dbFault s' = dbFault s \<and> stmtFault s' = stmtFault s \<and> dbWorld.more s' = dbWorld.more s"

lemma sameStore_simps [simp]:
  "sameStore s s" "sameStore s (s'\<lparr>kern := k\<rparr>) = sameStore s s'" "sameStore s (s'\<lparr>db_lock := l\<rparr>) = sameStore s s'"
  "sameStore s (s'\<lparr>db_sqldb := b\<rparr>) = sameStore s s'" "sameStore s (s'\<lparr>committed := c\<rparr>) = sameStore s s'"
  by (simp_all add: sameStore_def)

lemma DB_Open_outcome:
  assumes "DB_Open s = (s', r)"
  shows "sameStore s s' \<and> committed s' = committed s \<and>
    (r = Inr () \<longrightarrow> db_lock s = None \<and> db_sqldb s' \<and> dbFault s DbOpen = None \<and>
       (\<exists>l. db_lock s' = Some l \<and> ExclusiveLock dbPath Dir (kern s) = (kern s', Inr l)))"
  using assms unfolding DB_Open_def
  by (auto elim!: stop_cases bindIO_cases tryIO_cases onKernel_cases dest!: driver_outcome split: if_splits)

lemma DB_Close_outcome:
  assumes "DB_Close s = (s', r)" and "db_lock s = Some l" and "db_sqldb s"
  shows "sameStore s s' \<and> committed s' = committed s \<and>
    (dbFault s DbClose = None \<and> r = Inr () \<and> db_lock s' = None \<and> \<not> db_sqldb s' \<and>
       (\<exists>x. FileLock_Close l (kern s) = (kern s', Inr x)) \<or>
     (\<exists>e. dbFault s DbClose = Some e) \<and> (\<exists>e. r = Inl (Fail e)) \<and> s' = s)"
proof -
  have close: "\<exists>k x. FileLock_Close l k0 = (k, Inr x)" for k0
    by (auto simp: FileLock_Close_def io_simps sys_close_def mapErr_def)
  show ?thesis
    using assms close [of "kern s"] unfolding DB_Close_def
    by (auto simp: io_simps onKernel_def driver_def mapErr_def split: option.splits)
qed

lemma DB_DoTx_outcome:
  assumes "DB_DoTx fns s = (s', r)"
  shows "sameStore s s' \<and> kern s' = kern s \<and> db_lock s' = db_lock s \<and> db_sqldb s' = db_sqldb s \<and>
    ((\<exists>e. r = Inl e) \<and> committed s' = committed s \<or>
     (\<exists>t as. runTxs fns \<lparr>txDB = committed s, sqlFault = stmtFault s\<rparr> = (t, Inr as) \<and> r = Inr as \<and>
        committed s' = (if dbFault s DbCommit = None then txDB t else committed s)))"
  using assms unfolding DB_DoTx_def
  by (auto elim!: bindIO_cases dest!: driver_outcome split: prod.splits sum.splits option.splits)

text \<open>A call of \<^verbatim>\<open>Do\<close> under any failures.\<close>

lemma DB_Do_outcome:
  assumes "DB_Do fns s = (s', r)"
  shows "sameStore s s' \<and>
    ((\<exists>e. r = Inl e) \<and> committed s' = committed s \<or>
     (\<exists>t as. runTxs fns \<lparr>txDB = committed s, sqlFault = stmtFault s\<rparr> = (t, Inr as) \<and> r = Inr as \<and>
        committed s' = (if dbFault s DbCommit = None then txDB t else committed s)))"
  using assms unfolding DB_Do_def
proof (rule bindIO_cases)
  fix e assume "DB_Open s = (s', Inl e)" "r = Inl e"
  then show ?thesis using DB_Open_outcome by blast
next
  fix u s1 assume op: "DB_Open s = (s1, Inr u)" and rest: "deferring DB_Close (DB_DoTx fns) s1 = (s', r)"
  then have s1: "sameStore s s1" "committed s1 = committed s" "db_sqldb s1" "\<exists>l. db_lock s1 = Some l"
    using DB_Open_outcome [OF op] by auto
  obtain s2 r2 where tx: "DB_DoTx fns s1 = (s2, r2)" by fastforce
  note do = DB_DoTx_outcome [OF tx]
  obtain s3 r3 where cl: "DB_Close s2 = (s3, r3)" by fastforce
  then have "committed s3 = committed s2 \<and> sameStore s2 s3" "(\<exists>e. r3 = Inl (Fail e)) \<or> r3 = Inr ()"
    using DB_Close_outcome [OF cl] do s1 by auto
  then have "s' = s3" "r = r2" using rest tx cl by (auto simp: deferring_def)
  then show ?thesis using do s1 \<open>committed s3 = committed s2 \<and> sameStore s2 s3\<close> by (auto simp: sameStore_def)
qed

lemma DB_Do1_outcome:
  assumes "DB_Do1 f s = (s', r)"
  shows "sameStore s s' \<and>
    ((\<exists>e. r = Inl e) \<and> committed s' = committed s \<or>
     (\<exists>t a. f \<lparr>txDB = committed s, sqlFault = stmtFault s\<rparr> = (t, Inr a) \<and> r = Inr a \<and>
        committed s' = (if dbFault s DbCommit = None then txDB t else committed s)))"
proof -
  obtain s1 r1 where run: "DB_Do [f] s = (s1, r1)" by fastforce
  then have "s' = s1 \<and> r = map_sum id hd r1" using assms by (cases r1) (auto simp: DB_Do1_def io_simps)
  moreover obtain t x where "f \<lparr>txDB = committed s, sqlFault = stmtFault s\<rparr> = (t, x)" by fastforce
  moreover from this have "runTxs [f] \<lparr>txDB = committed s, sqlFault = stmtFault s\<rparr> = (t, map_sum id (\<lambda>a. [a]) x)"
    by (cases x) (simp_all add: io_simps)
  ultimately show ?thesis using DB_Do_outcome [OF run] by (cases x) auto
qed

text \<open>
  C10. A transaction is all or nothing, whichever statement, system call or driver call fails: when
  \<^verbatim>\<open>Do\<close> returns an error the committed contents are what they were, and otherwise they are
  what they were or what the functions made of them, all of which have run to their end.
\<close>

theorem Do_all_or_nothing:
  assumes "DB_Do fns s = (s', r)"
  shows "committed s' = committed s \<or>
    (\<exists>t as. runTxs fns \<lparr>txDB = committed s, sqlFault = stmtFault s\<rparr> = (t, Inr as) \<and> r = Inr as \<and> committed s' = txDB t)"
  using DB_Do_outcome [OF assms] by (auto split: if_splits)

text \<open>A handle that is closed, on a database that nobody has locked and whose driver works.\<close>

definition dbReady :: "'z dbWorld_scheme \<Rightarrow> bool" where
  "dbReady s \<longleftrightarrow> db_lock s = None \<and> \<not> db_sqldb s \<and> (\<forall>c. c \<noteq> DbCommit \<longrightarrow> dbFault s c = None) \<and> lock_inv (kern s) \<and> fault (kern s) = (\<lambda>_. None) \<and>
     (\<exists>i. lookup (kern s) CasDir ''db'' = Some i \<and> itype (kern s) i = DirT \<and>
        \<not> (\<exists>fd m. map_of (descs (kern s)) fd = Some (i, m) \<and> m \<noteq> Unlocked))"

definition dbAfter :: "'z dbWorld_scheme \<Rightarrow> database \<Rightarrow> 'z dbWorld_scheme" where
  "dbAfter s db = s\<lparr>kern := (kern s)\<lparr>next_fd := next_fd (kern s) + 1\<rparr>, committed := db\<rparr>"

lemma dbAfter_sel [simp]:
  "committed (dbAfter s db) = db" "dbFault (dbAfter s db) = dbFault s" "stmtFault (dbAfter s db) = stmtFault s"
  "dbWorld.more (dbAfter s db) = dbWorld.more s" "kern (dbAfter s db) = (kern s)\<lparr>next_fd := next_fd (kern s) + 1\<rparr>"
  by (simp_all add: dbAfter_def)

lemma dbReady_after [simp]: "dbReady s \<Longrightarrow> dbReady (dbAfter s db)"
  by (auto simp: dbReady_def dbAfter_def lock_inv_next_fd)

lemma DB_Do_ready:
  assumes "dbReady s" and "runTxs fns \<lparr>txDB = committed s, sqlFault = stmtFault s\<rparr> = (t, r)"
  shows "DB_Do fns s = (dbAfter s (if isl r \<or> dbFault s DbCommit \<noteq> None then committed s else txDB t), r)"
proof -
  obtain i where i: "lookup (kern s) CasDir ''db'' = Some i" "itype (kern s) i = DirT"
      "\<not> (\<exists>fd m. map_of (descs (kern s)) fd = Some (i, m) \<and> m \<noteq> Unlocked)"
    and s: "db_lock s = None" "\<not> db_sqldb s" "\<forall>c. c \<noteq> DbCommit \<longrightarrow> dbFault s c = None" "lock_inv (kern s)" "fault (kern s) = (\<lambda>_. None)"
    using assms(1) by (auto simp: dbReady_def)
  let ?l = "\<lparr>lk_path = (CasDir, ''db''), lk_fd = next_fd (kern s)\<rparr>"
  let ?k = "set_mode (next_fd (kern s)) ExclusiveLk (opened i (kern s))"
  let ?s1 = "s\<lparr>kern := ?k, db_lock := Some ?l, db_sqldb := True\<rparr>"
  define db where "db = (if isl r \<or> dbFault s DbCommit \<noteq> None then committed s else txDB t)"
  have open1: "DB_Open s = (?s1, Inr ())"
    using s(1,3) by (simp add: DB_Open_def io_simps onKernel_def driver_def dbPath_def ExclusiveLock_free [OF s(4,5) i])
  have run: "DB_DoTx fns ?s1 = (?s1\<lparr>committed := db\<rparr>, r)"
    using s(3) assms(2) by (auto simp: db_def DB_DoTx_def io_simps driver_def split: sum.split option.split)
  have close1: "DB_Close (?s1\<lparr>committed := db\<rparr>) = (dbAfter s db, Inr ())"
    using s(1-3) by (simp add: DB_Close_def io_simps mapErr_def onKernel_def driver_def FileLock_Close_fresh [OF s(4)] dbAfter_def)
  show ?thesis unfolding db_def [symmetric] by (simp add: DB_Do_def io_simps open1 deferring_def run close1)
qed

lemma DB_Do1_ready:
  assumes "dbReady s" and "f \<lparr>txDB = committed s, sqlFault = stmtFault s\<rparr> = (t, r)"
  shows "DB_Do1 f s = (dbAfter s (if isl r \<or> dbFault s DbCommit \<noteq> None then committed s else txDB t), r)"
proof -
  have "runTxs [f] \<lparr>txDB = committed s, sqlFault = stmtFault s\<rparr> = (t, map_sum id (\<lambda>a. [a]) r)"
    using assms(2) by (cases r) (simp_all add: io_simps)
  from DB_Do_ready [OF assms(1) this] show ?thesis
    by (cases r) (auto simp: DB_Do1_def io_simps)
qed

text \<open>
  Transactions on the database exclude each other: while some process holds a lock on the
  database directory, no other \<^verbatim>\<open>Do\<close> gets to run its functions; it waits or fails and the
  contents stay as they are.
\<close>

theorem Do_serialized:
  assumes "lock_inv (kern s)" and "lookup (kern s) CasDir ''db'' = Some i"
    and "map_of (descs (kern s)) fd = Some (i, m)" and "m \<noteq> Unlocked"
    and "DB_Do fns s = (s', r)"
  shows "committed s' = committed s \<and> (\<exists>e. r = Inl e)"
proof -
  have no: "ExclusiveLock dbPath Dir (kern s) \<noteq> (k, Inr l)" for k l
    unfolding dbPath_def by (rule ExclusiveLock_refused [OF assms(1-4)])
  from assms(5) show ?thesis unfolding DB_Do_def
  proof (rule bindIO_cases)
    fix e assume "DB_Open s = (s', Inl e)" "r = Inl e"
    then show ?thesis using DB_Open_outcome by blast
  next
    fix u s1 assume "DB_Open s = (s1, Inr u)"
    then show ?thesis using DB_Open_outcome [of s s1 "Inr ()"] no by auto
  qed
qed

text \<open>A database as it is created, and a store around it.\<close>

fun execAll :: "sqlStmt list \<Rightarrow> unit tx" where
  "execAll [] = ret ()"
| "execAll (st # sts) = bindIO (txExec st) (\<lambda>_. execAll sts)"

definition freshDB :: database where
  "freshDB = [''version'' \<mapsto> \<lparr>columns = [(''version'', TInt)], rows = [[VInt 2]], uniques = []\<rparr>,
     ''remote'' \<mapsto> \<lparr>columns = remoteCols, rows = [], uniques = [''aciurl'']\<rparr>,
     ''aciinfo'' \<mapsto> \<lparr>columns = aciCols, rows = [], uniques = [''blobkey'']\<rparr>]"

lemma create_freshDB:
  assumes "calm s" and "txDB s = Map.empty"
  shows "execAll dbCreateStmts s = (s\<lparr>txDB := freshDB\<rparr>, Inr ())"
  using assms
  by (simp add: dbCreateStmts_def io_simps txExec_def dbVersion_def onTable_def knows_def remoteCols_def aciCols_def
      freshDB_def fun_upd_twist duplicate_def)

lemma fresh_holds: "holdsVersion freshDB 2" "holdsACI freshDB []" "holdsRemotes freshDB []"
  by (simp_all add: holdsVersion_def holdsACI_def holdsRemotes_def freshDB_def)

definition sampleDB :: dbWorld where
  "sampleDB = \<lparr>kern = init_kernel\<lparr>dirs := \<lambda>d. Some (if d = CasDir then [(''db'', 1)] else []), itype := \<lambda>_. DirT, next_ino := 2\<rparr>,
     db_lock = None, db_sqldb = False, committed = freshDB, dbFault = \<lambda>_. None, stmtFault = \<lambda>_. None\<rparr>"

lemma sample_ready: "dbReady sampleDB"
  by (auto simp: dbReady_def sampleDB_def init_kernel_def lookup_def lock_inv_def fds_ok_def excl_ok_def)

theorem Do_all_or_nothing_witness:
  "\<exists>s'. DB_Do [txExec (DeleteFrom ''version'' Always), fail (Msg ''stop'')] sampleDB = (s', Inl (Fail (Msg ''stop''))) \<and>
     committed s' = freshDB"
proof -
  let ?fns = "[txExec (DeleteFrom ''version'' Always), fail (Msg ''stop'')]"
  have "\<exists>t. runTxs ?fns \<lparr>txDB = committed sampleDB, sqlFault = stmtFault sampleDB\<rparr> = (t, Inl (Fail (Msg ''stop'')))"
    by (simp add: io_simps txExec_def sampleDB_def freshDB_def onTable_def knows_def)
  then obtain s' where "DB_Do ?fns sampleDB = (s', Inl (Fail (Msg ''stop'')))"
    using DB_Do_ready [OF sample_ready] by blast
  then show ?thesis using Do_all_or_nothing [of ?fns sampleDB s'] by (auto simp: sampleDB_def)
qed

theorem Do_serialized_witness:
  "\<exists>s' e. DB_Do [RemoveRemote ''k''] (sampleDB\<lparr>kern := (kern sampleDB)\<lparr>descs := [(3, 1, ExclusiveLk)], next_fd := 4\<rparr>\<rparr>) =
     (s', Inl e) \<and> committed s' = freshDB"
proof -
  let ?s = "sampleDB\<lparr>kern := (kern sampleDB)\<lparr>descs := [(3, 1, ExclusiveLk)], next_fd := 4\<rparr>\<rparr>"
  obtain s' r where run: "DB_Do [RemoveRemote ''k''] ?s = (s', r)" by fastforce
  have "committed s' = committed ?s \<and> (\<exists>e. r = Inl e)"
    by (rule Do_serialized [OF _ _ _ _ run, where i = 1 and fd = 3 and m = ExclusiveLk])
      (simp_all add: sampleDB_def init_kernel_def lookup_def lock_inv_def fds_ok_def excl_ok_def)
  then show ?thesis using run by (auto simp: sampleDB_def)
qed

text \<open>
  The outcome of \<^verbatim>\<open>Commit\<close> is not looked at: when it fails, \<^verbatim>\<open>Do\<close> still reports success, and
  nothing has been stored.
\<close>

theorem commit_failure_is_lost:
  assumes "dbReady s" and "runTxs fns \<lparr>txDB = committed s, sqlFault = stmtFault s\<rparr> = (t, Inr as)"
    and "dbFault s DbCommit = Some e"
  shows "\<exists>s'. DB_Do fns s = (s', Inr as) \<and> committed s' = committed s"
  using DB_Do_ready [OF assms(1,2)] assms(3) by simp

theorem commit_failure_is_lost_witness:
  "\<exists>s'. DB_Do [WriteACIInfo (NewACIInfo ''sha512-aa'' True 7)] (sampleDB\<lparr>dbFault := (\<lambda>_. None)(DbCommit := Some (Errno EIO))\<rparr>) =
     (s', Inr [()]) \<and> committed s' = freshDB"
proof -
  let ?s = "sampleDB\<lparr>dbFault := (\<lambda>_. None)(DbCommit := Some (Errno EIO))\<rparr>"
  let ?t = "\<lparr>txDB = freshDB, sqlFault = \<lambda>_. None\<rparr>"
  have ready: "dbReady ?s" using sample_ready by (simp add: dbReady_def)
  obtain t where "WriteACIInfo (NewACIInfo ''sha512-aa'' True 7) ?t = (t, Inr ())"
    using aci.put_ok [of ?t "[]"] fresh_holds by auto
  then have "runTxs [WriteACIInfo (NewACIInfo ''sha512-aa'' True 7)] \<lparr>txDB = committed ?s, sqlFault = stmtFault ?s\<rparr> = (t, Inr [()])"
    by (simp add: io_simps sampleDB_def)
  from commit_failure_is_lost [OF ready this] show ?thesis by (simp add: sampleDB_def)
qed

text \<open>
  When the driver refuses to open the database, \<^verbatim>\<open>Open\<close> closes the lock but keeps it in the
  handle: every later use of the handle panics.
\<close>

theorem open_failure_poisons_handle:
  assumes "dbReady s"
  shows "\<exists>s'. DB_Do fns (s\<lparr>dbFault := (dbFault s)(DbOpen := Some e)\<rparr>) = (s', Inl (Fail e)) \<and>
    DB_Do fns' (s'\<lparr>dbFault := dbFault s\<rparr>) = (s'\<lparr>dbFault := dbFault s\<rparr>, Inl (Panic ''cas db lock already gained''))"
proof -
  obtain i where i: "lookup (kern s) CasDir ''db'' = Some i" "itype (kern s) i = DirT"
      "\<not> (\<exists>fd m. map_of (descs (kern s)) fd = Some (i, m) \<and> m \<noteq> Unlocked)"
    and s: "db_lock s = None" "lock_inv (kern s)" "fault (kern s) = (\<lambda>_. None)"
    using assms by (auto simp: dbReady_def)
  have "\<exists>s'. DB_Open (s\<lparr>dbFault := (dbFault s)(DbOpen := Some e)\<rparr>) = (s', Inl (Fail e)) \<and> db_lock s' \<noteq> None"
    using s(1)
    by (simp add: DB_Open_def io_simps onKernel_def driver_def dbPath_def ExclusiveLock_free [OF s(2,3) i]
        FileLock_Close_fresh [OF s(2)])
  then show ?thesis by (auto simp: DB_Do_def io_simps) (auto simp: DB_Open_def io_simps)
qed

theorem open_failure_poisons_handle_witness:
  "\<exists>s'. DB_Do [RemoveRemote ''k''] (sampleDB\<lparr>dbFault := (\<lambda>_. None)(DbOpen := Some (Errno EIO))\<rparr>) = (s', Inl (Fail (Errno EIO))) \<and>
    DB_Do [RemoveRemote ''k''] (s'\<lparr>dbFault := \<lambda>_. None\<rparr>) =
      (s'\<lparr>dbFault := \<lambda>_. None\<rparr>, Inl (Panic ''cas db lock already gained''))"
  using open_failure_poisons_handle [OF sample_ready, of "[RemoveRemote ''k'']" "Errno EIO" "[RemoveRemote ''k'']"]
  by (simp add: sampleDB_def)



section \<open>Migration\<close>

text \<open>The table of remotes before version 2, and what becomes of its rows.\<close>

definition holdsOldRemotes :: "database \<Rightarrow> (string \<times> string \<times> string \<times> string) list \<Rightarrow> bool" where
  "holdsOldRemotes db os \<longleftrightarrow> distinct (map fst os) \<and>
     db ''remote'' = Some \<lparr>columns = take 4 remoteCols,
       rows = map (\<lambda>(a, s, e, k). [VString a, VString s, VString e, VString k]) os, uniques = [''aciurl'']\<rparr>"

definition upgraded :: "string \<times> string \<times> string \<times> string \<Rightarrow> Remote" where
  "upgraded = (\<lambda>(a, s, e, k). \<lparr>ACIURL = a, SigURL = s, ETag = e, r_BlobKey = k, CacheMaxAge = 0, DownloadTime = zeroTime\<rparr>)"

lemma updateDBVersion_ok:
  assumes "calm s" and "holdsVersion (txDB s) v"
  shows "updateDBVersion w s = (s\<lparr>txDB := (txDB s)(''version'' \<mapsto>
    \<lparr>columns = [(''version'', TInt)], rows = [[VInt w]], uniques = []\<rparr>)\<rparr>, Inr ())"
  using assms
  by (simp add: updateDBVersion_def io_simps txExec_def holdsVersion_def onTable_def knows_def duplicate_def)

lemma migrateToV2_ok:
  assumes "calm s" and "holdsOldRemotes (txDB s) os"
  shows "migrateToV2 s = (s\<lparr>txDB := (txDB s)(''remote'' \<mapsto>
    \<lparr>columns = migratedCols, rows = map (remoteRow \<circ> upgraded) os, uniques = [''aciurl'']\<rparr>)\<rparr>, Inr ())"
  using assms
  by (simp add: migrateToV2_def io_simps txExec_def holdsOldRemotes_def onTable_def knows_def remoteCols_def migratedCols_def
      setField_def upgraded_def remoteRow_def comp_def split_beta)

text \<open>
  C32. Migration takes a database of an older version to the current one and keeps its contents:
  the version is current, the images are the same, and every remote is there with no cache time, in
  a table that the current code reads and writes. The column that the migration adds for the
  download time is not named as in a database that is created at the current version.
\<close>

theorem migrate_keeps_contents:
  assumes "calm s" and "holdsVersion (txDB s) v" and "v \<in> {0, 1}" and "holdsACI (txDB s) is"
    and "holdsOldRemotes (txDB s) os"
  shows "\<exists>s'. migrate dbVersion s = (s', Inr ()) \<and> holdsVersion (txDB s') dbVersion \<and> holdsACI (txDB s') is \<and>
    holdsRemotes (txDB s') (map upgraded os) \<and>
    columns (the (txDB s' ''remote'')) = migratedCols \<and> migratedCols \<noteq> remoteCols"
proof -
  have version: "getDBVersion s = (s, Inr v)"
    using assms(1,2)
    by (simp add: getDBVersion_def Let_def io_simps txQuery_def rowsErr_def holdsVersion_def onTable_def knows_def)
  let ?s1 = "s\<lparr>txDB := (txDB s)(''version'' \<mapsto> \<lparr>columns = [(''version'', TInt)], rows = [[VInt 1]], uniques = []\<rparr>)\<rparr>"
  have one: "holdsVersion (txDB ?s1) 1" "holdsACI (txDB ?s1) is" "holdsOldRemotes (txDB ?s1) os" "calm ?s1"
    using assms by (simp_all add: holdsVersion_def holdsACI_def holdsOldRemotes_def)
  have step1: "migrateFrom 1 2 s = migrateFrom 2 2 ?s1"
    using updateDBVersion_ok [OF assms(1,2), of 1]
    by (subst migrateFrom.simps) (simp add: migrateTable_def migrateToV1_def io_simps)
  have step2: "\<exists>s'. migrateFrom 2 2 s0 = (s', Inr ()) \<and> holdsVersion (txDB s') 2 \<and> holdsACI (txDB s') is \<and>
      holdsRemotes (txDB s') (map upgraded os) \<and> columns (the (txDB s' ''remote'')) = migratedCols"
    if s0: "calm s0" "holdsVersion (txDB s0) 1" "holdsACI (txDB s0) is" "holdsOldRemotes (txDB s0) os" for s0
  proof -
    let ?s = "s0\<lparr>txDB := (txDB s0)(''remote'' \<mapsto>
      \<lparr>columns = migratedCols, rows = map (remoteRow \<circ> upgraded) os, uniques = [''aciurl'']\<rparr>)\<rparr>"
    have "calm ?s" "holdsVersion (txDB ?s) 1" using s0 by (simp_all add: holdsVersion_def)
    note up = updateDBVersion_ok [OF this, of 2]
    have "map ACIURL (map upgraded os) = map fst os" by (simp add: upgraded_def split_beta)
    then have "distinct (map ACIURL (map upgraded os))" using s0(4) by (simp only: holdsOldRemotes_def)
    moreover have "migrateFrom 3 2 s1 = (s1, Inr ())" for s1 by (subst migrateFrom.simps) (simp add: ret_def)
    ultimately show ?thesis
      using s0 up migrateToV2_ok [OF s0(1,4)]
      by (subst migrateFrom.simps)
        (simp add: migrateTable_def io_simps holdsVersion_def holdsACI_def holdsRemotes_def comp_def)
  qed
  have "\<exists>s'. migrateFrom (v + 1) 2 s = (s', Inr ()) \<and> holdsVersion (txDB s') 2 \<and> holdsACI (txDB s') is \<and>
      holdsRemotes (txDB s') (map upgraded os) \<and> columns (the (txDB s' ''remote'')) = migratedCols"
    using assms(3) step1 step2 [OF one(4,1,2,3)] step2 [OF assms(1) _ assms(4,5)] assms(2) by auto
  then show ?thesis using version by (auto simp: migrate_def dbVersion_def io_simps migratedCols_def remoteCols_def)
qed

theorem migrate_keeps_contents_witness:
  "\<exists>s'. migrate dbVersion \<lparr>txDB = [''version'' \<mapsto> \<lparr>columns = [(''version'', TInt)], rows = [[VInt 1]], uniques = []\<rparr>,
       ''aciinfo'' \<mapsto> \<lparr>columns = aciCols, rows = [], uniques = [''blobkey'']\<rparr>,
       ''remote'' \<mapsto> \<lparr>columns = take 4 remoteCols, rows = [[VString ''u'', VString ''s'', VString ''e'', VString ''k'']],
          uniques = [''aciurl'']\<rparr>], sqlFault = \<lambda>_. None\<rparr> = (s', Inr ()) \<and>
     holdsRemotes (txDB s') [\<lparr>ACIURL = ''u'', SigURL = ''s'', ETag = ''e'', r_BlobKey = ''k'', CacheMaxAge = 0, DownloadTime = zeroTime\<rparr>]"
  (is "\<exists>s'. migrate dbVersion ?s = _ \<and> _")
proof -
  have "holdsVersion (txDB ?s) 1" "holdsACI (txDB ?s) []" "holdsOldRemotes (txDB ?s) [(''u'', ''s'', ''e'', ''k'')]"
    by (simp_all add: holdsVersion_def holdsACI_def holdsOldRemotes_def)
  then show ?thesis using migrate_keeps_contents [of ?s 1] by (fastforce simp: upgraded_def)
qed

end
