(* ===== verification/Store_Backup.thy ===== *)
theory Store_Backup
  imports Kernel
begin

text \<open>
  The backups of the store's database, \<^verbatim>\<open>store/backup.go\<close>: numbered directories under one backups
  directory, the newest called 0. Copying a tree (\<^verbatim>\<open>pkg/fileutil\<close>) is modelled for a directory of
  regular files, which is what a database is.
\<close>

section \<open>Operations\<close>

text \<open>The files are copied one after the other; the first that cannot be read ends the copy.\<close>

fun copyFiles :: "ino \<Rightarrow> ino \<Rightarrow> (string \<times> string) list \<Rightarrow> ('d, unit) gofs" where
  "copyFiles i j [] = ret ()"
| "copyFiles i j ((f, c) # fs) =
     bindIO (\<lambda>k. case fault k (FOpenAt i f) of
         Some e \<Rightarrow> (k, Inl (Fail (PathError e)))
       | None \<Rightarrow> (k\<lparr>files := (files k)(j := files k j @ [(f, c)])\<rparr>, Inr ())) (\<lambda>_. copyFiles i j fs)"

definition copyTree :: "'d \<times> string \<Rightarrow> 'd \<times> string \<Rightarrow> ('d, unit) gofs" where
  "copyTree src dest k =
     (case lookup k (fst src) (snd src) of
        None \<Rightarrow> (k, Inl (Fail (PathError ENOENT)))
      | Some i \<Rightarrow>
          bindIO (mapErr PathError (sys_mkdir (fst dest) (snd dest))) (\<lambda>_.
          copyFiles i (next_ino k) (files k i)) k)"

fun pruneEntries :: "'d \<Rightarrow> int \<Rightarrow> (string \<times> ftype) list \<Rightarrow> ('d, unit) gofs" where
  "pruneEntries dir limit [] = ret ()"
| "pruneEntries dir limit ((name, t) # fis) =
     (case atoi name of
        None \<Rightarrow> pruneEntries dir limit fis
      | Some num \<Rightarrow>
          if num < limit then pruneEntries dir limit fis
          else bindIO (mapErr PathError (sys_removeall dir name)) (\<lambda>_. pruneEntries dir limit fis))"

definition pruneOldBackups :: "'d \<Rightarrow> int \<Rightarrow> ('d, unit) gofs" where
  "pruneOldBackups dir limit = bindIO (mapErr PathError (sys_readdir dir)) (pruneEntries dir limit)"

definition shiftOne :: "'d \<Rightarrow> nat \<Rightarrow> ('d, unit) gofs" where
  "shiftOne dir i =
     tryIO (mapErr LinkError (sys_rename dir (itoa i) dir (itoa (i + 1)))) (\<lambda>r.
     case r of Inl e \<Rightarrow> if osIsNotExist e then ret () else fail e | Inr _ \<Rightarrow> ret ())"

fun shiftFrom :: "'d \<Rightarrow> nat \<Rightarrow> ('d, unit) gofs" where
  "shiftFrom dir 0 = shiftOne dir 0"
| "shiftFrom dir (Suc i) = bindIO (shiftOne dir (Suc i)) (\<lambda>_. shiftFrom dir i)"

definition shiftBackups :: "'d \<Rightarrow> int \<Rightarrow> ('d, unit) gofs" where
  "shiftBackups dir oldest = (if oldest < 0 then ret () else shiftFrom dir (nat oldest))"

definition createBackup :: "'d \<times> string \<Rightarrow> 'd \<Rightarrow> int \<Rightarrow> ('d, unit) gofs" where
  "createBackup dbDir backupsDir limit =
     bindIO (mapErr PathError (sys_mkdirall backupsDir)) (\<lambda>_.
     bindIO (copyTree dbDir (backupsDir, ''tmp'')) (\<lambda>_.
     deferring (mapErr PathError (sys_removeall backupsDir ''tmp''))
      (bindIO (pruneOldBackups backupsDir (limit - 1)) (\<lambda>_.
       bindIO (shiftBackups backupsDir (limit - 2)) (\<lambda>_.
       mapErr LinkError (sys_rename backupsDir ''tmp'' backupsDir ''0''))))))"

section \<open>What the steps do\<close>

definition dropped :: "int \<Rightarrow> string \<Rightarrow> bool" where
  "dropped limit n \<longleftrightarrow> (\<exists>num. atoi n = Some num \<and> limit \<le> num)"

lemma atoi_tmp: "atoi ''tmp'' = None"
  by (simp add: atoi_def isDecimal_def isDigit_def Let_def)

text \<open>Lookups after pruning: the entries that are listed and numbered from the limit on are gone.\<close>

lemma pruneEntries_quiet:
  assumes "fault k = (\<lambda>_. None)" and "dirs k dir \<noteq> None"
  shows "\<exists>k'. pruneEntries dir limit fis k = (k', Inr ()) \<and> fault k' = fault k \<and> dirs k' dir \<noteq> None \<and> files k' = files k \<and>
    itype k' = itype k \<and>
    (\<forall>d n. lookup k' d n = (if d = dir \<and> n \<in> fst ` set fis \<and> dropped limit n then None else lookup k d n))"
  using assms
proof (induction fis arbitrary: k)
  case Nil
  then show ?case by (simp add: ret_def)
next
  case (Cons fi fis)
  obtain name t where fi: "fi = (name, t)" by (cases fi)
  show ?case
  proof (cases "dropped limit name")
    case True
    then obtain num where num: "atoi name = Some num" "\<not> num < limit" by (auto simp: dropped_def)
    let ?k = "remove_entry dir name k"
    have "fault ?k = (\<lambda>_. None)" "dirs ?k dir \<noteq> None" using Cons.prems by simp_all
    with Cons.IH [of ?k] obtain k' where "pruneEntries dir limit fis ?k = (k', Inr ())" "fault k' = fault ?k"
      "dirs k' dir \<noteq> None" "files k' = files ?k" "itype k' = itype ?k"
      "\<forall>d n. lookup k' d n = (if d = dir \<and> n \<in> fst ` set fis \<and> dropped limit n then None else lookup ?k d n)"
      by auto
    then show ?thesis
      using num True Cons.prems(1)
      by (intro exI [of _ k']) (auto simp: fi io_simps mapErr_def sys_removeall_def with_fault_def)
  next
    case False
    then have "pruneEntries dir limit (fi # fis) k = pruneEntries dir limit fis k"
      by (auto simp: fi dropped_def split: option.split)
    with Cons.IH [OF Cons.prems] False show ?thesis by (auto simp: fi)
  qed
qed

lemma shiftOne_quiet:
  assumes "fault k = (\<lambda>_. None)" and "dirs k dir \<noteq> None" and "lookup k dir (itoa (Suc i)) = None"
  shows "\<exists>k'. shiftOne dir i k = (k', Inr ()) \<and> fault k' = fault k \<and> dirs k' dir \<noteq> None \<and> files k' = files k \<and>
    (\<forall>d n. lookup k' d n = (if d = dir \<and> n = itoa (Suc i) then lookup k dir (itoa i)
       else if d = dir \<and> n = itoa i then None else lookup k d n))"
proof (cases "lookup k dir (itoa i)")
  case None
  then show ?thesis
    using assms by (auto simp: shiftOne_def io_simps mapErr_def sys_rename_def with_fault_def)
next
  case (Some e)
  have "itoa i \<noteq> itoa (Suc i)" using itoa_inj by fastforce
  then show ?thesis
    using Some assms
    by (auto simp: shiftOne_def io_simps mapErr_def sys_rename_def with_fault_def lookup_moved simp del: not_None_eq)
qed

lemma shiftFrom_quiet:
  assumes "fault k = (\<lambda>_. None)" and "dirs k dir \<noteq> None" and "lookup k dir (itoa (Suc i)) = None"
  shows "\<exists>k'. shiftFrom dir i k = (k', Inr ()) \<and> fault k' = fault k \<and> dirs k' dir \<noteq> None \<and> files k' = files k \<and>
    lookup k' dir (itoa 0) = None \<and> (\<forall>j \<le> i. lookup k' dir (itoa (Suc j)) = lookup k dir (itoa j)) \<and>
    (\<forall>d n. d \<noteq> dir \<or> (\<forall>j \<le> Suc i. n \<noteq> itoa j) \<longrightarrow> lookup k' d n = lookup k d n)"
  using assms
proof (induction i arbitrary: k)
  case 0
  have "itoa 0 \<noteq> itoa (Suc 0)" using itoa_inj by fastforce
  with shiftOne_quiet [OF 0] show ?case by (auto simp: le_Suc_eq)
next
  case (Suc i)
  obtain k1 where k1: "shiftOne dir (Suc i) k = (k1, Inr ())" "fault k1 = fault k" "dirs k1 dir \<noteq> None" "files k1 = files k"
    "\<And>d n. lookup k1 d n = (if d = dir \<and> n = itoa (Suc (Suc i)) then lookup k dir (itoa (Suc i))
       else if d = dir \<and> n = itoa (Suc i) then None else lookup k d n)"
    using shiftOne_quiet [OF Suc.prems] by blast
  have neq: "m \<noteq> n \<Longrightarrow> itoa m \<noteq> itoa n" for m n using itoa_inj by blast
  have "lookup k1 dir (itoa (Suc i)) = None" by (simp add: k1(5) neq)
  with Suc.IH [of k1] k1 Suc.prems(1) obtain k' where
    k': "shiftFrom dir i k1 = (k', Inr ())" "fault k' = fault k1" "dirs k' dir \<noteq> None" "files k' = files k1"
    "lookup k' dir (itoa 0) = None" "\<forall>j \<le> i. lookup k' dir (itoa (Suc j)) = lookup k1 dir (itoa j)"
    "\<forall>d n. d \<noteq> dir \<or> (\<forall>j \<le> Suc i. n \<noteq> itoa j) \<longrightarrow> lookup k' d n = lookup k1 d n"
    by auto
  have "lookup k' dir (itoa (Suc j)) = lookup k dir (itoa j)" if "j \<le> Suc i" for j
  proof (cases "j = Suc i")
    case True
    have "lookup k' dir (itoa (Suc (Suc i))) = lookup k1 dir (itoa (Suc (Suc i)))"
      using k'(7) neq by (metis le_Suc_eq not_less_eq_eq)
    then show ?thesis by (simp add: True k1(5))
  next
    case False
    then show ?thesis using that k'(6) by (simp add: k1(5) neq)
  qed
  moreover have "lookup k' d n = lookup k d n" if "d \<noteq> dir \<or> (\<forall>j \<le> Suc (Suc i). n \<noteq> itoa j)" for d n
    using that k'(7) by (auto simp: k1(5) dest: spec [of _ "Suc i"])
  ultimately show ?case using k1 k' by (auto simp: io_simps)
qed

lemma copyFiles_quiet:
  assumes "fault k = (\<lambda>_. None)"
  shows "copyFiles i j fs k = (k\<lparr>files := (files k)(j := files k j @ fs)\<rparr>, Inr ())"
  using assms by (induction fs arbitrary: k) (auto simp: io_simps)

lemma copyTree_quiet:
  assumes "fault k = (\<lambda>_. None)" and "lookup k d n = Some i" and "dirs k d' \<noteq> None" and "lookup k d' n' = None"
  shows "copyTree (d, n) (d', n') k =
    ((new_inode d' n' DirT k)\<lparr>files := (files k)(next_ino k := files k i)\<rparr>, Inr ())"
  using assms
  by (simp add: copyTree_def io_simps mapErr_def sys_mkdir_def with_fault_def copyFiles_quiet) (simp add: new_inode_def)

section \<open>Properties\<close>

definition backupOf :: "'d kernel \<Rightarrow> 'd \<Rightarrow> nat \<Rightarrow> (string \<times> string) list option" where
  "backupOf k dir j = map_option (files k) (lookup k dir (itoa j))"

lemma dropped_itoa: "j < 2 ^ 63 \<Longrightarrow> dropped limit (itoa j) \<longleftrightarrow> limit \<le> int j"
  by (simp add: dropped_def atoi_itoa)

lemma itoa_tmp: "itoa j \<noteq> ''tmp''"
  using itoa_digits [of j] by (auto simp: isDigit_def)

lemma itoa_zero: "itoa 0 = ''0''"
  by code_simp

lemma pruneOldBackups_quiet:
  assumes "fault k = (\<lambda>_. None)" and "dirs k dir \<noteq> None"
  shows "\<exists>k'. pruneOldBackups dir limit k = (k', Inr ()) \<and> fault k' = fault k \<and> dirs k' dir \<noteq> None \<and> files k' = files k \<and>
    (\<forall>d n. lookup k' d n = (if d = dir \<and> dropped limit n then None else lookup k d n))"
proof -
  obtain es where es: "dirs k dir = Some es" using assms(2) by blast
  let ?fis = "map (\<lambda>(n, i). (n, itype k i)) (sort_key fst es)"
  have names: "fst ` set ?fis = fst ` set es" by (force simp: image_image split_beta)
  obtain k' where "pruneEntries dir limit ?fis k = (k', Inr ())" "fault k' = fault k" "dirs k' dir \<noteq> None" "files k' = files k"
    "\<forall>d n. lookup k' d n = (if d = dir \<and> n \<in> fst ` set es \<and> dropped limit n then None else lookup k d n)"
    using pruneEntries_quiet [OF assms, of limit ?fis] names by metis
  moreover have "lookup k dir n = None" if "n \<notin> fst ` set es" for n
    using that es by (simp add: lookup_def map_of_eq_None_iff)
  ultimately show ?thesis
    using assms(1) es
    by (intro exI [of _ k']) (auto simp: pruneOldBackups_def io_simps mapErr_def sys_readdir_def with_fault_def)
qed

lemma shiftBackups_quiet:
  assumes "fault k = (\<lambda>_. None)" and "dirs k dir \<noteq> None" and "-1 \<le> oldest" and "lookup k dir (itoa (nat (oldest + 1))) = None"
  shows "\<exists>k'. shiftBackups dir oldest k = (k', Inr ()) \<and> fault k' = fault k \<and> dirs k' dir \<noteq> None \<and> files k' = files k \<and>
    lookup k' dir (itoa 0) = None \<and> (\<forall>j. int j \<le> oldest \<longrightarrow> lookup k' dir (itoa (Suc j)) = lookup k dir (itoa j)) \<and>
    (\<forall>d n. d \<noteq> dir \<or> (\<forall>j. int j \<le> oldest + 1 \<longrightarrow> n \<noteq> itoa j) \<longrightarrow> lookup k' d n = lookup k d n)"
proof (cases "oldest < 0")
  case True
  then show ?thesis using assms by (auto simp: shiftBackups_def io_simps)
next
  case False
  then have "nat (oldest + 1) = Suc (nat oldest)" by simp
  with shiftFrom_quiet [OF assms(1,2), of "nat oldest"] assms(4) obtain k' where
    "shiftFrom dir (nat oldest) k = (k', Inr ())" "fault k' = fault k" "dirs k' dir \<noteq> None" "files k' = files k"
    "lookup k' dir (itoa 0) = None" "\<forall>j \<le> nat oldest. lookup k' dir (itoa (Suc j)) = lookup k dir (itoa j)"
    "\<forall>d n. d \<noteq> dir \<or> (\<forall>j \<le> Suc (nat oldest). n \<noteq> itoa j) \<longrightarrow> lookup k' d n = lookup k d n"
    by auto
  moreover have "j \<le> nat oldest \<longleftrightarrow> int j \<le> oldest" "j \<le> Suc (nat oldest) \<longleftrightarrow> int j \<le> oldest + 1" for j
    using False by linarith+
  ultimately show ?thesis using False by (auto simp: shiftBackups_def)
qed

text \<open>Once the copy is there: prune, shift and put the copy in place.\<close>

lemma rotate_quiet:
  assumes "fault k = (\<lambda>_. None)" and "dirs k b \<noteq> None" and "lookup k b ''tmp'' = Some t" and "1 \<le> limit" and "limit \<le> 2 ^ 63"
  shows "\<exists>k'. bindIO (pruneOldBackups b (limit - 1)) (\<lambda>_. bindIO (shiftBackups b (limit - 2)) (\<lambda>_.
      mapErr LinkError (sys_rename b ''tmp'' b ''0''))) k = (k', Inr ()) \<and>
    fault k' = (\<lambda>_. None) \<and> files k' = files k \<and> lookup k' b (itoa 0) = Some t \<and>
    (\<forall>j. int j < limit - 1 \<longrightarrow> lookup k' b (itoa (Suc j)) = lookup k b (itoa j)) \<and>
    (\<forall>j. limit \<le> int j \<and> j < 2 ^ 63 \<longrightarrow> lookup k' b (itoa j) = None) \<and>
    (\<forall>m. atoi m = None \<and> m \<noteq> ''tmp'' \<longrightarrow> lookup k' b m = lookup k b m) \<and>
    (\<forall>c m. c \<noteq> b \<longrightarrow> lookup k' c m = lookup k c m)"
proof -
  obtain k3 where prune: "pruneOldBackups b (limit - 1) k = (k3, Inr ())" and k3: "fault k3 = (\<lambda>_. None)"
    "dirs k3 b \<noteq> None" "files k3 = files k"
    "\<And>c m. lookup k3 c m = (if c = b \<and> dropped (limit - 1) m then None else lookup k c m)"
    using pruneOldBackups_quiet [OF assms(1,2), of "limit - 1"] assms(1) by auto
  have top: "dropped (limit - 1) (itoa (nat (limit - 2 + 1)))"
    using assms(4,5) dropped_itoa [of "nat (limit - 1)" "limit - 1"] by (simp add: nat_less_iff)
  obtain k4 where shift: "shiftBackups b (limit - 2) k3 = (k4, Inr ())" and k4: "fault k4 = (\<lambda>_. None)"
    "dirs k4 b \<noteq> None" "files k4 = files k" "lookup k4 b (itoa 0) = None"
    "\<And>j. int j \<le> limit - 2 \<Longrightarrow> lookup k4 b (itoa (Suc j)) = lookup k3 b (itoa j)"
    "\<And>c m. c \<noteq> b \<or> (\<forall>j. int j \<le> limit - 1 \<longrightarrow> m \<noteq> itoa j) \<Longrightarrow> lookup k4 c m = lookup k3 c m"
    using shiftBackups_quiet [OF k3(1,2), of "limit - 2"] top k3 assms(4) by auto
  have tmp: "lookup k4 b ''tmp'' = Some t"
    using k4(6) [of b "''tmp''"] not_sym [OF itoa_tmp] assms(3) by (simp add: k3(4) dropped_def atoi_tmp)
  define k5 where "k5 = moved b ''tmp'' b ''0'' t k4"
  have look: "lookup k5 c m = (if c = b \<and> m = itoa 0 then Some t else if c = b \<and> m = ''tmp'' then None else lookup k4 c m)" for c m
    using k4(2) by (auto simp: k5_def lookup_moved itoa_zero)
  have "lookup k5 b (itoa (Suc j)) = lookup k b (itoa j)" if "int j < limit - 1" for j
  proof -
    have "j < 2 ^ 63" using that assms(5) by simp
    then show ?thesis
      using that k4(5) [of j] itoa_inj [of "Suc j" 0] by (auto simp: look itoa_tmp k3(4) dropped_itoa)
  qed
  moreover have "lookup k5 b (itoa j) = None" if "limit \<le> int j" "j < 2 ^ 63" for j
  proof -
    have "lookup k4 b (itoa j) = lookup k3 b (itoa j)" using that itoa_inj by (intro k4(6)) fastforce
    moreover have "itoa j \<noteq> itoa 0" using that assms(4) itoa_inj [of j 0] by fastforce
    ultimately show ?thesis using that by (simp add: look itoa_tmp k3(4) dropped_itoa)
  qed
  moreover have "lookup k5 b m = lookup k b m" if "atoi m = None" "m \<noteq> ''tmp''" for m
  proof -
    have "m \<noteq> itoa j" if "int j \<le> limit - 1" for j using that assms(5) \<open>atoi m = None\<close> atoi_itoa [of j] by fastforce
    then have "lookup k4 b m = lookup k3 b m" "m \<noteq> itoa 0" using k4(6) assms(4) by force+
    then show ?thesis using that by (auto simp: look k3(4) dropped_def)
  qed
  moreover have "mapErr LinkError (sys_rename b ''tmp'' b ''0'') k4 = (k5, Inr ())"
    using k4(1,2,4) tmp by (simp add: k5_def mapErr_def sys_rename_def with_fault_def itoa_zero)
  moreover have "fault k5 = (\<lambda>_. None)" "files k5 = files k" by (simp_all add: k5_def k4(1,3))
  ultimately show ?thesis
    using prune shift k4(6) k3(4) by (intro exI [of _ k5]) (simp add: io_simps look)
qed

text \<open>
  C31. Creating a backup rotates the backups: the newest is a copy of the database, every older one
  moves up by one, and the one that exceeds the limit is gone; the database itself, and everything in
  the backups directory that is not a backup, is untouched.
\<close>

theorem createBackup_rotates:
  assumes "fault k = (\<lambda>_. None)" and "lookup k d n = Some i" and "d \<noteq> bdir" and "i < next_ino k"
    and "\<forall>m j. lookup k bdir m = Some j \<longrightarrow> j < next_ino k"
    and "lookup k bdir ''tmp'' = None" and "1 \<le> limit" and "limit \<le> 2 ^ 63"
  shows "\<exists>k'. createBackup (d, n) bdir limit k = (k', Inr ()) \<and>
    backupOf k' bdir 0 = Some (files k i) \<and>
    (\<forall>j. int j < limit - 1 \<longrightarrow> backupOf k' bdir (Suc j) = backupOf k bdir j) \<and>
    (\<forall>j. limit \<le> int j \<and> j < 2 ^ 63 \<longrightarrow> backupOf k' bdir j = None) \<and>
    lookup k' bdir ''tmp'' = None \<and> lookup k' d n = Some i \<and> files k' i = files k i \<and>
    (\<forall>m. atoi m = None \<longrightarrow> lookup k' bdir m = lookup k bdir m)"
proof -
  let ?k1 = "if dirs k bdir = None then set_dir bdir [] k else k"
  have k1: "fault ?k1 = (\<lambda>_. None)" "dirs ?k1 bdir \<noteq> None" "lookup ?k1 = lookup k" "files ?k1 = files k" "next_ino ?k1 = next_ino k"
    using assms(1) by (auto simp: fun_eq_iff lookup_def set_dir_def)
  define k2 where "k2 = (new_inode bdir ''tmp'' DirT ?k1)\<lparr>files := (files k)(next_ino k := files k i)\<rparr>"
  have copy: "copyTree (d, n) (bdir, ''tmp'') ?k1 = (k2, Inr ())"
    using copyTree_quiet [OF k1(1), of d n i bdir "''tmp''"] k1 assms(2,6) by (simp add: k2_def del: not_None_eq)
  have k2: "fault k2 = (\<lambda>_. None)" "dirs k2 bdir \<noteq> None" "files k2 = (files k)(next_ino k := files k i)"
    "lookup k2 c m = (if c = bdir \<and> m = ''tmp'' then Some (next_ino k) else lookup k c m)" for c m
    using k1 by (auto simp: k2_def lookup_new_inode [unfolded lookup_def] lookup_def fun_eq_iff)
  from rotate_quiet [OF k2(1,2) _ assms(7,8), of "next_ino k"] obtain k5 where
    rot: "bindIO (pruneOldBackups bdir (limit - 1)) (\<lambda>_. bindIO (shiftBackups bdir (limit - 2)) (\<lambda>_.
      mapErr LinkError (sys_rename bdir ''tmp'' bdir ''0''))) k2 = (k5, Inr ())"
    and k5: "fault k5 = (\<lambda>_. None)" "files k5 = files k2" "lookup k5 bdir (itoa 0) = Some (next_ino k)"
    "\<forall>j. int j < limit - 1 \<longrightarrow> lookup k5 bdir (itoa (Suc j)) = lookup k2 bdir (itoa j)"
    "\<forall>j. limit \<le> int j \<and> j < 2 ^ 63 \<longrightarrow> lookup k5 bdir (itoa j) = None"
    "\<forall>m. atoi m = None \<and> m \<noteq> ''tmp'' \<longrightarrow> lookup k5 bdir m = lookup k2 bdir m"
    "\<forall>c m. c \<noteq> bdir \<longrightarrow> lookup k5 c m = lookup k2 c m"
    by (auto simp: k2(4) simp del: not_None_eq)
  let ?k6 = "remove_entry bdir ''tmp'' k5"
  have run: "createBackup (d, n) bdir limit k = (?k6, Inr ())"
    using assms(1) copy rot k5(1)
    by (simp add: createBackup_def io_simps mapErr_def sys_mkdirall_def with_fault_def deferring_def sys_removeall_def)
  have old: "lookup k bdir m = Some j \<Longrightarrow> files k5 j = files k j" for m j using assms(5) by (auto simp: k5(2) k2(3))
  have "backupOf ?k6 bdir (Suc j) = backupOf k bdir j" if "int j < limit - 1" for j
    using that k5(4) old by (cases "lookup k bdir (itoa j)") (auto simp: backupOf_def itoa_tmp k2(4))
  then show ?thesis
    using run k5 assms(2-4,6) k2 by (intro exI [of _ ?k6]) (auto simp: backupOf_def itoa_tmp)
qed

text \<open>
  A backup whose copy is cut off leaves its temporary directory behind, since the deferred
  removal is set up only afterwards; from then on every backup fails, and with it every migration
  of the database.
\<close>

theorem stale_tmp_blocks_backups:
  assumes "lookup k d n \<noteq> None" and "lookup k bdir ''tmp'' \<noteq> None"
  shows "\<exists>k' e. createBackup (d, n) bdir limit k = (k', Inl (Fail e)) \<and> lookup k' bdir ''tmp'' \<noteq> None \<and> lookup k' d n \<noteq> None"
proof -
  have "dirs k bdir \<noteq> None" using assms(2) by (auto simp: lookup_def split: option.splits)
  then show ?thesis
    using assms
    by (auto simp: createBackup_def io_simps mapErr_def sys_mkdirall_def copyTree_def sys_mkdir_def with_fault_def split: option.splits)
qed

theorem stale_tmp_blocks_backups_witness:
  "\<exists>k1 k2 e e'. let k0 = (init_kernel :: bool kernel)\<lparr>dirs := \<lambda>d. Some (if d then [(''db'', 1)] else []), itype := \<lambda>_. DirT,
        files := \<lambda>_. [(''ql.db'', ''x'')], next_ino := 2\<rparr>
     in createBackup (True, ''db'') False 5 (k0\<lparr>fault := (\<lambda>_. None)(FOpenAt 1 ''ql.db'' := Some EIO)\<rparr>) = (k1, Inl (Fail e)) \<and>
        createBackup (True, ''db'') False 5 (k1\<lparr>fault := \<lambda>_. None\<rparr>) = (k2, Inl (Fail e'))"
proof -
  let ?k0 = "(init_kernel :: bool kernel)\<lparr>dirs := \<lambda>d. Some (if d then [(''db'', 1)] else []), itype := \<lambda>_. DirT,
        files := \<lambda>_. [(''ql.db'', ''x'')], next_ino := 2\<rparr>"
  obtain k1 e where first: "createBackup (True, ''db'') False 5 (?k0\<lparr>fault := (\<lambda>_. None)(FOpenAt 1 ''ql.db'' := Some EIO)\<rparr>) = (k1, Inl (Fail e))"
    and left: "lookup k1 True ''db'' \<noteq> None" "lookup k1 False ''tmp'' \<noteq> None"
    by (simp add: createBackup_def io_simps mapErr_def sys_mkdirall_def copyTree_def sys_mkdir_def with_fault_def lookup_def
        init_kernel_def new_inode_def add_entry_def set_dir_def del_entry_def)
  have "lookup (k1\<lparr>fault := \<lambda>_. None\<rparr>) = lookup k1" by (simp add: lookup_def fun_eq_iff)
  with stale_tmp_blocks_backups [of "k1\<lparr>fault := \<lambda>_. None\<rparr>" True "''db''" False 5] left
  obtain k2 e' where "createBackup (True, ''db'') False 5 (k1\<lparr>fault := \<lambda>_. None\<rparr>) = (k2, Inl (Fail e'))" by auto
  with first show ?thesis unfolding Let_def by blast
qed

definition sampleBackup :: "bool kernel" where
  "sampleBackup = init_kernel\<lparr>dirs := \<lambda>d. Some (if d then [(''db'', 1)] else [(''0'', 2)]), itype := \<lambda>_. DirT,
     files := (\<lambda>_. [])(1 := [(''ql.db'', ''new'')], 2 := [(''ql.db'', ''old'')]), next_ino := 3\<rparr>"

lemma sampleBackup_facts:
  "fault sampleBackup = (\<lambda>_. None)" "next_ino sampleBackup = 3"
  "files sampleBackup 1 = [(''ql.db'', ''new'')]" "files sampleBackup 2 = [(''ql.db'', ''old'')]"
  "lookup sampleBackup d m = (if d \<and> m = ''db'' then Some 1 else if \<not> d \<and> m = ''0'' then Some 2 else None)"
  by (simp_all add: sampleBackup_def lookup_def init_kernel_def)

theorem createBackup_rotates_witness:
  "\<exists>k'. createBackup (True, ''db'') False 5 sampleBackup = (k', Inr ()) \<and>
     backupOf k' False 0 = Some [(''ql.db'', ''new'')] \<and> backupOf k' False 1 = Some [(''ql.db'', ''old'')]"
proof -
  have "\<exists>k'. createBackup (True, ''db'') False 5 sampleBackup = (k', Inr ()) \<and> backupOf k' False 0 = Some (files sampleBackup 1) \<and>
      backupOf k' False (Suc 0) = backupOf sampleBackup False 0"
  proof -
    have "\<forall>m j. lookup sampleBackup False m = Some j \<longrightarrow> j < next_ino sampleBackup"
      by (simp add: sampleBackup_facts)
    from createBackup_rotates [of sampleBackup True "''db''" 1 False 5, OF _ _ _ _ this]
    show ?thesis by (simp add: sampleBackup_facts(1,2,5)) (metis zero_less_numeral)
  qed
  moreover have "backupOf sampleBackup False 0 = Some [(''ql.db'', ''old'')]"
    by (simp add: backupOf_def sampleBackup_facts itoa_zero)
  ultimately show ?thesis by (simp add: sampleBackup_facts(3) [simplified])
qed

end
