(* ===== verification/Tree_Store.thy ===== *)
theory Tree_Store
  imports Kernel Appc_Types
begin

text \<open>
  The store of rendered images, \<^verbatim>\<open>store/tree.go\<close>. A rendered image is a directory named by its key;
  it is modelled as the list of its files in the order of \<^verbatim>\<open>filepath.Walk\<close>. The renderer, the JSON
  encoder and SHA-512 are parameters. Every call first consults \<open>treeFault\<close>, an arbitrary table of
  injected failures; a failing removal or rendering leaves some of the files behind.
\<close>

section \<open>Files and archive headers\<close>

datatype nodeType = NReg | NDir | NSymlink | NSocket | NPipe | NChar | NBlock

record node =
  nodeType :: nodeType
  perm :: nat
  owner :: int
  grp :: int
  content :: string
  target :: string
  inode :: nat
  rdev :: "int \<times> int"

record tarHeader =
  h_Name :: string
  h_Mode :: nat
  h_Uid :: int
  h_Gid :: int
  h_Size :: nat
  h_Typeflag :: char
  h_Linkname :: string
  h_Devmajor :: int
  h_Devminor :: int
  h_Xattrs :: "(string \<times> string) list"

text \<open>\<^verbatim>\<open>tar.FileInfoHeader\<close>: the type is in the flag and, as in \<^verbatim>\<open>st_mode\<close>, in the mode.\<close>

fun typeBits :: "nodeType \<Rightarrow> nat \<times> char" where
  "typeBits NReg = (32768, CHR ''0'')"
| "typeBits NDir = (16384, CHR ''5'')"
| "typeBits NSymlink = (40960, CHR ''2'')"
| "typeBits NSocket = (49152, CHR 0x00)"
| "typeBits NPipe = (4096, CHR ''6'')"
| "typeBits NChar = (8192, CHR ''3'')"
| "typeBits NBlock = (24576, CHR ''4'')"

definition FileInfoHeader :: "node \<Rightarrow> string \<Rightarrow> tarHeader" where
  "FileInfoHeader n link =
     \<lparr>h_Name = '''', h_Mode = fst (typeBits (nodeType n)) + perm n, h_Uid = 0, h_Gid = 0,
      h_Size = (if nodeType n = NReg then length (content n) else 0), h_Typeflag = snd (typeBits (nodeType n)),
      h_Linkname = (if nodeType n = NSymlink then link else ''''), h_Devmajor = 0, h_Devminor = 0, h_Xattrs = []\<rparr>"

text \<open>\<^verbatim>\<open>tarheader.Populate\<close>: owners and devices; an inode that was seen before becomes a hard link.\<close>

definition Populate :: "tarHeader \<Rightarrow> node \<Rightarrow> (nat \<Rightarrow> string option) \<Rightarrow> tarHeader \<times> (nat \<Rightarrow> string option)" where
  "Populate h n seen =
     (let h1 = h\<lparr>h_Uid := owner n, h_Gid := grp n\<rparr>;
          h2 = (if nodeType n \<in> {NBlock, NChar} then h1\<lparr>h_Devmajor := fst (rdev n), h_Devminor := snd (rdev n)\<rparr> else h1)
      in case seen (inode n) of
           Some p \<Rightarrow> (h2\<lparr>h_Linkname := p, h_Typeflag := CHR ''1''\<rparr>, seen)
         | None \<Rightarrow> (h2, seen(inode n \<mapsto> h_Name h2)))"

record fileInfo =
  fi_header :: tarHeader
  fi_Xattrs :: "(string \<times> string) list"

text \<open>
  The attributes are listed by name; the slice of names is made with its final length and then
  appended to, so it starts with as many empty names.
\<close>

definition FileInfoFromHeader :: "tarHeader \<Rightarrow> fileInfo" where
  "FileInfoFromHeader hdr =
     (let names = sort (replicate (length (h_Xattrs hdr)) '''' @ map fst (h_Xattrs hdr))
      in \<lparr>fi_header = hdr\<lparr>h_Xattrs := []\<rparr>,
          fi_Xattrs = map (\<lambda>k. (k, case map_of (h_Xattrs hdr) k of Some v \<Rightarrow> v | None \<Rightarrow> '''')) names\<rparr>)"

section \<open>The hash of a tree\<close>

definition hashfilename :: string where "hashfilename = ''hash''"
definition renderedfilename :: string where "renderedfilename = ''rendered''"
definition ManifestFile :: string where "ManifestFile = ''manifest''"

definition ignored :: "string \<Rightarrow> bool" where
  "ignored relpath \<longleftrightarrow> relpath = ManifestFile \<or> relpath = hashfilename \<or> relpath = renderedfilename"

text \<open>What \<^verbatim>\<open>imageHashWriter.AddFile\<close> writes: the encoded information, then the contents if there is a reader.\<close>

definition AddFile :: "(fileInfo \<Rightarrow> string) \<Rightarrow> tarHeader \<Rightarrow> string option \<Rightarrow> string" where
  "AddFile enc hdr r = enc (FileInfoFromHeader hdr) @ (case r of None \<Rightarrow> '''' | Some d \<Rightarrow> d)"

text \<open>The walk writes to the hash; it carries the inodes that were seen.\<close>

fun buildWalker :: "(fileInfo \<Rightarrow> string) \<Rightarrow> (nat \<Rightarrow> string option) \<Rightarrow> (string \<times> node) list \<Rightarrow> string" where
  "buildWalker enc inos [] = ''''"
| "buildWalker enc inos ((relpath, n) # fs) =
     (if ignored relpath \<or> nodeType n = NSocket then buildWalker enc inos fs
      else
        let link = (if nodeType n = NSymlink then target n else '''');
            r = (if nodeType n = NReg then Some (content n) else None);
            (hdr, inos') = Populate ((FileInfoHeader n link)\<lparr>h_Name := relpath\<rparr>) n inos
        in (if h_Typeflag hdr = CHR ''1'' then AddFile enc (hdr\<lparr>h_Size := 0\<rparr>) None else AddFile enc hdr r) @
           buildWalker enc inos' fs)"

record treeCodec =
  encode :: "fileInfo \<Rightarrow> string"
  sum512 :: "string \<Rightarrow> 8 word list"

definition hashPrefix :: string where "hashPrefix = ''sha512-''"
definition lenHash :: nat where "lenHash = 64"
definition lenKey :: nat where "lenKey = length hashPrefix + (lenHash div 2) * 2"

text \<open>\<^verbatim>\<open>keyToString\<close>; the panic on a sum of the wrong length is the value \<open>None\<close>.\<close>

definition keyToString :: "8 word list \<Rightarrow> string option" where
  "keyToString k = (if length k \<noteq> lenHash then None else Some (take lenKey (hashPrefix @ hexEncode k)))"

section \<open>Operations\<close>

datatype treeOp =
    TStat | TStatRendered | TMkdir | TWalk | TWriteHash | TReadHash | TOpen | TSyncfs | TCreateRendered | TFsync
  | TRemoveRendered | TSync | TRemoveAll

record treeWorld =
  trees :: "string \<Rightarrow> (string \<times> node) list option"
  treeFault :: "treeOp \<Rightarrow> errno option"
  leftover :: "string \<Rightarrow> bool"

type_synonym 'a treeio = "(treeWorld, goerr, 'a) io"

definition treeCall :: "treeOp \<Rightarrow> unit treeio" where
  "treeCall c s = (case treeFault s c of Some e \<Rightarrow> (s, Inl (Fail (PathError e))) | None \<Rightarrow> (s, Inr ()))"

definition setTree :: "string \<Rightarrow> (string \<times> node) list option \<Rightarrow> unit treeio" where
  "setTree key t s = (s\<lparr>trees := (trees s)(key := t)\<rparr>, Inr ())"

definition getTree :: "string \<Rightarrow> (string \<times> node) list option treeio" where
  "getTree key s = (s, Inr (trees s key))"

definition plainFile :: "string \<Rightarrow> node" where
  "plainFile d = \<lparr>nodeType = NReg, perm = 420, owner = 0, grp = 0, content = d, target = '''', inode = 0, rdev = (0, 0)\<rparr>"

definition putFile :: "string \<Rightarrow> string \<Rightarrow> (string \<times> node) list \<Rightarrow> (string \<times> node) list" where
  "putFile p d fs = filter (\<lambda>f. fst f \<noteq> p) fs @ [(p, plainFile d)]"

definition writeTreeFile :: "string \<Rightarrow> string \<Rightarrow> string \<Rightarrow> unit treeio" where
  "writeTreeFile key p d = bindIO (getTree key) (\<lambda>t. setTree key (map_option (putFile p d) t))"

definition flagged :: "(string \<times> node) list \<Rightarrow> bool" where
  "flagged fs \<longleftrightarrow> renderedfilename \<in> fst ` set fs"

text \<open>Whether the directory and the flag file exist, as \<^verbatim>\<open>os.Stat\<close> and \<^verbatim>\<open>os.IsNotExist\<close> report it.\<close>

definition unlessMissing :: "unit treeio \<Rightarrow> bool treeio \<Rightarrow> bool treeio" where
  "unlessMissing c m = tryIO c (\<lambda>r. case r of Inl e \<Rightarrow> if osIsNotExist e then ret False else fail e | Inr _ \<Rightarrow> m)"

definition statTree :: "string \<Rightarrow> bool treeio" where
  "statTree key = unlessMissing (treeCall TStat) (bindIO (getTree key) (\<lambda>t. ret (t \<noteq> None)))"

definition statRendered :: "string \<Rightarrow> bool treeio" where
  "statRendered key =
     unlessMissing (treeCall TStatRendered)
       (bindIO (getTree key) (\<lambda>t. ret (case t of None \<Rightarrow> False | Some fs \<Rightarrow> flagged fs)))"

definition TreeStore_Hash :: "treeCodec \<Rightarrow> string \<Rightarrow> string treeio" where
  "TreeStore_Hash cd key =
     bindIO (mapErr (Wrap ''treestore: error walking rootfs: '') (treeCall TWalk)) (\<lambda>_.
     bindIO (getTree key) (\<lambda>t.
     case t of
       None \<Rightarrow> fail (Wrap ''treestore: error walking rootfs: '' (PathError ENOENT))
     | Some fs \<Rightarrow>
         (case keyToString (sum512 cd (buildWalker (encode cd) Map.empty fs)) of
            None \<Rightarrow> panic ''bad hash passed to hashToKey''
          | Some h \<Rightarrow> ret h)))"

text \<open>The hash file, then everything to disk, then the flag file.\<close>

definition sealTree :: "treeCodec \<Rightarrow> string \<Rightarrow> unit treeio" where
  "sealTree cd key =
     bindIO (mapErr (Wrap ''treestore: cannot calculate tree hash: '') (TreeStore_Hash cd key)) (\<lambda>hash.
     tryIO (treeCall TWriteHash) (\<lambda>w.
     case w of
       Inl e \<Rightarrow> bindIO (writeTreeFile key hashfilename '''') (\<lambda>_. fail (Wrap ''treestore: cannot write hash file: '' e))
     | Inr _ \<Rightarrow>
         bindIO (writeTreeFile key hashfilename hash) (\<lambda>_.
         bindIO (treeCall TOpen) (\<lambda>_.
         bindIO (mapErr (Wrap ''treestore: failed to sync data: '') (treeCall TSyncfs)) (\<lambda>_.
         bindIO (mapErr (Wrap ''treestore: failed to write rendered file: '') (treeCall TCreateRendered)) (\<lambda>_.
         bindIO (writeTreeFile key renderedfilename '''') (\<lambda>_.
         mapErr (Wrap ''treestore: failed to sync tree store directory: '') (treeCall TFsync))))))))"

text \<open>\<open>render\<close> gives the files that were rendered and the error, if rendering failed.\<close>

definition TreeStore_Write :: "treeCodec \<Rightarrow> (string \<Rightarrow> (string \<times> node) list \<times> goerr option) \<Rightarrow> string \<Rightarrow> unit treeio" where
  "TreeStore_Write cd render key =
     tryIO (statTree key) (\<lambda>fi.
     if fi = Inr True then fail (Msg (''treestore: path '' @ key @ '' already exists''))
     else case NewHash key of
       Inl e \<Rightarrow> fail (Wrap ''treestore: cannot convert key to imageID: '' (Msg e))
     | Inr _ \<Rightarrow>
         bindIO (mapErr (Wrap ''treestore: cannot create treestore directory'') (treeCall TMkdir)) (\<lambda>_.
         bindIO (setTree key (Some (fst (render key)))) (\<lambda>_.
         case snd (render key) of
           Some e \<Rightarrow> fail (Wrap ''treestore: cannot render aci: '' e)
         | None \<Rightarrow> sealTree cd key)))"

text \<open>A removal that fails leaves the files for which \<open>leftover\<close> holds.\<close>

definition removeTree :: "string \<Rightarrow> unit treeio" where
  "removeTree key s =
     (case treeFault s TRemoveAll of
        None \<Rightarrow> (s\<lparr>trees := (trees s)(key := None)\<rparr>, Inr ())
      | Some e \<Rightarrow> (s\<lparr>trees := (trees s)(key := map_option (filter (\<lambda>f. leftover s (fst f))) (trees s key))\<rparr>,
                   Inl (Fail (PathError e))))"

definition dropRendered :: "string \<Rightarrow> unit treeio" where
  "dropRendered key =
     bindIO (treeCall TRemoveRendered) (\<lambda>_.
     bindIO (getTree key) (\<lambda>t. setTree key (map_option (filter (\<lambda>f. fst f \<noteq> renderedfilename)) t)))"

text \<open>The error of removing the flag file is overwritten by the next call.\<close>

definition TreeStore_Remove :: "string \<Rightarrow> unit treeio" where
  "TreeStore_Remove key =
     bindIO (mapErr (Wrap ''treestore: failed to open tree store directory: '') (statTree key)) (\<lambda>present.
     if \<not> present then ret ()
     else bindIO (statRendered key) (\<lambda>flag.
          bindIO (if flag then
                    tryIO (dropRendered key) (\<lambda>_.
                    bindIO (mapErr (Wrap ''treestore: failed to open tree store directory: '') (treeCall TOpen)) (\<lambda>_.
                    mapErr (Wrap ''treestore: failed to sync tree store directory: '') (treeCall TSync)))
                  else ret ()) (\<lambda>_.
          removeTree key)))"

definition TreeStore_IsRendered :: "string \<Rightarrow> bool treeio" where
  "TreeStore_IsRendered key = statRendered key"

definition TreeStore_Check :: "treeCodec \<Rightarrow> string \<Rightarrow> unit treeio" where
  "TreeStore_Check cd key =
     bindIO (mapErr (Wrap ''treestore: cannot read hash file: '') (treeCall TReadHash)) (\<lambda>_.
     bindIO (getTree key) (\<lambda>t.
     case (case t of None \<Rightarrow> None | Some fs \<Rightarrow> map_of fs hashfilename) of
       None \<Rightarrow> fail (Wrap ''treestore: cannot read hash file: '' (PathError ENOENT))
     | Some f \<Rightarrow>
         bindIO (mapErr (Wrap ''treestore: cannot calculate tree hash: '') (TreeStore_Hash cd key)) (\<lambda>curhash.
         if curhash \<noteq> content f
         then fail (Msg (''treestore: wrong tree hash: '' @ curhash @ '', expected: '' @ content f))
         else ret ())))"

definition TreeStore_GetPath :: "string \<Rightarrow> string \<Rightarrow> string" where
  "TreeStore_GetPath base key = base @ ''/'' @ key"

definition TreeStore_GetRootFS :: "string \<Rightarrow> string \<Rightarrow> string" where
  "TreeStore_GetRootFS base key = TreeStore_GetPath base key @ ''/rootfs''"

section \<open>The hash looks at the rendered files only\<close>

lemma walker_ignored:
  assumes "ignored p"
  shows "buildWalker enc inos (putFile p d fs) = buildWalker enc inos fs"
proof -
  have snoc: "buildWalker enc inos (fs @ [(p, n)]) = buildWalker enc inos fs" for n
    using assms by (induction enc inos fs rule: buildWalker.induct) (auto simp: Let_def split: prod.split)
  have "buildWalker enc inos (filter (\<lambda>f. fst f \<noteq> p) fs) = buildWalker enc inos fs"
    using assms by (induction enc inos fs rule: buildWalker.induct) (auto simp: Let_def split: prod.split)
  with snoc show ?thesis
    using assms by (induction enc inos fs rule: buildWalker.induct) (auto simp: putFile_def Let_def split: prod.split)
qed

text \<open>
  The hash of a tree does not depend on the inode numbers, only on which files share one: a
  copy of a tree that keeps its hard links has the same hash.
\<close>

theorem hash_independent_of_inodes:
  assumes "inj f"
  shows "buildWalker enc Map.empty (map (\<lambda>(p, n). (p, n\<lparr>inode := f (inode n)\<rparr>)) fs) = buildWalker enc Map.empty fs"
proof -
  have "buildWalker enc seen' (map (\<lambda>(p, n). (p, n\<lparr>inode := f (inode n)\<rparr>)) fs) = buildWalker enc seen fs"
    if "\<And>i. seen' (f i) = seen i" for seen seen'
    using that
  proof (induction fs arbitrary: seen seen')
    case (Cons a fs)
    obtain p n where a: "a = (p, n)" by (cases a)
    have upd: "(seen'(f (inode n) \<mapsto> p)) (f i) = (seen(inode n \<mapsto> p)) i" for i
      using Cons.prems [of i] assms by (simp add: inj_eq)
    show ?case
      using Cons.IH [of seen' seen, OF Cons.prems]
        Cons.IH [of "seen'(f (inode n) \<mapsto> p)" "seen(inode n \<mapsto> p)", OF upd] Cons.prems [of "inode n"]
      by (auto simp: a Let_def FileInfoHeader_def Populate_def simp del: fun_upd_apply split: option.split)
  qed simp
  then show ?thesis by simp
qed

theorem hash_independent_of_inodes_witness:
  "inj Suc \<and> buildWalker (\<lambda>fi. h_Linkname (fi_header fi)) Map.empty
     (map (\<lambda>(p, n). (p, n\<lparr>inode := Suc (inode n)\<rparr>)) [(''a'', plainFile ''x''), (''b'', plainFile ''x'')]) = ''xa''"
proof -
  have "buildWalker (\<lambda>fi. h_Linkname (fi_header fi)) Map.empty [(''a'', plainFile ''x''), (''b'', plainFile ''x'')] = ''xa''"
    by (simp add: ignored_def ManifestFile_def hashfilename_def renderedfilename_def plainFile_def Let_def FileInfoHeader_def
        Populate_def AddFile_def FileInfoFromHeader_def)
  then show ?thesis by (intro conjI trans [OF hash_independent_of_inodes]) simp_all
qed

section \<open>A tree that is marked as rendered is complete\<close>

text \<open>Images have only a manifest and a root file system at the top.\<close>

definition cleanRender :: "(string \<Rightarrow> (string \<times> node) list \<times> goerr option) \<Rightarrow> bool" where
  "cleanRender render \<longleftrightarrow> (\<forall>key. \<not> flagged (fst (render key)) \<and> hashfilename \<notin> fst ` set (fst (render key)))"

definition marked :: "treeWorld \<Rightarrow> string \<Rightarrow> bool" where
  "marked s key \<longleftrightarrow> (\<exists>fs. trees s key = Some fs \<and> flagged fs)"

definition complete :: "treeCodec \<Rightarrow> (string \<Rightarrow> (string \<times> node) list \<times> goerr option) \<Rightarrow> treeWorld \<Rightarrow> string \<Rightarrow> bool" where
  "complete cd render s key \<longleftrightarrow> snd (render key) = None \<and>
     (\<exists>h. trees s key = Some (putFile renderedfilename '''' (putFile hashfilename h (fst (render key)))) \<and>
        keyToString (sum512 cd (buildWalker (encode cd) Map.empty (fst (render key)))) = Some h)"

definition treesSafe :: "treeCodec \<Rightarrow> (string \<Rightarrow> (string \<times> node) list \<times> goerr option) \<Rightarrow> treeWorld \<Rightarrow> bool" where
  "treesSafe cd render s \<longleftrightarrow> (\<forall>key. marked s key \<longrightarrow> complete cd render s key)"

lemma treeCall_outcome: "treeCall c s = (s', r) \<Longrightarrow> s' = s \<and> (r = Inr () \<and> treeFault s c = None \<or> (\<exists>e. treeFault s c = Some e \<and> r = Inl (Fail (PathError e))))"
  by (auto simp: treeCall_def split: option.splits)

lemma tree_access [simp]:
  "bindIO (setTree key t) f s = f () (s\<lparr>trees := (trees s)(key := t)\<rparr>)"
  "bindIO (getTree key) g s = g (trees s key) s"
  by (simp_all add: bindIO_def setTree_def getTree_def)

lemma stat_outcome:
  "statTree key s = (s', r) \<Longrightarrow> s' = s \<and> (\<forall>b. r = Inr b \<longrightarrow> b \<longrightarrow> trees s key \<noteq> None)"
  "statRendered key s = (s', r) \<Longrightarrow> s' = s \<and> (\<forall>b. r = Inr b \<longrightarrow> treeFault s TStatRendered = None \<longrightarrow> b = marked s key)"
  unfolding statTree_def statRendered_def unlessMissing_def
  by (auto simp: io_simps treeCall_def getTree_def marked_def split: if_splits option.splits)

lemma TreeStore_Hash_outcome:
  "TreeStore_Hash cd key s = (s', r) \<Longrightarrow> s' = s \<and> (\<forall>h. r = Inr h \<longrightarrow>
     (\<exists>fs. trees s key = Some fs \<and> keyToString (sum512 cd (buildWalker (encode cd) Map.empty fs)) = Some h))"
  unfolding TreeStore_Hash_def
  by (auto simp: io_simps mapErr_def treeCall_def getTree_def split: option.splits)

lemma flagged_simps [simp]:
  "flagged (putFile p d fs) \<longleftrightarrow> p = renderedfilename \<or> flagged fs"
  "\<not> flagged (filter (\<lambda>f. fst f \<noteq> renderedfilename) fs)"
  by (auto simp: flagged_def putFile_def)

lemma putFile_lookup: "map_of (putFile p d fs) q = (if q = p then Some (plainFile d) else map_of fs q)"
proof -
  have "map_of (filter (\<lambda>f. fst f \<noteq> p) fs @ [(p, plainFile d)]) q = (if q = p then Some (plainFile d) else map_of fs q)"
    by (induction fs) auto
  then show ?thesis by (simp add: putFile_def)
qed

lemma names_differ [simp]: "hashfilename \<noteq> renderedfilename" "renderedfilename \<noteq> hashfilename" "ignored hashfilename" "ignored renderedfilename"
  by (simp_all add: hashfilename_def renderedfilename_def ignored_def)

lemma writeTreeFile_run: "writeTreeFile key p d s = (s\<lparr>trees := (trees s)(key := map_option (putFile p d) (trees s key))\<rparr>, Inr ())"
  by (simp add: writeTreeFile_def setTree_def)

lemma sealTree_outcome:
  assumes "sealTree cd key s = (s', r)" and "trees s key = Some fs" and "\<not> flagged fs"
  shows "(\<forall>k. k \<noteq> key \<longrightarrow> trees s' k = trees s k) \<and>
    (\<not> marked s' key \<and> (\<exists>e. r = Inl e) \<or>
     (\<exists>h. trees s' key = Some (putFile renderedfilename '''' (putFile hashfilename h fs)) \<and>
        keyToString (sum512 cd (buildWalker (encode cd) Map.empty fs)) = Some h))"
proof -
  obtain s1 h where hash: "TreeStore_Hash cd key s = (s1, h)" by fastforce
  then have "s1 = s \<and> (\<forall>x. h = Inr x \<longrightarrow> keyToString (sum512 cd (buildWalker (encode cd) Map.empty fs)) = Some x)"
    using assms(2) by (auto dest!: TreeStore_Hash_outcome)
  then show ?thesis
    using assms hash
    by (auto simp: sealTree_def io_simps mapErr_def treeCall_def writeTreeFile_run marked_def
        split: option.splits sum.splits stop.splits)
qed

lemma TreeStore_Write_outcome:
  assumes "cleanRender render" and "TreeStore_Write cd render key s = (s', r)"
  shows "(\<forall>k. k \<noteq> key \<longrightarrow> trees s' k = trees s k) \<and>
    (trees s' key = trees s key \<and> (\<exists>e. r = Inl e) \<or> \<not> marked s' key \<and> (\<exists>e. r = Inl e) \<or> complete cd render s' key)"
proof -
  have clean: "\<not> flagged (fst (render key))" using assms(1) by (simp add: cleanRender_def)
  let ?s1 = "s\<lparr>trees := (trees s)(key := Some (fst (render key)))\<rparr>"
  obtain fi where "statTree key s = (s, fi)" using stat_outcome(1) by (metis surj_pair)
  then have "s' = s \<and> (\<exists>e. r = Inl e) \<or> s' = ?s1 \<and> (\<exists>e. r = Inl e) \<or> sealTree cd key ?s1 = (s', r) \<and> snd (render key) = None"
    using assms(2) unfolding TreeStore_Write_def
    by (auto simp: io_simps mapErr_def treeCall_def setTree_def split: if_splits sum.splits option.splits stop.splits)
  then show ?thesis
    using sealTree_outcome [of cd key ?s1 s' r] clean by (auto simp: marked_def complete_def)
qed

lemma flagged_filter: "flagged (filter P fs) \<Longrightarrow> flagged fs"
  by (auto simp: flagged_def)

lemma removeTree_outcome:
  assumes "removeTree key s = (s', r)"
  shows "(\<forall>k. k \<noteq> key \<longrightarrow> trees s' k = trees s k) \<and>
    (trees s' key = None \<or> treeFault s TRemoveAll \<noteq> None \<and> (marked s' key \<longrightarrow> marked s key))"
  using assms by (auto simp: removeTree_def marked_def split: option.splits) (metis flagged_filter)

lemma dropRendered_outcome:
  assumes "dropRendered key s = (s', r)"
  shows "treeFault s' = treeFault s \<and> (\<forall>k. k \<noteq> key \<longrightarrow> trees s' k = trees s k) \<and>
    (trees s' key = trees s key \<and> treeFault s TRemoveRendered \<noteq> None \<or> \<not> marked s' key) \<and>
    r \<noteq> Inl Block \<and> (\<forall>p. r \<noteq> Inl (Panic p))"
  using assms by (auto simp: dropRendered_def bindIO_run treeCall_def getTree_def setTree_def marked_def split: option.splits)

lemma TreeStore_Remove_outcome:
  assumes "TreeStore_Remove key s = (s', r)"
  shows "(\<forall>k. k \<noteq> key \<longrightarrow> trees s' k = trees s k) \<and>
    (trees s' key = trees s key \<or> trees s' key = None \<or> \<not> marked s' key \<or>
     (treeFault s TRemoveRendered \<noteq> None \<or> treeFault s TStatRendered \<noteq> None) \<and> treeFault s TRemoveAll \<noteq> None)"
proof -
  obtain p where st: "statTree key s = (s, p)" using stat_outcome(1) by (metis surj_pair)
  obtain f where fl: "statRendered key s = (s, f)" using stat_outcome(2) by (metis surj_pair)
  obtain s1 d where dr: "dropRendered key s = (s1, d)" by fastforce
  note drop = dropRendered_outcome [OF dr]
  consider (same) "s' = s" | (kept) "s' = s1" | (plain) "f = Inr False" "removeTree key s = (s', r)"
    | (dropped) "removeTree key s1 = (s', r)"
    using assms drop unfolding TreeStore_Remove_def
    by (auto simp: io_simps st fl dr mapErr_def treeCall_def split: sum.splits stop.splits option.splits if_splits)
  then show ?thesis
  proof cases
    case plain
    then have "treeFault s TStatRendered = None \<longrightarrow> \<not> marked s key" using stat_outcome(2) [OF fl] by auto
    then show ?thesis using removeTree_outcome [OF plain(2)] by auto
  next
    case dropped
    have "marked s1 key = marked s key" if "trees s1 key = trees s key" using that by (simp add: marked_def)
    then show ?thesis using removeTree_outcome [OF dropped] drop by auto
  qed (use drop in auto)
qed

text \<open>
  The commands of the tree store, each with the failures that hit it, as an explicit sequence.
\<close>

datatype treeCmd = CmdWrite string | CmdRemove string

fun treeStep :: "treeCodec \<Rightarrow> (string \<Rightarrow> (string \<times> node) list \<times> goerr option) \<Rightarrow>
    treeCmd \<times> (treeOp \<Rightarrow> errno option) \<times> (string \<Rightarrow> bool) \<Rightarrow> treeWorld \<Rightarrow> treeWorld" where
  "treeStep cd render (CmdWrite key, flt, lft) s = fst (TreeStore_Write cd render key (s\<lparr>treeFault := flt, leftover := lft\<rparr>))"
| "treeStep cd render (CmdRemove key, flt, lft) s = fst (TreeStore_Remove key (s\<lparr>treeFault := flt, leftover := lft\<rparr>))"

text \<open>The removal of the flag file and the removal of the rest do not both go wrong.\<close>

definition flagGoes :: "treeCmd \<times> (treeOp \<Rightarrow> errno option) \<times> (string \<Rightarrow> bool) \<Rightarrow> bool" where
  "flagGoes = (\<lambda>(c, flt, lft). flt TRemoveAll = None \<or> flt TRemoveRendered = None \<and> flt TStatRendered = None)"

lemma treeStep_safe:
  assumes "cleanRender render" and "treesSafe cd render s" and "flagGoes c"
  shows "treesSafe cd render (treeStep cd render c s)"
proof -
  obtain cmd flt lft where c: "c = (cmd, flt, lft)" by (cases c)
  let ?s = "s\<lparr>treeFault := flt, leftover := lft\<rparr>"
  have same: "marked ?s = marked s" "complete cd render ?s = complete cd render s"
    by (simp_all add: marked_def complete_def fun_eq_iff)
  have local: "trees s1 k = trees s2 k \<Longrightarrow> marked s1 k = marked s2 k \<and> complete cd render s1 k = complete cd render s2 k"
    for s1 s2 :: treeWorld and k by (simp add: marked_def complete_def)
  show ?thesis
  proof (cases cmd)
    case (CmdWrite key)
    obtain s' r where run: "TreeStore_Write cd render key ?s = (s', r)" by fastforce
    have "marked s' k \<longrightarrow> complete cd render s' k" for k
      using TreeStore_Write_outcome [OF assms(1) run] assms(2) local [of s' k ?s] same
      by (cases "k = key") (auto simp: treesSafe_def)
    then show ?thesis using run by (simp add: c CmdWrite treesSafe_def)
  next
    case (CmdRemove key)
    obtain s' r where run: "TreeStore_Remove key ?s = (s', r)" by fastforce
    have "marked s' k \<longrightarrow> complete cd render s' k" for k
      using TreeStore_Remove_outcome [OF run] assms(2,3) local [of s' k ?s] same
      by (cases "k = key") (auto simp: treesSafe_def flagGoes_def c marked_def)
    then show ?thesis using run by (simp add: c CmdRemove treesSafe_def)
  qed
qed



text \<open>
  The error of removing the flag file is lost, so the proviso is needed: if that removal and
  the removal of the tree both fail, a tree of which nothing but the flag file is left still counts
  as rendered.
\<close>

theorem remove_can_leave_flag:
  assumes "trees s key = Some fs" and "flagged fs"
    and "treeFault s = (\<lambda>_. None)(TRemoveRendered := Some e, TRemoveAll := Some e')"
    and "leftover s = (\<lambda>p. p = renderedfilename)"
  shows "\<exists>s'. TreeStore_Remove key s = (s', Inl (Fail (PathError e'))) \<and>
    trees s' key = Some (filter (\<lambda>f. fst f = renderedfilename) fs) \<and> TreeStore_IsRendered key s' = (s', Inr True)"
proof -
  have "flagged (filter (\<lambda>f. fst f = renderedfilename) fs)" using assms(2) by (auto simp: flagged_def)
  then show ?thesis
    using assms
    by (simp add: TreeStore_Remove_def TreeStore_IsRendered_def statTree_def statRendered_def unlessMissing_def dropRendered_def
        removeTree_def io_simps mapErr_def treeCall_def getTree_def)
qed

theorem remove_can_leave_flag_witness:
  "\<exists>s'. TreeStore_Remove ''k'' \<lparr>trees = [''k'' \<mapsto> [(''manifest'', plainFile ''m''), (renderedfilename, plainFile '''')]],
      treeFault = (\<lambda>_. None)(TRemoveRendered := Some EIO, TRemoveAll := Some EIO), leftover = \<lambda>p. p = renderedfilename\<rparr> =
      (s', Inl (Fail (PathError EIO))) \<and>
    trees s' ''k'' = Some [(renderedfilename, plainFile '''')] \<and> TreeStore_IsRendered ''k'' s' = (s', Inr True)"
proof -
  have "''manifest'' \<noteq> renderedfilename" by (simp add: renderedfilename_def)
  then show ?thesis
    using remove_can_leave_flag [of "\<lparr>trees = [''k'' \<mapsto> [(''manifest'', plainFile ''m''), (renderedfilename, plainFile '''')]],
      treeFault = (\<lambda>_. None)(TRemoveRendered := Some EIO, TRemoveAll := Some EIO), leftover = \<lambda>p. p = renderedfilename\<rparr>"
      "''k''" "[(''manifest'', plainFile ''m''), (renderedfilename, plainFile '''')]" EIO EIO]
    by (simp add: flagged_def)
qed

end
