(* ===== verification/Store.thy ===== *)
theory Store
  imports Diskv Store_DB_Facts Store_Backup Tree_Store Keylock Appc_Schema
begin

text \<open>
  The image store, \<^verbatim>\<open>store/store.go\<close> and \<^verbatim>\<open>store/utils.go\<close>: images and their manifests in two
  key-value stores on disk, their records in the database, rendered images in the tree store, and
  locks per image. The decompressor, the archive and JSON readers and SHA-512 are parameters;
  \<open>kenv\<close> is what other processes do to the lock directories.
\<close>

section \<open>State\<close>

datatype blobKind = BlobType | ImageManifestType

datatype tmpOp = OpTmpFile | OpCopy | OpCloseTmp

record store = dbWorld +
  blobStore :: diskv
  manifestStore :: diskv
  tmpFault :: "tmpOp \<Rightarrow> goerr option"
  treeState :: treeWorld

type_synonym 'a storeio = "(store, goerr, 'a) io"

record imageCodec =
  decompress :: "string \<Rightarrow> goerr + string"
  ManifestFromImage :: "string \<Rightarrow> goerr + ImageManifest"
  imageSum :: "string \<Rightarrow> 8 word list"
  marshal :: "ImageManifest \<Rightarrow> goerr + string"
  unmarshal :: "string \<Rightarrow> goerr + ImageManifest"

definition ErrKeyNotFound :: goerr where "ErrKeyNotFound = Msg ''no keys found''"

definition minlenKey :: nat where "minlenKey = length hashPrefix + 2"

definition backupsNumber :: int where "backupsNumber = 5"

section \<open>The key-value stores\<close>

text \<open>The directories of a key; a string that is no hash is a programming error, which panics.\<close>

definition blockTransform :: transform where
  "blockTransform s =
     (case splitN2 CHR ''-'' s of [a, b] \<Rightarrow> if length b < 2 then None else Some [a, take 2 b] | _ \<Rightarrow> None)"

fun onDiskv :: "blobKind \<Rightarrow> 'a diskvio \<Rightarrow> 'a storeio" where
  "onDiskv BlobType m s = (case m (blobStore s) of (d, r) \<Rightarrow> (s\<lparr>blobStore := d\<rparr>, r))"
| "onDiskv ImageManifestType m s = (case m (manifestStore s) of (d, r) \<Rightarrow> (s\<lparr>manifestStore := d\<rparr>, r))"

text \<open>Steps on the temporary file that receives an image.\<close>

definition tmpCall :: "tmpOp \<Rightarrow> unit storeio" where
  "tmpCall c s = (case tmpFault s c of Some e \<Rightarrow> (s, Inl (Fail e)) | None \<Rightarrow> (s, Inr ()))"

section \<open>Locks and keys\<close>

text \<open>Run \<open>body\<close> under the lock of a key, which is closed at the end.\<close>

definition withKeyLock :: "string \<Rightarrow> (casDir, casDir KeyLock) gofs \<Rightarrow> 'a storeio \<Rightarrow> 'a storeio" where
  "withKeyLock msg lck body =
     bindIO (mapErr (Wrap msg) (onKernel lck)) (\<lambda>l. deferring (onKernel (KeyLock_Close l)) body)"

definition ResolveKey :: "string \<Rightarrow> string storeio" where
  "ResolveKey key0 =
     (if \<not> hasPrefix key0 hashPrefix then fail (Msg ''wrong key prefix'')
      else if length key0 < minlenKey then fail (Msg ''key too short'')
      else
        let key = (if length key0 > lenKey then take lenKey key0 else key0) in
        bindIO (mapErr (Wrap ''error retrieving ACI Infos: '') (DB_Do1 (GetACIInfosWithKeyPrefix key))) (\<lambda>aciInfos.
        if length aciInfos = 0 then fail ErrKeyNotFound
        else if length aciInfos \<noteq> 1 then fail (Msg (''ambiguous key: '' @ quoted key))
        else ret (BlobKey (aciInfos ! 0))))"

definition ReadStream :: "casDir env \<Rightarrow> string \<Rightarrow> string storeio" where
  "ReadStream kenv key0 =
     bindIO (mapErr (Wrap ''error resolving key: '') (ResolveKey key0)) (\<lambda>key.
     withKeyLock ''error locking image: '' (SharedKeyLock kenv ImageLocks key) (onDiskv BlobType (diskvReadStream blockTransform key)))"

definition GetImageManifest :: "imageCodec \<Rightarrow> casDir env \<Rightarrow> string \<Rightarrow> ImageManifest storeio" where
  "GetImageManifest cd kenv key0 =
     bindIO (mapErr (Wrap ''error resolving key: '') (ResolveKey key0)) (\<lambda>key.
     withKeyLock ''error locking image: '' (SharedKeyLock kenv ImageLocks key)
       (bindIO (mapErr (Wrap ''error retrieving image manifest: '') (onDiskv ImageManifestType (diskvRead blockTransform key))) (\<lambda>imj.
        case unmarshal cd imj of
          Inl e \<Rightarrow> fail (Wrap ''error unmarshalling image manifest: '' e)
        | Inr im \<Rightarrow> ret im)))"

section \<open>Writing and removing images\<close>

definition saveManifest :: "imageCodec \<Rightarrow> int \<Rightarrow> bool \<Rightarrow> ImageManifest \<Rightarrow> string \<Rightarrow> string storeio" where
  "saveManifest cd now latest im key =
     (case marshal cd im of
        Inl e \<Rightarrow> fail (Wrap ''error marshalling image manifest: '' e)
      | Inr imj \<Rightarrow>
          bindIO (mapErr (Wrap ''error importing image manifest: '')
            (onDiskv ImageManifestType (diskvWrite blockTransform key imj))) (\<lambda>_.
          bindIO (mapErr (Wrap ''error writing ACI Info: '')
            (DB_Do1 (WriteACIInfo \<lparr>BlobKey = key, AppName = im_Name im, ImportTime = now, Latest = latest\<rparr>))) (\<lambda>_.
          ret key)))"

definition importImage :: "imageCodec \<Rightarrow> int \<Rightarrow> bool \<Rightarrow> string \<Rightarrow> ImageManifest \<Rightarrow> string \<Rightarrow> string storeio" where
  "importImage cd now latest data im key =
     bindIO (mapErr (Wrap ''error importing image: '')
       (onDiskv BlobType (diskvImport blockTransform (RegT, data) key True))) (\<lambda>_.
     saveManifest cd now latest im key)"

definition WriteACI :: "imageCodec \<Rightarrow> casDir env \<Rightarrow> int \<Rightarrow> string \<Rightarrow> bool \<Rightarrow> string storeio" where
  "WriteACI cd kenv now r latest =
     (case decompress cd r of
        Inl e \<Rightarrow> fail (Wrap ''error decompressing image: '' e)
      | Inr data \<Rightarrow>
          bindIO (mapErr (Wrap ''error creating image: '') (tmpCall OpTmpFile)) (\<lambda>_.
          bindIO (mapErr (Wrap ''error copying image: '') (tmpCall OpCopy)) (\<lambda>_.
          case ManifestFromImage cd data of
            Inl e \<Rightarrow> fail (Wrap ''error extracting image manifest: '' e)
          | Inr im \<Rightarrow>
              bindIO (mapErr (Wrap ''error closing image: '') (tmpCall OpCloseTmp)) (\<lambda>_.
              case keyToString (imageSum cd data) of
                None \<Rightarrow> panic ''bad hash passed to hashToKey''
              | Some key \<Rightarrow>
                  withKeyLock ''error locking image: '' (ExclusiveKeyLock kenv ImageLocks key)
                    (importImage cd now latest data im key)))))"

definition removeTx :: "string \<Rightarrow> unit tx" where
  "removeTx key =
     bindIO (mapErr (Wrap ''error getting aciinfo: '') (GetACIInfoWithBlobKey key)) (\<lambda>found.
     if found = None then fail (Msg (''cannot find image with key: '' @ key))
     else bindIO (RemoveACIInfo key) (\<lambda>_. RemoveRemote key))"

text \<open>The errors of the two key-value stores are collected.\<close>

fun eraseAll :: "blobKind list \<Rightarrow> string \<Rightarrow> goerr list storeio" where
  "eraseAll [] key = ret []"
| "eraseAll (kd # kinds) key =
     tryIO (onDiskv kd (diskvErase blockTransform key)) (\<lambda>r.
     bindIO (eraseAll kinds key) (\<lambda>es. ret (case r of Inl e \<Rightarrow> e # es | Inr _ \<Rightarrow> es)))"

definition RemoveACI :: "casDir env \<Rightarrow> string \<Rightarrow> unit storeio" where
  "RemoveACI kenv key =
     withKeyLock ''error locking image: '' (ExclusiveKeyLock kenv ImageLocks key)
       (bindIO (mapErr (Wrap (''cannot remove image with key: '' @ key @ '' from db: '')) (DB_Do1 (removeTx key))) (\<lambda>_.
        bindIO (eraseAll [BlobType, ImageManifestType] key) (\<lambda>storeErrors.
        if storeErrors \<noteq> [] then fail (StoreRemovalError storeErrors) else ret ())))"

section \<open>The tree store\<close>

definition onTrees :: "'a treeio \<Rightarrow> 'a storeio" where
  "onTrees m s = (case m (treeState s) of (t, r) \<Rightarrow> (s\<lparr>treeState := t\<rparr>, r))"

text \<open>\<open>render\<close> stands for the renderer of the appc library, which reads the images of the store.\<close>

definition RenderTreeStore :: "treeCodec \<Rightarrow> casDir env \<Rightarrow> (string \<Rightarrow> (string \<times> node) list \<times> goerr option) \<Rightarrow> string \<Rightarrow> bool \<Rightarrow> unit storeio" where
  "RenderTreeStore tc kenv render key rebuild =
     withKeyLock ''error locking tree store: '' (ExclusiveKeyLock kenv TreeLocks key)
       (bindIO (if rebuild then ret False
                else mapErr (Wrap ''cannot determine if tree is already rendered: '') (onTrees (TreeStore_IsRendered key))) (\<lambda>rendered.
        if rendered then ret ()
        else bindIO (onTrees (TreeStore_Remove key)) (\<lambda>_. onTrees (TreeStore_Write tc render key))))"

definition CheckTreeStore :: "treeCodec \<Rightarrow> casDir env \<Rightarrow> string \<Rightarrow> unit storeio" where
  "CheckTreeStore tc kenv key =
     withKeyLock ''error locking tree store: '' (SharedKeyLock kenv TreeLocks key) (onTrees (TreeStore_Check tc key))"

definition RemoveTreeStore :: "casDir env \<Rightarrow> string \<Rightarrow> unit storeio" where
  "RemoveTreeStore kenv key =
     withKeyLock ''error locking tree store: '' (ExclusiveKeyLock kenv TreeLocks key)
       (mapErr (Wrap ''error removing the tree store: '') (onTrees (TreeStore_Remove key)))"

section \<open>Queries\<close>

definition GetRemote :: "string \<Rightarrow> Remote option storeio" where
  "GetRemote aciURL = DB_Do1 (GetRemote_tx aciURL)"

definition WriteRemote :: "Remote \<Rightarrow> unit storeio" where
  "WriteRemote remote = DB_Do1 (WriteRemote_tx remote)"

definition GetAllACIInfos :: "string list \<Rightarrow> bool \<Rightarrow> ACIInfo list storeio" where
  "GetAllACIInfos sortfields ascending = DB_Do1 (GetAllACIInfos_tx sortfields ascending)"

definition getLabelPriority :: "string \<Rightarrow> nat" where
  "getLabelPriority name =
     (if name = ''version'' then 0 else if name = ''os'' then 1 else if name = ''arch'' then 2 else 4)"

text \<open>The labels by priority; \<^verbatim>\<open>sort.Sort\<close> keeps the order of equal ones up to seven labels.\<close>

definition labelsToString :: "Label list \<Rightarrow> string" where
  "labelsToString inLabels =
     ''['' @ joinWith '', '' (map (\<lambda>l. quoted (l_Name l) @ '':'' @ quoted (l_Value l)) (sort_key (getLabelPriority \<circ> l_Name) inLabels)) @ '']''"

definition hasLabels :: "Label list \<Rightarrow> ImageManifest \<Rightarrow> bool" where
  "hasLabels labels im \<longleftrightarrow> list_all (\<lambda>l. list_ex (\<lambda>rl. l_Name l = l_Name rl \<and> l_Value l = l_Value rl) (im_Labels im)) labels"

definition pickACI :: "bool \<Rightarrow> ACIInfo option \<Rightarrow> ACIInfo \<Rightarrow> ACIInfo" where
  "pickACI versionRequested curaciinfo aciinfo =
     (case curaciinfo of
        None \<Rightarrow> aciinfo
      | Some cur \<Rightarrow>
          if \<not> versionRequested \<and> \<not> Latest cur \<and> Latest aciinfo then aciinfo
          else if \<not> versionRequested \<and> Latest cur \<and> \<not> Latest aciinfo then cur
          else if ImportTime aciinfo > ImportTime cur then aciinfo
          else cur)"

fun chooseACI :: "imageCodec \<Rightarrow> casDir env \<Rightarrow> Label list \<Rightarrow> bool \<Rightarrow> ACIInfo list \<Rightarrow> ACIInfo option \<Rightarrow> ACIInfo option storeio" where
  "chooseACI cd kenv labels versionRequested [] cur = ret cur"
| "chooseACI cd kenv labels versionRequested (aciinfo # infos) cur =
     bindIO (mapErr (Wrap ''error getting image manifest: '') (GetImageManifest cd kenv (BlobKey aciinfo))) (\<lambda>im.
     if \<not> hasLabels labels im then chooseACI cd kenv labels versionRequested infos cur
     else chooseACI cd kenv labels versionRequested infos (Some (pickACI versionRequested cur aciinfo)))"

definition GetACI :: "imageCodec \<Rightarrow> casDir env \<Rightarrow> string \<Rightarrow> Label list \<Rightarrow> string storeio" where
  "GetACI cd kenv name labels =
     (let versionRequested = (Labels_Get labels ''version'' \<noteq> None) in
      bindIO (DB_Do1 (GetACIInfosWithAppName name)) (\<lambda>(aciinfos, found).
      bindIO (chooseACI cd kenv labels versionRequested aciinfos None) (\<lambda>cur.
      case cur of
        Some i \<Rightarrow> ret (BlobKey i)
      | None \<Rightarrow> fail (Msg (''cannot find aci satisfying name: '' @ quoted name @ '' and labels: '' @ labelsToString labels @
                     '' in the local store'')))))"

section \<open>Opening a store\<close>

text \<open>\<^verbatim>\<open>os.MkdirAll\<close> on a directory of which the parent is a directory of the model.\<close>

definition mkdirAllAt :: "'d \<Rightarrow> string \<Rightarrow> ('d, unit) gofs" where
  "mkdirAllAt d n =
     bindIO (mapErr PathError (sys_mkdirall d)) (\<lambda>_.
     tryIO (mapErr PathError (sys_mkdir d n)) (\<lambda>r.
     case r of
       Inr _ \<Rightarrow> ret ()
     | Inl e \<Rightarrow> tryIO (mapErr PathError (sys_stat d n)) (\<lambda>st. case st of Inr (DirT, i) \<Rightarrow> ret () | _ \<Rightarrow> fail e)))"

definition openTx :: "bool tx" where
  "openTx =
     bindIO dbIsPopulated (\<lambda>ok.
     if \<not> ok then bindIO (execAll dbCreateStmts) (\<lambda>_. ret False)
     else bindIO getDBVersion (\<lambda>version.
          if version > dbVersion
          then fail (Msg (''Current store db version: '' @ itoa (nat version) @ '' greater than the current rkt expected version: '' @ itoa (nat dbVersion)))
          else ret (version < dbVersion)))"

definition backupDB :: "unit storeio" where
  "backupDB = onKernel (createBackup dbPath BackupsDir backupsNumber)"

definition NewStore :: "casDir FileLock storeio" where
  "NewStore =
     bindIO (onKernel (mkdirAllAt BaseDir ''cas'')) (\<lambda>_.
     bindIO (onKernel (mapErr PathError (sys_mkdirall ImageLocks))) (\<lambda>_.
     bindIO (onKernel (mapErr PathError (sys_mkdirall TreeLocks))) (\<lambda>_.
     bindIO (onKernel (NewLock (BaseDir, ''cas'') Dir)) (\<lambda>storeLock.
     bindIO (onKernel (mkdirAllAt CasDir ''db'')) (\<lambda>_.
     bindIO (DB_Do1 openTx) (\<lambda>needsMigrate.
     if \<not> needsMigrate then ret storeLock
     else bindIO (onKernel (FileLock_ExclusiveLock storeLock)) (\<lambda>_.
          bindIO backupDB (\<lambda>_.
          bindIO (DB_Do1 (migrate dbVersion)) (\<lambda>_. ret storeLock)))))))))"

end
