(* ===== verification/Store_Facts.thy ===== *)
theory Store_Facts
  imports Store
begin

text \<open>
  What the image store promises: every image on record is there under the digest of its contents
  with the manifest it contains, whatever fails on the way; what is read is what was asked for; and
  among the images that match a request the preferred one is chosen.
\<close>

section \<open>What the operations leave alone\<close>

text \<open>The same records, images and manifests.\<close>

definition sameImages :: "store \<Rightarrow> store \<Rightarrow> bool" where
  "sameImages s s' \<longleftrightarrow> committed s' = committed s \<and> entries (blobStore s') = entries (blobStore s) \<and>
     entries (manifestStore s') = entries (manifestStore s)"

definition sameFaults :: "store \<Rightarrow> store \<Rightarrow> bool" where
  "sameFaults s s' \<longleftrightarrow> dbFault s' = dbFault s \<and> stmtFault s' = stmtFault s \<and>
     diskvFault (blobStore s') = diskvFault (blobStore s) \<and> torn (blobStore s') = torn (blobStore s) \<and>
     diskvFault (manifestStore s') = diskvFault (manifestStore s) \<and> torn (manifestStore s') = torn (manifestStore s)"

definition unchanged :: "store \<Rightarrow> store \<Rightarrow> bool" where
  "unchanged s s' \<longleftrightarrow> sameImages s s' \<and> sameFaults s s'"

lemma unchanged_refl [simp]: "unchanged s s"
  by (simp add: unchanged_def sameImages_def sameFaults_def)

lemma unchanged_trans [trans]: "unchanged s s1 \<Longrightarrow> unchanged s1 s2 \<Longrightarrow> unchanged s s2"
  by (simp add: unchanged_def sameImages_def sameFaults_def)

lemma unchanged_kern [simp]: "unchanged s (s\<lparr>kern := k\<rparr>)" "unchanged s (s\<lparr>treeState := t\<rparr>)"
  by (simp_all add: unchanged_def sameImages_def sameFaults_def)

lemma sameStore_stores:
  assumes "sameStore s s'"
  shows "blobStore s' = blobStore s \<and> manifestStore s' = manifestStore s \<and> treeState s' = treeState s \<and> tmpFault s' = tmpFault s"
  using assms by (cases s; cases s') (simp add: sameStore_def)

text \<open>An operation that only reads: it may use the machine and the handle of the database.\<close>

definition reads :: "'a storeio \<Rightarrow> bool" where
  "reads m \<longleftrightarrow> (\<forall>s s' r. m s = (s', r) \<longrightarrow> unchanged s s')"

lemma readsD: "reads m \<Longrightarrow> m s = (s', r) \<Longrightarrow> unchanged s s'"
  by (simp add: reads_def)

named_theorems reads_intros

lemma reads_ret [reads_intros]: "reads (ret a)" "reads (stop e)"
  by (simp_all add: reads_def io_simps)

lemma reads_bind [reads_intros]:
  assumes "reads m" "\<And>a. reads (f a)"
  shows "reads (bindIO m f)"
  unfolding reads_def
proof (intro allI impI)
  fix s s' r assume "bindIO m f s = (s', r)"
  then show "unchanged s s'"
    by (rule bindIO_cases) (use assms in \<open>blast dest: readsD unchanged_trans\<close>)+
qed

lemma reads_mapErr [reads_intros]: "reads m \<Longrightarrow> reads (mapErr f m)"
  by (auto simp: reads_def elim!: mapErr_cases)

lemma reads_deferring [reads_intros]:
  assumes "reads m" "reads c"
  shows "reads (deferring c m)"
  unfolding reads_def
proof (intro allI impI)
  fix s s' r assume "deferring c m s = (s', r)"
  then show "unchanged s s'"
    by (rule deferring_cases) (use assms in \<open>blast dest: readsD unchanged_trans\<close>)+
qed

lemma reads_onKernel [reads_intros]: "reads (onKernel m)"
  by (auto simp: reads_def elim!: onKernel_cases)

lemma reads_onTrees [reads_intros]: "reads (onTrees m)"
  by (auto simp: reads_def onTrees_def split: prod.splits)

lemma reads_tmpCall [reads_intros]: "reads (tmpCall c)"
  by (auto simp: reads_def tmpCall_def split: option.splits)

lemma reads_onDiskv [reads_intros]:
  assumes "\<And>d. fst (m d) = d"
  shows "reads (onDiskv kd m)"
proof -
  have step: "m d = (d', r) \<Longrightarrow> d' = d" for d d' r using assms [of d] by simp
  show ?thesis
    by (cases kd) (auto simp: reads_def unchanged_def sameImages_def sameFaults_def split: prod.splits dest!: step)
qed

lemma diskv_reads [simp]:
  "fst (diskvReadStream t key d) = d" "fst (diskvRead t key d) = d"
  using readStream_outcome [of t key d] read_outcome [of t key d] by (metis prod.collapse)+

lemma reads_DB [reads_intros]:
  assumes "\<And>t t' a. f t = (t', Inr a) \<Longrightarrow> txDB t' = txDB t"
  shows "reads (DB_Do1 f)"
proof -
  have "unchanged s s'" if "DB_Do1 f s = (s', r)" for s s' r
  proof -
    note out = DB_Do1_outcome [OF that]
    then have st: "sameStore s s'" by simp
    then have "sameFaults s s'" using sameStore_stores [OF st] by (simp add: sameFaults_def sameStore_def)
    moreover have "committed s' = committed s" using out assms by fastforce
    ultimately show ?thesis using sameStore_stores [OF st] by (simp add: unchanged_def sameImages_def)
  qed
  then show ?thesis by (simp add: reads_def)
qed

lemma reads_withKeyLock [reads_intros]: "reads m \<Longrightarrow> reads (withKeyLock msg l m)"
  unfolding withKeyLock_def by (intro reads_intros)

lemma reads_if [reads_intros]: "reads m \<Longrightarrow> reads m' \<Longrightarrow> reads (if b then m else m')"
  by simp

text \<open>The queries.\<close>

definition pureTx :: "'a tx \<Rightarrow> bool" where
  "pureTx f \<longleftrightarrow> (\<forall>t. fst (f t) = t)"

lemma pureTx_bind: "pureTx m \<Longrightarrow> (\<And>a. pureTx (f a)) \<Longrightarrow> pureTx (bindIO m f)"
  by (auto simp: pureTx_def bindIO_def split: prod.splits sum.splits) (metis fst_conv)+

lemma pureTx_basic: "pureTx (ret a)" "pureTx (stop e)" "pureTx (txQuery q)" "pureTx (rowsErr q)"
  by (auto simp: pureTx_def io_simps txQuery_def rowsErr_def split: option.splits sum.splits)

lemma pureTx_scan: "pureTx (scanRows f rs)"
  by (induction rs) (auto intro!: pureTx_bind pureTx_basic split: option.splits)

lemmas pureTx_intros = pureTx_bind pureTx_basic pureTx_scan

lemma reads_query: "pureTx f \<Longrightarrow> reads (DB_Do1 f)"
  by (rule reads_DB) (metis pureTx_def fst_conv)

lemma pureTx_queries:
  "pureTx (GetACIInfosWithKeyPrefix k)" "pureTx (GetACIInfosWithAppName n)" "pureTx (GetACIInfoWithBlobKey k)"
  "pureTx (GetAllACIInfos_tx fs asc)" "pureTx (GetRemote_tx u)"
  unfolding GetACIInfosWithKeyPrefix_def GetACIInfosWithAppName_def GetACIInfoWithBlobKey_def GetAllACIInfos_tx_def
    GetRemote_tx_def queryACIInfos_def Let_def
  by (intro pureTx_intros)+

lemma reads_ResolveKey [reads_intros]: "reads (ResolveKey key)"
  unfolding ResolveKey_def Let_def by (intro reads_intros reads_query pureTx_queries)

lemma reads_ReadStream [reads_intros]: "reads (ReadStream kenv key)"
  unfolding ReadStream_def by (intro reads_intros) simp

lemma reads_GetImageManifest [reads_intros]: "reads (GetImageManifest cd kenv key)"
  unfolding GetImageManifest_def by (intro reads_intros) (auto intro!: reads_intros split: sum.splits)

lemma reads_chooseACI [reads_intros]: "reads (chooseACI cd kenv labels v infos cur)"
  by (induction infos arbitrary: cur) (auto intro!: reads_intros)

lemma reads_GetACI [reads_intros]: "reads (GetACI cd kenv name labels)"
  unfolding GetACI_def Let_def
  by (auto intro!: reads_intros reads_query pureTx_queries split: option.splits prod.splits)

lemma reads_trees [reads_intros]:
  "reads (RenderTreeStore tc kenv render key rebuild)" "reads (CheckTreeStore tc kenv key)" "reads (RemoveTreeStore kenv key)"
  unfolding RenderTreeStore_def CheckTreeStore_def RemoveTreeStore_def by (intro reads_intros)+

section \<open>Transactions that succeed\<close>

text \<open>A transaction that succeeds does what it does when nothing can fail.\<close>

abbreviation calmed :: "txn \<Rightarrow> txn" where
  "calmed t \<equiv> t\<lparr>sqlFault := \<lambda>_. None\<rparr>"

definition plainSuccess :: "'a tx \<Rightarrow> bool" where
  "plainSuccess f \<longleftrightarrow> (\<forall>t t' a. f t = (t', Inr a) \<longrightarrow> f (calmed t) = (calmed t', Inr a))"

lemma plain_basic:
  "plainSuccess (ret a)" "plainSuccess (stop e)" "plainSuccess (txQuery q)" "plainSuccess (rowsErr q)" "plainSuccess (txExec st)"
  by (auto simp: plainSuccess_def io_simps txQuery_def rowsErr_def txExec_def split: option.splits sum.splits)

lemma plain_bind: "plainSuccess m \<Longrightarrow> (\<And>a. plainSuccess (f a)) \<Longrightarrow> plainSuccess (bindIO m f)"
  unfolding plainSuccess_def by (intro allI impI, elim bindIO_Inr) (simp add: bindIO_run)

lemma plain_mapErr: "plainSuccess m \<Longrightarrow> plainSuccess (mapErr f m)"
  by (auto simp: plainSuccess_def mapErr_Inr)

lemma plain_if: "plainSuccess m \<Longrightarrow> plainSuccess m' \<Longrightarrow> plainSuccess (if b then m else m')"
  by simp

lemma plain_scan: "plainSuccess (scanRows f rs)"
  by (induction rs) (auto intro!: plain_bind plain_basic split: option.splits)

lemmas plain_intros = plain_basic plain_bind plain_mapErr plain_if plain_scan

lemma WriteACIInfo_success:
  assumes "WriteACIInfo i t = (t', Inr u)" and "holdsACI (txDB t) infos"
  shows "holdsACI (txDB t') (i # filter (\<lambda>x. BlobKey x \<noteq> BlobKey i) infos)"
proof -
  have "plainSuccess (WriteACIInfo i)" unfolding WriteACIInfo_def by (intro plain_intros)
  then have "WriteACIInfo i (calmed t) = (calmed t', Inr u)" using assms(1) by (auto simp: plainSuccess_def)
  moreover obtain db where "WriteACIInfo i (calmed t) = (calmed t\<lparr>txDB := db\<rparr>, Inr ())"
    "holdsACI db (i # filter (\<lambda>x. BlobKey x \<noteq> BlobKey i) infos)"
    using aci.put_ok [of "calmed t" infos i] assms(2) by auto
  ultimately show ?thesis by (metis prod.inject txn.select_convs(1) txn.surjective txn.update_convs)
qed

lemma removeTx_success:
  assumes "removeTx key t = (t', Inr u)" and "holdsACI (txDB t) infos"
  shows "holdsACI (txDB t') (filter (\<lambda>x. BlobKey x \<noteq> key) infos)"
proof -
  have "plainSuccess (removeTx key)"
    unfolding removeTx_def GetACIInfoWithBlobKey_def queryACIInfos_def RemoveACIInfo_def RemoveRemote_def Let_def
    by (intro plain_intros)
  then have run: "removeTx key (calmed t) = (calmed t', Inr u)" using assms(1) by (auto simp: plainSuccess_def)
  obtain db where db: "RemoveACIInfo key (calmed t) = (calmed t\<lparr>txDB := db\<rparr>, Inr ())"
    "holdsACI db (filter (\<lambda>x. BlobKey x \<noteq> key) infos)"
    using aci.remove_ok [of "calmed t" infos key] assms(2) by auto
  have "GetACIInfoWithBlobKey key (calmed t) = (calmed t, Inr (List.find (\<lambda>r. BlobKey r = key) infos))"
    using aci.get_ok [of "calmed t" infos key] assms(2) by simp
  then have rr: "RemoveRemote key (calmed t\<lparr>txDB := db\<rparr>) = (calmed t', Inr u)"
    using run db(1) by (auto simp: removeTx_def io_simps split: if_splits)
  have "txDB (fst (RemoveRemote key (calmed t\<lparr>txDB := db\<rparr>))) ''aciinfo'' = db ''aciinfo''"
    by (auto simp: RemoveRemote_def txExec_def onTable_def split: option.splits sum.splits if_splits)
  with rr have "txDB t' ''aciinfo'' = db ''aciinfo''" by simp
  with db(2) show ?thesis by (simp add: holdsACI_def)
qed

section \<open>Images on record are there\<close>

abbreviation blobAt :: "store \<Rightarrow> string \<Rightarrow> string option" where
  "blobAt s \<equiv> valueOf blockTransform (blobStore s)"

abbreviation manifestAt :: "store \<Rightarrow> string \<Rightarrow> string option" where
  "manifestAt s \<equiv> valueOf blockTransform (manifestStore s)"

text \<open>
  The image of a record is one of \<open>D\<close>, stored under its own digest, with its own name and manifest.
\<close>

definition stocked :: "imageCodec \<Rightarrow> string set \<Rightarrow> store \<Rightarrow> ACIInfo \<Rightarrow> bool" where
  "stocked cd D s i \<longleftrightarrow>
     (\<exists>d im imj. d \<in> D \<and> blobAt s (BlobKey i) = Some d \<and> keyToString (imageSum cd d) = Some (BlobKey i) \<and>
        ManifestFromImage cd d = Inr im \<and> AppName i = im_Name im \<and> marshal cd im = Inr imj \<and>
        manifestAt s (BlobKey i) = Some imj)"

definition imagesOK :: "imageCodec \<Rightarrow> string set \<Rightarrow> store \<Rightarrow> bool" where
  "imagesOK cd D s \<longleftrightarrow> (\<exists>infos. holdsACI (committed s) infos \<and> (\<forall>i \<in> set infos. stocked cd D s i))"

text \<open>
  The failures that are excluded: a commit that fails unnoticed, a temporary file on another device
  than the store, and a manifest that is cut off while it is written.
\<close>

definition healthy :: "store \<Rightarrow> bool" where
  "healthy s \<longleftrightarrow> dbFault s DbCommit = None \<and> diskvFault (blobStore s) RenameSrc \<noteq> Some (Errno EXDEV) \<and>
     diskvFault (manifestStore s) IoCopy = None"

definition collisionFree :: "imageCodec \<Rightarrow> string set \<Rightarrow> bool" where
  "collisionFree cd D \<longleftrightarrow> inj_on (\<lambda>d. keyToString (imageSum cd d)) D"

text \<open>An operation that changes at most the files of one key.\<close>

definition touchesImage :: "string \<Rightarrow> store \<Rightarrow> store \<Rightarrow> bool" where
  "touchesImage key s s' \<longleftrightarrow> touches blockTransform key (blobStore s) (blobStore s') \<and>
     touches blockTransform key (manifestStore s) (manifestStore s') \<and> dbFault s' = dbFault s \<and> stmtFault s' = stmtFault s"

lemma touchesImage_trans: "touchesImage key s s1 \<Longrightarrow> touchesImage key s1 s2 \<Longrightarrow> touchesImage key s s2"
  by (auto simp: touchesImage_def intro: touches_trans)

lemma valueOf_entries: "entries s' = entries s \<Longrightarrow> valueOf t s' = valueOf t s"
  by (rule ext) (simp add: valueOf_def split: option.split)

lemma sameImages_at:
  "sameImages s s' \<Longrightarrow> blobAt s' = blobAt s \<and> manifestAt s' = manifestAt s \<and> committed s' = committed s"
  unfolding sameImages_def by (intro conjI; (elim conjE)?; (rule valueOf_entries)?) assumption+

lemma unchanged_at:
  "unchanged s s' \<Longrightarrow> blobAt s' = blobAt s \<and> manifestAt s' = manifestAt s \<and> committed s' = committed s"
  by (simp add: unchanged_def sameImages_at)

lemma unchanged_touches: "unchanged s s' \<Longrightarrow> touchesImage key s s'"
  using unchanged_at [of s s'] by (simp add: unchanged_def sameFaults_def touchesImage_def touches_def)

lemma unchanged_healthy: "unchanged s s' \<Longrightarrow> healthy s' = healthy s"
  by (simp add: unchanged_def sameFaults_def healthy_def)

lemma imagesOK_unchanged: "imagesOK cd D s \<Longrightarrow> sameImages s s' \<Longrightarrow> imagesOK cd D s'"
  using sameImages_at [of s s'] by (simp add: imagesOK_def stocked_def)

lemma onDiskv_cases:
  "onDiskv BlobType m s = (s', r) \<Longrightarrow> \<exists>d. m (blobStore s) = (d, r) \<and> s' = s\<lparr>blobStore := d\<rparr>"
  "onDiskv ImageManifestType m s = (s', r) \<Longrightarrow> \<exists>d. m (manifestStore s) = (d, r) \<and> s' = s\<lparr>manifestStore := d\<rparr>"
  by (auto split: prod.splits)

text \<open>The two files of an image are written before its record.\<close>

lemma import_blob:
  assumes "mapErr f (onDiskv BlobType (diskvImport blockTransform (RegT, d) key True)) s = (s', r)" and "healthy s"
  shows "touchesImage key s s' \<and> committed s' = committed s \<and> manifestAt s' = manifestAt s \<and>
    blobAt s' key \<in> {blobAt s key, Some d} \<and> (\<not> isl r \<longrightarrow> blobAt s' key = Some d)"
proof -
  obtain x where "onDiskv BlobType (diskvImport blockTransform (RegT, d) key True) s = (s', x)" "isl r = isl x"
    using assms(1) by (rule mapErr_cases) auto
  then obtain b where b: "diskvImport blockTransform (RegT, d) key True (blobStore s) = (b, x)" and s': "s' = s\<lparr>blobStore := b\<rparr>"
    using onDiskv_cases by blast
  show ?thesis using import_outcome [OF b] assms(2) \<open>isl r = isl x\<close>
    by (simp add: s' touchesImage_def healthy_def)
qed

lemma write_manifest:
  assumes "mapErr f (onDiskv ImageManifestType (diskvWrite blockTransform key imj)) s = (s', r)" and "healthy s"
  shows "touchesImage key s s' \<and> committed s' = committed s \<and> blobAt s' = blobAt s \<and>
    manifestAt s' key \<in> {manifestAt s key, Some imj} \<and> (\<not> isl r \<longrightarrow> manifestAt s' key = Some imj)"
proof -
  obtain x where "onDiskv ImageManifestType (diskvWrite blockTransform key imj) s = (s', x)" "isl r = isl x"
    using assms(1) by (rule mapErr_cases) auto
  then obtain b where b: "diskvWrite blockTransform key imj (manifestStore s) = (b, x)" and s': "s' = s\<lparr>manifestStore := b\<rparr>"
    using onDiskv_cases by blast
  show ?thesis using write_outcome [OF b] assms(2) \<open>isl r = isl x\<close>
    by (simp add: s' touchesImage_def healthy_def)
qed

lemma healthy_touches: "touchesImage key s s' \<Longrightarrow> healthy s' = healthy s"
  by (simp add: touchesImage_def touches_def healthy_def)

lemma DB_Do1_touches:
  assumes "DB_Do1 f s = (s', r)"
  shows "touchesImage key s s' \<and> blobAt s' = blobAt s \<and> manifestAt s' = manifestAt s"
proof -
  have "sameStore s s'" using DB_Do1_outcome [OF assms] by simp
  with sameStore_stores [OF this] show ?thesis by (simp add: touchesImage_def sameStore_def)
qed

text \<open>What an import leaves behind, wherever it stops.\<close>

definition imported :: "imageCodec \<Rightarrow> ACIInfo \<Rightarrow> string \<Rightarrow> ImageManifest \<Rightarrow> store \<Rightarrow> store \<Rightarrow> bool" where
  "imported cd i d im s s' \<longleftrightarrow> blobAt s' (BlobKey i) = Some d \<and>
     (\<exists>imj. marshal cd im = Inr imj \<and> manifestAt s' (BlobKey i) = Some imj) \<and>
     (\<forall>infos. holdsACI (committed s) infos \<longrightarrow> holdsACI (committed s') (i # filter (\<lambda>x. BlobKey x \<noteq> BlobKey i) infos))"

lemma saveManifest_outcome:
  assumes run: "saveManifest cd now latest im key s = (s', r)" and h: "healthy s" and d: "blobAt s key = Some d"
  defines "i \<equiv> \<lparr>BlobKey = key, AppName = im_Name im, ImportTime = now, Latest = latest\<rparr>"
  shows "touchesImage key s s' \<and> blobAt s' = blobAt s \<and>
    (manifestAt s' key = manifestAt s key \<or> (\<exists>imj. marshal cd im = Inr imj \<and> manifestAt s' key = Some imj)) \<and>
    (committed s' = committed s \<and> isl r \<or> imported cd i d im s s' \<and> r = Inr key)"
proof (cases "marshal cd im")
  case (Inl e)
  then show ?thesis using run by (auto simp: saveManifest_def io_simps touchesImage_def)
next
  case (Inr imj)
  let ?put = "mapErr (Wrap ''error importing image manifest: '') (onDiskv ImageManifestType (diskvWrite blockTransform key imj))"
  from run Inr have "bindIO ?put (\<lambda>_. bindIO (mapErr (Wrap ''error writing ACI Info: '') (DB_Do1 (WriteACIInfo i))) (\<lambda>_. ret key)) s = (s', r)"
    by (simp add: saveManifest_def i_def)
  then show ?thesis
  proof (rule bindIO_cases)
    fix e assume w: "?put s = (s', Inl e)" "r = Inl e"
    show ?thesis using write_manifest [OF w(1) h] Inr w(2) by auto
  next
    fix u s2 assume w: "?put s = (s2, Inr u)"
      and rest: "bindIO (mapErr (Wrap ''error writing ACI Info: '') (DB_Do1 (WriteACIInfo i))) (\<lambda>_. ret key) s2 = (s', r)"
    note m = write_manifest [OF w h]
    obtain s3 x where x3: "DB_Do1 (WriteACIInfo i) s2 = (s3, x)" by fastforce
    then have r: "isl r = isl x" "\<not> isl x \<longrightarrow> r = Inr key" and "s3 = s'"
      using rest by (auto simp: io_simps mapErr_def split: sum.splits stop.splits)
    note x = x3 [unfolded \<open>s3 = s'\<close>]
    have "healthy s2" using m h healthy_touches by blast
    then have "isl x \<and> committed s' = committed s \<or> \<not> isl x \<and>
        (\<forall>infos. holdsACI (committed s) infos \<longrightarrow> holdsACI (committed s') (i # filter (\<lambda>y. BlobKey y \<noteq> BlobKey i) infos))"
      using DB_Do1_outcome [OF x] m WriteACIInfo_success [of i "\<lparr>txDB = committed s2, sqlFault = stmtFault s2\<rparr>"]
      by (auto simp: healthy_def)
    moreover have "touchesImage key s s'" using m DB_Do1_touches [OF x, of key] touchesImage_trans by blast
    moreover have "blobAt s' = blobAt s \<and> manifestAt s' key = Some imj" using m DB_Do1_touches [OF x] by simp
    ultimately show ?thesis using Inr r d by (auto simp: imported_def i_def)
  qed
qed

lemma importImage_outcome:
  assumes run: "importImage cd now latest d im key s = (s', r)" and h: "healthy s"
  shows "touchesImage key s s' \<and> blobAt s' key \<in> {blobAt s key, Some d} \<and>
    (manifestAt s' key = manifestAt s key \<or> (\<exists>imj. marshal cd im = Inr imj \<and> manifestAt s' key = Some imj)) \<and>
    (committed s' = committed s \<and> isl r \<or>
     imported cd \<lparr>BlobKey = key, AppName = im_Name im, ImportTime = now, Latest = latest\<rparr> d im s s' \<and> r = Inr key)"
  using run unfolding importImage_def
proof (rule bindIO_cases)
  let ?import = "mapErr (Wrap ''error importing image: '') (onDiskv BlobType (diskvImport blockTransform (RegT, d) key True))"
  {
    fix e assume b: "?import s = (s', Inl e)" "r = Inl e"
    show ?thesis using import_blob [OF b(1) h] b(2) by auto
  next
    fix u s1 assume b: "?import s = (s1, Inr u)" and rest: "saveManifest cd now latest im key s1 = (s', r)"
    note b1 = import_blob [OF b h]
    then have "healthy s1" "blobAt s1 key = Some d" using h healthy_touches by auto
    note m = saveManifest_outcome [OF rest this]
    have "touchesImage key s s'" using b1 m touchesImage_trans by blast
    then show ?thesis using b1 m by (auto simp: imported_def)
  }
qed

lemma withKeyLock_outcome:
  assumes "withKeyLock msg l m s = (s', r)"
  shows "(unchanged s s' \<and> isl r) \<or> (\<exists>s1 s2 x. unchanged s s1 \<and> m s1 = (s2, x) \<and> unchanged s2 s' \<and> (r = x \<or> isl r))"
  using assms unfolding withKeyLock_def
proof (rule bindIO_cases)
  fix e assume "mapErr (Wrap msg) (onKernel l) s = (s', Inl e)" "r = Inl e"
  then show ?thesis using readsD [OF reads_mapErr [OF reads_onKernel]] by auto
next
  fix a s1 assume "mapErr (Wrap msg) (onKernel l) s = (s1, Inr a)"
    and "deferring (onKernel (KeyLock_Close a)) m s1 = (s', r)"
  moreover from this(2) have "\<exists>s2 x. m s1 = (s2, x) \<and> unchanged s2 s' \<and> (r = x \<or> isl r)"
    by (rule deferring_cases) (auto dest: readsD [OF reads_onKernel])
  ultimately show ?thesis using readsD [OF reads_mapErr [OF reads_onKernel]] by blast
qed

lemma stocked_other:
  assumes "touchesImage key s s'" and "BlobKey i \<noteq> key"
  shows "stocked cd D s' i = stocked cd D s i"
  using assms by (simp add: stocked_def touchesImage_def touches_def)

lemma importImage_imagesOK:
  assumes run: "importImage cd now latest d im key s = (s', r)" and h: "healthy s" and ok: "imagesOK cd D s"
    and d: "d \<in> D" "collisionFree cd D" "keyToString (imageSum cd d) = Some key" "ManifestFromImage cd d = Inr im"
  shows "imagesOK cd D s'"
proof -
  note out = importImage_outcome [OF run h]
  obtain infos where infos: "holdsACI (committed s) infos" "\<forall>i \<in> set infos. stocked cd D s i"
    using ok by (auto simp: imagesOK_def)
  have old: "stocked cd D s' i" if i: "i \<in> set infos" for i
  proof (cases "BlobKey i = key")
    case False
    then show ?thesis using stocked_other out infos(2) i by blast
  next
    case True
    obtain d0 im0 imj0 where d0: "d0 \<in> D" "blobAt s key = Some d0" "keyToString (imageSum cd d0) = Some key"
      "ManifestFromImage cd d0 = Inr im0" "AppName i = im_Name im0" "marshal cd im0 = Inr imj0" "manifestAt s key = Some imj0"
      using infos(2) i True by (auto simp: stocked_def)
    have "d0 = d" by (rule inj_onD [OF d(2)[unfolded collisionFree_def]]) (use d0 d in simp_all)
    then show ?thesis using d0 out True d by (auto simp: stocked_def)
  qed
  consider "committed s' = committed s" | "imported cd \<lparr>BlobKey = key, AppName = im_Name im, ImportTime = now, Latest = latest\<rparr> d im s s'"
    using out by blast
  then show ?thesis
  proof cases
    case 1
    then show ?thesis using infos(1) old by (auto simp: imagesOK_def)
  next
    case 2
    let ?i = "\<lparr>BlobKey = key, AppName = im_Name im, ImportTime = now, Latest = latest\<rparr>"
    have "stocked cd D s' ?i" using 2 d by (auto simp: stocked_def imported_def)
    moreover have "holdsACI (committed s') (?i # filter (\<lambda>x. BlobKey x \<noteq> key) infos)"
      using 2 infos(1) by (simp add: imported_def)
    ultimately show ?thesis unfolding imagesOK_def
      by (intro exI [of _ "?i # filter (\<lambda>x. BlobKey x \<noteq> key) infos"]) (use old in auto)
  qed
qed

lemma tmpCall_state: "mapErr f (tmpCall c) s = (s', r) \<Longrightarrow> s' = s"
  by (auto simp: tmpCall_def elim!: mapErr_cases split: option.splits)

lemma WriteACI_cases:
  assumes "WriteACI cd kenv now rd latest s = (s', r)"
  shows "(s' = s \<and> isl r) \<or> (\<exists>d im key. decompress cd rd = Inr d \<and> ManifestFromImage cd d = Inr im \<and> keyToString (imageSum cd d) = Some key \<and>
    withKeyLock ''error locking image: '' (ExclusiveKeyLock kenv ImageLocks key) (importImage cd now latest d im key) s = (s', r))"
  using assms unfolding WriteACI_def
  by (auto elim!: bindIO_cases stop_cases dest!: tmpCall_state split: sum.splits option.splits)

lemma WriteACI_imagesOK:
  assumes run: "WriteACI cd kenv now rd latest s = (s', r)" and h: "healthy s" and ok: "imagesOK cd D s"
    and D: "collisionFree cd D" "\<forall>d. decompress cd rd = Inr d \<longrightarrow> d \<in> D"
  shows "imagesOK cd D s'"
proof -
  from WriteACI_cases [OF run] show ?thesis
  proof
    assume "\<exists>d im key. decompress cd rd = Inr d \<and> ManifestFromImage cd d = Inr im \<and> keyToString (imageSum cd d) = Some key \<and>
      withKeyLock ''error locking image: '' (ExclusiveKeyLock kenv ImageLocks key) (importImage cd now latest d im key) s = (s', r)"
    then obtain d im key where d: "d \<in> D" "keyToString (imageSum cd d) = Some key" "ManifestFromImage cd d = Inr im"
      and l: "withKeyLock ''error locking image: '' (ExclusiveKeyLock kenv ImageLocks key) (importImage cd now latest d im key) s = (s', r)"
      using D(2) by blast
    from withKeyLock_outcome [OF l] show ?thesis
    proof
      assume "unchanged s s' \<and> isl r"
      then show ?thesis using imagesOK_unchanged [OF ok] by (simp add: unchanged_def)
    next
      assume "\<exists>s1 s2 x. unchanged s s1 \<and> importImage cd now latest d im key s1 = (s2, x) \<and> unchanged s2 s' \<and> (r = x \<or> isl r)"
      then obtain s1 s2 x where s: "unchanged s s1" "importImage cd now latest d im key s1 = (s2, x)" "unchanged s2 s'" by blast
      then have "healthy s1" "imagesOK cd D s1"
        using h ok unchanged_healthy imagesOK_unchanged unfolding unchanged_def by blast+
      then have "imagesOK cd D s2" using importImage_imagesOK [OF s(2)] d D(1) by blast
      then show ?thesis using imagesOK_unchanged s(3) by (auto simp: unchanged_def)
    qed
  qed (use ok in simp)
qed

text \<open>Removal takes the record away first, and then the files.\<close>

lemma eraseAll_touches:
  assumes "eraseAll kinds key s = (s', r)"
  shows "touchesImage key s s' \<and> committed s' = committed s"
  using assms
proof (induction kinds arbitrary: s r)
  case Nil
  then show ?case by (simp add: io_simps touchesImage_def)
next
  case (Cons kd kinds)
  have one: "touchesImage key s s1 \<and> committed s1 = committed s"
    if "onDiskv kd (diskvErase blockTransform key) s = (s1, x)" for s1 x
    using that erase_outcome [of blockTransform key] by (cases kd) (auto simp: touchesImage_def split: prod.splits)
  obtain s1 x where e: "onDiskv kd (diskvErase blockTransform key) s = (s1, x)" by fastforce
  from Cons.prems show ?case unfolding eraseAll.simps
  proof (rule tryIO_cases)
    fix a s2 assume "onDiskv kd (diskvErase blockTransform key) s = (s2, Inr a)"
      "bindIO (eraseAll kinds key) (\<lambda>es. ret (case Inr a of Inl e \<Rightarrow> e # es | Inr _ \<Rightarrow> es)) s2 = (s', r)"
    then show ?thesis using one Cons.IH touchesImage_trans by (fastforce elim!: bindIO_cases ret_cases)
  next
    fix a s2 assume "onDiskv kd (diskvErase blockTransform key) s = (s2, Inl (Fail a))"
      "bindIO (eraseAll kinds key) (\<lambda>es. ret (case Inl a of Inl e \<Rightarrow> e # es | Inr _ \<Rightarrow> es)) s2 = (s', r)"
    then show ?thesis using one Cons.IH touchesImage_trans by (fastforce elim!: bindIO_cases ret_cases)
  qed (use one in blast)+
qed

lemma RemoveACI_imagesOK:
  assumes run: "RemoveACI kenv key s = (s', r)" and h: "healthy s" and ok: "imagesOK cd D s"
  shows "imagesOK cd D s'"
proof -
  let ?db = "mapErr (Wrap (''cannot remove image with key: '' @ key @ '' from db: '')) (DB_Do1 (removeTx key))"
  let ?body = "bindIO ?db (\<lambda>_. bindIO (eraseAll [BlobType, ImageManifestType] key) (\<lambda>storeErrors.
      if storeErrors \<noteq> [] then fail (StoreRemovalError storeErrors) else ret ()))"
  have body: "imagesOK cd D s2" if b: "?body s1 = (s2, x)" and s1: "healthy s1" "imagesOK cd D s1" for s1 s2 x
  proof -
    obtain infos where infos: "holdsACI (committed s1) infos" "\<forall>i \<in> set infos. stocked cd D s1 i"
      using s1(2) by (auto simp: imagesOK_def)
    have st: "stocked cd D t i = stocked cd D s1 i" if "blobAt t = blobAt s1" "manifestAt t = manifestAt s1" for t i
      using that by (simp add: stocked_def)
    from b show ?thesis
    proof (rule bindIO_cases)
      fix e assume "?db s1 = (s2, Inl e)"
      then obtain e' where e': "DB_Do1 (removeTx key) s1 = (s2, Inl e')" by (auto elim: mapErr_cases)
      then have "committed s2 = committed s1" using DB_Do1_outcome [OF e'] by auto
      moreover have "stocked cd D s2 i = stocked cd D s1 i" for i by (rule st) (simp_all add: DB_Do1_touches [OF e'])
      ultimately show ?thesis using s1(2) by (simp add: imagesOK_def)
    next
      fix u s3 assume "?db s1 = (s3, Inr u)"
        and rest: "bindIO (eraseAll [BlobType, ImageManifestType] key) (\<lambda>storeErrors.
          if storeErrors \<noteq> [] then fail (StoreRemovalError storeErrors) else ret ()) s3 = (s2, x)"
      then have d: "DB_Do1 (removeTx key) s1 = (s3, Inr u)" by (simp add: mapErr_Inr)
      let ?left = "filter (\<lambda>i. BlobKey i \<noteq> key) infos"
      have left: "holdsACI (committed s3) ?left"
        using DB_Do1_outcome [OF d] s1(1) infos(1) removeTx_success [of key "\<lparr>txDB = committed s1, sqlFault = stmtFault s1\<rparr>"]
        by (auto simp: healthy_def)
      have e: "touchesImage key s3 s2 \<and> committed s2 = committed s3"
        using rest by (rule bindIO_cases) (auto simp del: eraseAll.simps dest: eraseAll_touches elim!: ret_cases stop_cases split: if_splits)
      have "stocked cd D s2 i" if "i \<in> set ?left" for i
      proof -
        have "stocked cd D s3 i = stocked cd D s1 i" by (rule st) (simp_all add: DB_Do1_touches [OF d])
        then show ?thesis using that infos(2) stocked_other [of key s3 s2 i cd D] e by simp
      qed
      then show ?thesis unfolding imagesOK_def using left e by (intro exI [of _ ?left]) simp
    qed
  qed
  from withKeyLock_outcome [OF run [unfolded RemoveACI_def]] show ?thesis
  proof
    assume "unchanged s s' \<and> isl r"
    then show ?thesis using imagesOK_unchanged [OF ok] by (simp add: unchanged_def)
  next
    assume "\<exists>s1 s2 x. unchanged s s1 \<and> ?body s1 = (s2, x) \<and> unchanged s2 s' \<and> (r = x \<or> isl r)"
    then obtain s1 s2 x where s: "unchanged s s1" "?body s1 = (s2, x)" "unchanged s2 s'" by blast
    then have "healthy s1" "imagesOK cd D s1"
      using h ok unchanged_healthy imagesOK_unchanged unfolding unchanged_def by blast+
    then have "imagesOK cd D s2" using body [OF s(2)] by blast
    then show ?thesis using imagesOK_unchanged s(3) by (auto simp: unchanged_def)
  qed
qed

section \<open>Histories of a store\<close>

text \<open>A call of one of the store's operations, by this or another process, with its result dropped.\<close>

datatype storeCmd =
    DoWrite string bool int | DoRemove string | DoRead string | DoManifest string | DoGet string "Label list"
  | DoRender string bool | DoCheck string | DoRemoveTree string

definition dropResult :: "'a storeio \<Rightarrow> store \<Rightarrow> store" where
  "dropResult m s = fst (m s)"

fun runCmd :: "imageCodec \<Rightarrow> treeCodec \<Rightarrow> casDir env \<Rightarrow> (string \<Rightarrow> (string \<times> node) list \<times> goerr option) \<Rightarrow> storeCmd \<Rightarrow> store \<Rightarrow> store" where
  "runCmd cd tc kenv render (DoWrite rd latest now) = dropResult (WriteACI cd kenv now rd latest)"
| "runCmd cd tc kenv render (DoRemove key) = dropResult (RemoveACI kenv key)"
| "runCmd cd tc kenv render (DoRead key) = dropResult (ReadStream kenv key)"
| "runCmd cd tc kenv render (DoManifest key) = dropResult (GetImageManifest cd kenv key)"
| "runCmd cd tc kenv render (DoGet name labels) = dropResult (GetACI cd kenv name labels)"
| "runCmd cd tc kenv render (DoRender key rebuild) = dropResult (RenderTreeStore tc kenv render key rebuild)"
| "runCmd cd tc kenv render (DoCheck key) = dropResult (CheckTreeStore tc kenv key)"
| "runCmd cd tc kenv render (DoRemoveTree key) = dropResult (RemoveTreeStore kenv key)"

text \<open>The images that a call may store are among \<open>D\<close>.\<close>

fun within :: "imageCodec \<Rightarrow> string set \<Rightarrow> storeCmd \<Rightarrow> bool" where
  "within cd D (DoWrite rd latest now) \<longleftrightarrow> (case decompress cd rd of Inl _ \<Rightarrow> True | Inr d \<Rightarrow> d \<in> D)"
| "within cd D _ \<longleftrightarrow> True"

text \<open>
  The states that a store can get into: it starts without records; between calls the machine, the
  handle and what fails may change in any way; calls run one after the other.
\<close>

inductive reachable :: "imageCodec \<Rightarrow> string set \<Rightarrow> store \<Rightarrow> bool" for cd D where
  start: "holdsACI (committed s) [] \<Longrightarrow> reachable cd D s"
| change: "reachable cd D s \<Longrightarrow> sameImages s s' \<Longrightarrow> reachable cd D s'"
| call: "reachable cd D s \<Longrightarrow> healthy s \<Longrightarrow> within cd D c \<Longrightarrow> reachable cd D (runCmd cd tc kenv render c s)"

lemma runCmd_imagesOK:
  assumes "healthy s" "imagesOK cd D s" "collisionFree cd D" "within cd D c"
  shows "imagesOK cd D (runCmd cd tc kenv render c s)"
proof -
  have keep: "imagesOK cd D (dropResult m s)" if "reads m" for m :: "'x storeio"
    using readsD [OF that, of s "fst (m s)" "snd (m s)"] imagesOK_unchanged [OF assms(2)]
    by (simp add: dropResult_def unchanged_def)
  show ?thesis
  proof (cases c)
    case (DoWrite rd latest now)
    moreover obtain s' r where run: "WriteACI cd kenv now rd latest s = (s', r)" by fastforce
    moreover have "\<forall>d. decompress cd rd = Inr d \<longrightarrow> d \<in> D" using assms(4) DoWrite by auto
    ultimately show ?thesis using WriteACI_imagesOK [OF run assms(1,2,3)] by (simp add: dropResult_def)
  next
    case (DoRemove key)
    moreover obtain s' r where run: "RemoveACI kenv key s = (s', r)" by fastforce
    ultimately show ?thesis using RemoveACI_imagesOK [OF run assms(1,2)] by (simp add: dropResult_def)
  qed (simp_all add: keep reads_intros)
qed

lemma reachable_imagesOK:
  assumes "reachable cd D s" and "collisionFree cd D"
  shows "imagesOK cd D s"
  using assms
proof (induction rule: reachable.induct)
  case (start s)
  then show ?case by (auto simp: imagesOK_def)
next
  case (change s s')
  then show ?case using imagesOK_unchanged by blast
next
  case (call s c tc kenv render)
  then show ?case using runCmd_imagesOK by blast
qed

text \<open>
  C3. Whatever has been written to a store and removed from it, by whom, and whatever failed on the
  way short of the three failures named in \<open>healthy\<close>: every image on record is there, its contents
  have the digest that is its key, and its name and manifest are those inside it. The images handed
  to the store are assumed not to collide under the truncated digest.
\<close>

theorem store_records_are_backed:
  assumes "reachable cd D s" and "collisionFree cd D"
  shows "\<exists>infos. holdsACI (committed s) infos \<and>
    (\<forall>i \<in> set infos. \<exists>d im imj. d \<in> D \<and> blobAt s (BlobKey i) = Some d \<and> keyToString (imageSum cd d) = Some (BlobKey i) \<and>
       ManifestFromImage cd d = Inr im \<and> AppName i = im_Name im \<and> marshal cd im = Inr imj \<and> manifestAt s (BlobKey i) = Some imj)"
  using reachable_imagesOK [OF assms] by (simp add: imagesOK_def stocked_def)

text \<open>An empty store on a working machine, and images that are their own manifests.\<close>

definition noFaults :: diskv where
  "noFaults = \<lparr>entries = \<lambda>_. None, diskvFault = \<lambda>_. None, torn = ''''\<rparr>"

definition sampleStore :: store where
  "sampleStore = \<lparr>kern = kern sampleDB, db_lock = None, db_sqldb = False, committed = freshDB, dbFault = \<lambda>_. None, stmtFault = \<lambda>_. None,
     blobStore = noFaults, manifestStore = noFaults, tmpFault = \<lambda>_. None,
     treeState = \<lparr>trees = \<lambda>_. None, treeFault = \<lambda>_. None, leftover = \<lambda>_. False\<rparr>\<rparr>"

definition plainManifest :: "string \<Rightarrow> ImageManifest" where
  "plainManifest d = \<lparr>im_Name = d, im_Labels = [], im_Dependencies = [], im_PathWhitelist = [], im_Annotations = []\<rparr>"

definition sampleCodec :: imageCodec where
  "sampleCodec = \<lparr>decompress = Inr, ManifestFromImage = \<lambda>d. Inr (plainManifest d),
     imageSum = \<lambda>d. replicate 64 (of_nat (length d)),
     marshal = \<lambda>im. if im = plainManifest (im_Name im) then Inr (im_Name im) else Inl (Msg ''unsupported''),
     unmarshal = \<lambda>d. Inr (plainManifest d)\<rparr>"

definition sampleTrees :: treeCodec where
  "sampleTrees = \<lparr>encode = \<lambda>fi. h_Name (fi_header fi), sum512 = \<lambda>d. replicate 64 (of_nat (length d))\<rparr>"

definition sampleRender :: "string \<Rightarrow> (string \<times> node) list \<times> goerr option" where
  "sampleRender key = ([(''manifest'', plainFile key)], None)"

definition sampleKey :: string where
  "sampleKey = ''sha512-'' @ concat (replicate 32 ''01'')"

lemma sample_write:
  "snd (WriteACI sampleCodec (\<lambda>_ _ k. k) 7 ''a'' True sampleStore) = Inr sampleKey \<and>
   snd (ReadStream (\<lambda>_ _ k. k) sampleKey (fst (WriteACI sampleCodec (\<lambda>_ _ k. k) 7 ''a'' True sampleStore))) = Inr ''a''"
  by code_simp

lemma sample_collision: "collisionFree sampleCodec {''a''}"
  by (simp add: collisionFree_def)

lemma sample_healthy: "healthy sampleStore"
  by (simp add: healthy_def sampleStore_def noFaults_def)

theorem store_records_are_backed_witness:
  "let s = runCmd sampleCodec sampleTrees (\<lambda>_ _ k. k) sampleRender (DoWrite ''a'' True 7) sampleStore
   in reachable sampleCodec {''a''} s \<and> (\<exists>infos. holdsACI (committed s) infos) \<and> snd (ReadStream (\<lambda>_ _ k. k) sampleKey s) = Inr ''a''"
proof -
  define s where "s = runCmd sampleCodec sampleTrees (\<lambda>_ _ k. k) sampleRender (DoWrite ''a'' True 7) sampleStore"
  have "reachable sampleCodec {''a''} sampleStore"
    by (rule reachable.start) (simp add: sampleStore_def fresh_holds)
  then have r: "reachable sampleCodec {''a''} s" unfolding s_def
    by (rule reachable.call) (simp_all add: sample_healthy sampleCodec_def)
  moreover have "\<exists>infos. holdsACI (committed s) infos"
    using store_records_are_backed [OF r sample_collision] by blast
  moreover have "snd (ReadStream (\<lambda>_ _ k. k) sampleKey s) = Inr ''a''"
    using sample_write by (simp add: s_def dropResult_def)
  ultimately show ?thesis by (simp add: s_def)
qed

text \<open>
  The failures that \<open>healthy\<close> excludes do break the store. After a commit that fails unnoticed,
  \<^verbatim>\<open>RemoveACI\<close> reports success; the image is still on record and resolved, and reading it fails. After
  storing an image again with a write of the manifest that fails half-way, the image is still on
  record, and a wrong manifest is read for it.
\<close>

theorem excluded_failures_break_store:
  "let kenv = (\<lambda>_ _ k. k); s = fst (WriteACI sampleCodec kenv 7 ''a'' True sampleStore);
       r = RemoveACI kenv sampleKey (s\<lparr>dbFault := (\<lambda>_. None)(DbCommit := Some (Errno EIO))\<rparr>);
       w = WriteACI sampleCodec kenv 9 ''a'' True (s\<lparr>manifestStore := (manifestStore s)\<lparr>diskvFault := (\<lambda>_. None)(IoCopy := Some (PathError EIO))\<rparr>\<rparr>)
   in snd r = Inr () \<and> snd (ResolveKey sampleKey (fst r)) = Inr sampleKey \<and>
      snd (ReadStream kenv sampleKey (fst r)) = Inl (Fail (PathError ENOENT)) \<and>
      isl (snd w) \<and> snd (ResolveKey sampleKey (fst w)) = Inr sampleKey \<and>
      snd (GetImageManifest sampleCodec kenv sampleKey (fst w)) = Inr (plainManifest '''')"
  by code_simp

section \<open>Rendered images\<close>

lemma complete_check:
  assumes "complete tc render w key" "cleanRender render"
  shows "TreeStore_IsRendered key (w\<lparr>treeFault := \<lambda>_. None\<rparr>) = (w\<lparr>treeFault := \<lambda>_. None\<rparr>, Inr True) \<and>
    TreeStore_Check tc key (w\<lparr>treeFault := \<lambda>_. None\<rparr>) = (w\<lparr>treeFault := \<lambda>_. None\<rparr>, Inr ())"
proof -
  let ?w = "w\<lparr>treeFault := \<lambda>_. None\<rparr>"
  obtain h where t: "trees w key = Some (putFile renderedfilename '''' (putFile hashfilename h (fst (render key))))"
    and h: "keyToString (sum512 tc (buildWalker (encode tc) Map.empty (fst (render key)))) = Some h"
    using assms(1) by (auto simp: complete_def)
  have "TreeStore_Hash tc key ?w = (?w, Inr h)"
    using t h by (simp add: TreeStore_Hash_def io_simps mapErr_def treeCall_def getTree_def walker_ignored)
  then show ?thesis using t
    by (simp add: TreeStore_Check_def TreeStore_IsRendered_def statRendered_def unlessMissing_def io_simps mapErr_def treeCall_def
        getTree_def putFile_lookup plainFile_def)
qed

text \<open>
  When \<^verbatim>\<open>RenderTreeStore\<close> has succeeded in rendering an image anew, the image is rendered and passes
  its check: the hash that is stored is the hash of what is there.
\<close>

theorem render_then_check:
  assumes "cleanRender render" and "RenderTreeStore tc kenv render key True s = (s', Inr ())"
  shows "complete tc render (treeState s') key \<and>
    (let w = (treeState s')\<lparr>treeFault := \<lambda>_. None\<rparr>
     in TreeStore_IsRendered key w = (w, Inr True) \<and> TreeStore_Check tc key w = (w, Inr ()))"
proof -
  have kern_tree: "treeState s2 = treeState s1" if "onKernel m s1 = (s2, x)" for m :: "(casDir, 'x) gofs" and s1 s2 x
    using that by (auto elim!: onKernel_cases)
  let ?body = "bindIO (onTrees (TreeStore_Remove key)) (\<lambda>_. onTrees (TreeStore_Write tc render key))"
  obtain l s1 where "mapErr (Wrap ''error locking tree store: '') (onKernel (ExclusiveKeyLock kenv TreeLocks key)) s = (s1, Inr l)"
    and d: "deferring (onKernel (KeyLock_Close l)) ?body s1 = (s', Inr ())"
    using assms(2) unfolding RenderTreeStore_def withKeyLock_def by (auto simp: bindIO_ret elim!: bindIO_Inr)
  from d obtain s2 where "?body s1 = (s2, Inr ())" and t: "treeState s' = treeState s2"
    by (rule deferring_cases) (auto dest: kern_tree)
  then obtain s3 where "onTrees (TreeStore_Write tc render key) s3 = (s2, Inr ())" by (auto elim!: bindIO_Inr)
  then have "TreeStore_Write tc render key (treeState s3) = (treeState s2, Inr ())"
    by (auto simp: onTrees_def split: prod.splits)
  from TreeStore_Write_outcome [OF assms(1) this] have "complete tc render (treeState s') key" using t by auto
  then show ?thesis using complete_check [OF _ assms(1)] by (simp add: Let_def)
qed

theorem render_then_check_witness:
  "\<exists>s'. RenderTreeStore sampleTrees (\<lambda>_ _ k. k) sampleRender sampleKey True sampleStore = (s', Inr ()) \<and>
     complete sampleTrees sampleRender (treeState s') sampleKey"
proof -
  have clean: "cleanRender sampleRender"
    by (simp add: cleanRender_def sampleRender_def flagged_def renderedfilename_def hashfilename_def)
  have "snd (RenderTreeStore sampleTrees (\<lambda>_ _ k. k) sampleRender sampleKey True sampleStore) = Inr ()" by code_simp
  then obtain s' where run: "RenderTreeStore sampleTrees (\<lambda>_ _ k. k) sampleRender sampleKey True sampleStore = (s', Inr ())"
    by (metis prod.collapse)
  from render_then_check [OF clean run] run show ?thesis by blast
qed

end
