(* ===== verification/Store_Queries.thy ===== *)
theory Store_Queries
  imports Store_Facts
begin

text \<open>
  Finding and reading images: which key an abbreviated key stands for, that what is read is what was
  asked for, and which of the images that match a request is chosen.
\<close>

section \<open>Resolving and reading\<close>

lemma scan_all: "scanRows scanACIInfo (map aciRow infos) t = (t, Inr infos)"
  by (induction infos) (simp_all add: io_simps)

lemma queries_calm:
  assumes "calm t" and "holdsACI (txDB t) infos"
  shows "GetACIInfosWithKeyPrefix k t = (t, Inr (filter (\<lambda>i. hasPrefix (BlobKey i) k) infos))"
    and "GetACIInfosWithAppName n t =
      (t, Inr (filter (\<lambda>i. AppName i = n) infos, filter (\<lambda>i. AppName i = n) infos \<noteq> []))"
  using assms
  by (auto simp: GetACIInfosWithKeyPrefix_def GetACIInfosWithAppName_def queryACIInfos_def io_simps txQuery_def rowsErr_def
      holdsACI_def onTable_def knows_aci filter_map comp_def scan_all)

lemma plain_queries: "plainSuccess (GetACIInfosWithKeyPrefix k)" "plainSuccess (GetACIInfosWithAppName n)"
  unfolding GetACIInfosWithKeyPrefix_def GetACIInfosWithAppName_def queryACIInfos_def by (intro plain_intros)+

text \<open>The keys on record that an abbreviated key may stand for.\<close>

definition matches :: "ACIInfo list \<Rightarrow> string \<Rightarrow> ACIInfo list" where
  "matches infos key0 = filter (\<lambda>i. hasPrefix (BlobKey i) (take lenKey key0)) infos"

definition wellFormedKey :: "string \<Rightarrow> bool" where
  "wellFormedKey key0 \<longleftrightarrow> hasPrefix key0 hashPrefix \<and> minlenKey \<le> length key0"

lemma distinct_single: "distinct xs \<Longrightarrow> set xs = {k} \<longleftrightarrow> xs = [k]"
  by (cases xs; cases "tl xs") auto

lemma ResolveKey_run:
  "ResolveKey key0 s =
     (if \<not> hasPrefix key0 hashPrefix then (s, Inl (Fail (Msg ''wrong key prefix'')))
      else if length key0 < minlenKey then (s, Inl (Fail (Msg ''key too short'')))
      else case DB_Do1 (GetACIInfosWithKeyPrefix (take lenKey key0)) s of
        (s1, Inl (Fail e)) \<Rightarrow> (s1, Inl (Fail (Wrap ''error retrieving ACI Infos: '' e)))
      | (s1, Inl (Panic p)) \<Rightarrow> (s1, Inl (Panic p))
      | (s1, Inl Block) \<Rightarrow> (s1, Inl Block)
      | (s1, Inr is) \<Rightarrow>
          (s1, case is of [] \<Rightarrow> Inl (Fail ErrKeyNotFound) | [i] \<Rightarrow> Inr (BlobKey i)
             | _ \<Rightarrow> Inl (Fail (Msg (''ambiguous key: '' @ quoted (take lenKey key0))))))"
proof -
  have "(if length key0 > lenKey then take lenKey key0 else key0) = take lenKey key0" by simp
  then show ?thesis
    by (auto simp: ResolveKey_def Let_def io_simps mapErr_def split: prod.splits sum.splits stop.splits list.splits)
qed

lemma ResolveKey_found:
  assumes run: "ResolveKey key0 s = (s', Inr key)" and db: "holdsACI (committed s) infos"
  shows "wellFormedKey key0 \<and> (\<exists>i. matches infos key0 = [i] \<and> BlobKey i = key)"
proof -
  let ?k = "take lenKey key0" and ?t = "\<lparr>txDB = committed s, sqlFault = stmtFault s\<rparr>"
  obtain s1 x where q: "DB_Do1 (GetACIInfosWithKeyPrefix ?k) s = (s1, x)" by fastforce
  then have w: "wellFormedKey key0" and "\<exists>i. x = Inr [i] \<and> BlobKey i = key"
    using run by (auto simp: ResolveKey_run wellFormedKey_def split: if_splits sum.splits stop.splits list.splits)
  then obtain i where x: "x = Inr [i]" and i: "BlobKey i = key" by blast
  obtain t where "GetACIInfosWithKeyPrefix ?k ?t = (t, Inr [i])"
    using DB_Do1_outcome [OF q] x by auto
  then have "GetACIInfosWithKeyPrefix ?k (calmed ?t) = (calmed t, Inr [i])"
    using plain_queries(1) unfolding plainSuccess_def by blast
  then have "[i] = matches infos key0"
    using queries_calm(1) [of "calmed ?t" infos ?k] db by (simp add: matches_def)
  then show ?thesis using i w by metis
qed

lemma ResolveKey_ready:
  assumes "dbReady s" and "stmtFault s = (\<lambda>_. None)" and "holdsACI (committed s) infos" and "wellFormedKey key0"
  shows "ResolveKey key0 s = (dbAfter s (committed s),
    case matches infos key0 of [] \<Rightarrow> Inl (Fail ErrKeyNotFound) | [i] \<Rightarrow> Inr (BlobKey i)
      | _ \<Rightarrow> Inl (Fail (Msg (''ambiguous key: '' @ quoted (take lenKey key0)))))"
proof -
  let ?k = "take lenKey key0" and ?t = "\<lparr>txDB = committed s, sqlFault = stmtFault s\<rparr>"
  have "GetACIInfosWithKeyPrefix ?k ?t = (?t, Inr (matches infos key0))"
    using queries_calm(1) [of ?t infos ?k] assms(2,3) by (simp add: matches_def)
  from DB_Do1_ready [OF assms(1), of "GetACIInfosWithKeyPrefix ?k", OF this]
  have "DB_Do1 (GetACIInfosWithKeyPrefix ?k) s = (dbAfter s (committed s), Inr (matches infos key0))" by simp
  then show ?thesis using assms(4) by (simp add: ResolveKey_run wellFormedKey_def)
qed

text \<open>
  C33. A key resolves to \<open>k\<close> exactly when it is a hash of two digits or more and \<open>k\<close> is the one key on
  record that begins with it; digits beyond the length of a key do not count.
\<close>

theorem ResolveKey_iff_unique:
  assumes "dbReady s" and "stmtFault s = (\<lambda>_. None)" and "holdsACI (committed s) infos"
  shows "(\<exists>s'. ResolveKey key0 s = (s', Inr k)) \<longleftrightarrow>
    hasPrefix key0 hashPrefix \<and> minlenKey \<le> length key0 \<and>
    {key \<in> BlobKey ` set infos. hasPrefix key (take lenKey key0)} = {k}"
proof (cases "wellFormedKey key0")
  case False
  then show ?thesis by (auto simp: ResolveKey_run wellFormedKey_def)
next
  case True
  let ?ms = "matches infos key0"
  have set: "{key \<in> BlobKey ` set infos. hasPrefix key (take lenKey key0)} = set (map BlobKey ?ms)"
    by (auto simp: matches_def)
  have "distinct (map BlobKey ?ms)" using assms(3) by (simp add: holdsACI_def matches_def distinct_map_filter)
  then have one: "set (map BlobKey ?ms) = {k} \<longleftrightarrow> map BlobKey ?ms = [k]"
    by (rule distinct_single)
  have "(\<exists>s'. ResolveKey key0 s = (s', Inr k)) \<longleftrightarrow> map BlobKey ?ms = [k]"
    using ResolveKey_ready [OF assms True] by (auto split: list.splits)
  with one set True show ?thesis by (simp add: wellFormedKey_def)
qed

text \<open>A store with two images on record.\<close>

definition sampleInfos :: "ACIInfo list" where
  "sampleInfos = [\<lparr>BlobKey = sampleKey, AppName = ''a'', ImportTime = 7, Latest = True\<rparr>,
     \<lparr>BlobKey = ''sha512-'' @ concat (replicate 32 ''02''), AppName = ''bb'', ImportTime = 9, Latest = False\<rparr>]"

definition stockedStore :: store where
  "stockedStore = sampleStore\<lparr>committed := freshDB(''aciinfo'' \<mapsto> \<lparr>columns = aciCols, rows = map aciRow sampleInfos, uniques = [''blobkey'']\<rparr>)\<rparr>"

lemma stocked_ready: "dbReady stockedStore" "stmtFault stockedStore = (\<lambda>_. None)" "holdsACI (committed stockedStore) sampleInfos"
proof -
  have "kern stockedStore = kern sampleDB" "dbFault stockedStore = dbFault sampleDB"
    by (simp_all add: stockedStore_def sampleStore_def sampleDB_def)
  then show "dbReady stockedStore"
    using sample_ready unfolding dbReady_def by (simp add: stockedStore_def sampleStore_def)
  have "sampleKey \<noteq> ''sha512-'' @ concat (replicate 32 ''02'')" by code_simp
  then show "holdsACI (committed stockedStore) sampleInfos"
    by (simp add: stockedStore_def holdsACI_def sampleInfos_def)
qed (simp add: stockedStore_def sampleStore_def)

theorem ResolveKey_iff_unique_witness:
  "(\<exists>s'. ResolveKey ''sha512-01'' stockedStore = (s', Inr sampleKey)) \<and> \<not> (\<exists>s' k. ResolveKey ''sha512-0'' stockedStore = (s', Inr k))"
proof -
  have "{key \<in> BlobKey ` set sampleInfos. hasPrefix key (take lenKey ''sha512-01'')} = {sampleKey}"
    by code_simp
  moreover have "hasPrefix ''sha512-01'' hashPrefix" "minlenKey \<le> length ''sha512-01''" "\<not> minlenKey \<le> length ''sha512-0''"
    by (simp_all add: hasPrefix_def hashPrefix_def minlenKey_def)
  ultimately show ?thesis
    using ResolveKey_iff_unique [OF stocked_ready, of "''sha512-01''" sampleKey] ResolveKey_iff_unique [OF stocked_ready, of "''sha512-0''"]
    by simp
qed

lemma keyToString_shape: "keyToString d = Some key \<Longrightarrow> length key = lenKey \<and> hasPrefix key hashPrefix"
  by (auto simp: keyToString_def lenKey_def lenHash_def hashPrefix_def hasPrefix_def split: if_splits)

lemma matches_full:
  assumes "holdsACI db infos" and "\<forall>i \<in> set infos. stocked cd D s i" and "i \<in> set infos"
  shows "matches infos (BlobKey i) = [i]"
proof -
  have shape: "length (BlobKey j) = lenKey" if "j \<in> set infos" for j
    using assms(2) that keyToString_shape by (auto simp: stocked_def)
  have "hasPrefix (BlobKey j) (take lenKey (BlobKey i)) \<longleftrightarrow> BlobKey j = BlobKey i" if "j \<in> set infos" for j
    using shape [OF that] shape [OF assms(3)] by (simp add: hasPrefix_def)
  then have "matches infos (BlobKey i) = filter (\<lambda>j. BlobKey j = BlobKey i) infos"
    unfolding matches_def by (rule filter_cong [OF refl])
  also have "\<dots> = [i]"
  proof -
    have d: "distinct (map BlobKey infos)" using assms(1) by (simp add: holdsACI_def)
    then have "inj_on BlobKey (set infos)" "distinct infos" by (simp_all add: distinct_map)
    then have "set (filter (\<lambda>j. BlobKey j = BlobKey i) infos) = {i}" using assms(3) by (auto dest: inj_onD)
    then show ?thesis using distinct_single \<open>distinct infos\<close> by (metis distinct_filter)
  qed
  finally show ?thesis .
qed

text \<open>What reading a key gives, if it gives anything.\<close>

lemma ReadStream_found:
  assumes "ReadStream kenv key0 s = (s', Inr v)" and "holdsACI (committed s) infos"
  shows "\<exists>i. matches infos key0 = [i] \<and> blobAt s (BlobKey i) = Some v"
proof -
  obtain key s1 where r: "ResolveKey key0 s = (s1, Inr key)"
    and l: "withKeyLock ''error locking image: '' (SharedKeyLock kenv ImageLocks key) (onDiskv BlobType (diskvReadStream blockTransform key)) s1 = (s', Inr v)"
    using assms(1) unfolding ReadStream_def by (auto simp: mapErr_Inr elim!: bindIO_Inr)
  obtain i where i: "matches infos key0 = [i]" "BlobKey i = key" using ResolveKey_found [OF r assms(2)] by blast
  obtain s2 s3 where u: "unchanged s1 s2" "onDiskv BlobType (diskvReadStream blockTransform key) s2 = (s3, Inr v)"
    using withKeyLock_outcome [OF l] by auto
  then have "blobAt s2 key = Some v" using readStream_outcome [of blockTransform key "blobStore s2"] by (auto split: prod.splits)
  then show ?thesis using unchanged_at [OF readsD [OF reads_ResolveKey r]] unchanged_at [OF u(1)] i by auto
qed

lemma GetImageManifest_found:
  assumes "GetImageManifest cd kenv key0 s = (s', Inr im)" and "holdsACI (committed s) infos"
  shows "\<exists>i imj. matches infos key0 = [i] \<and> manifestAt s (BlobKey i) = Some imj \<and> unmarshal cd imj = Inr im"
proof -
  let ?body = "\<lambda>key. bindIO (mapErr (Wrap ''error retrieving image manifest: '') (onDiskv ImageManifestType (diskvRead blockTransform key))) (\<lambda>imj.
        case unmarshal cd imj of Inl e \<Rightarrow> fail (Wrap ''error unmarshalling image manifest: '' e) | Inr im \<Rightarrow> ret im)"
  obtain key s1 where r: "ResolveKey key0 s = (s1, Inr key)"
    and l: "withKeyLock ''error locking image: '' (SharedKeyLock kenv ImageLocks key) (?body key) s1 = (s', Inr im)"
    using assms(1) unfolding GetImageManifest_def by (auto simp: mapErr_Inr elim!: bindIO_Inr)
  obtain i where i: "matches infos key0 = [i]" "BlobKey i = key" using ResolveKey_found [OF r assms(2)] by blast
  obtain s2 s3 where u: "unchanged s1 s2" "?body key s2 = (s3, Inr im)"
    using withKeyLock_outcome [OF l] by auto
  from u(2) obtain imj s4 where "onDiskv ImageManifestType (diskvRead blockTransform key) s2 = (s4, Inr imj)"
    and im: "unmarshal cd imj = Inr im"
    by (rule bindIO_Inr) (auto simp: mapErr_Inr io_simps split: sum.splits)
  then have "manifestAt s2 key = Some imj" using read_outcome [of blockTransform key "manifestStore s2"] by (auto split: prod.splits)
  then show ?thesis using unchanged_at [OF readsD [OF reads_ResolveKey r]] unchanged_at [OF u(1)] i im by auto
qed

text \<open>The JSON codec reads back what it wrote.\<close>

definition jsonOK :: "imageCodec \<Rightarrow> bool" where
  "jsonOK cd \<longleftrightarrow> (\<forall>im imj. marshal cd im = Inr imj \<longrightarrow> unmarshal cd imj = Inr im)"

text \<open>
  C14. What is read from a store is what was asked for: the contents that \<^verbatim>\<open>ReadStream\<close> returns have a
  digest that begins with the key that was given, and \<^verbatim>\<open>GetImageManifest\<close> returns the manifest inside
  the image with such a digest.
\<close>

theorem reads_match_digest:
  assumes "reachable cd D s" and "collisionFree cd D" and "jsonOK cd"
  shows "(\<forall>s' v. ReadStream kenv key0 s = (s', Inr v) \<longrightarrow>
      (\<exists>key. keyToString (imageSum cd v) = Some key \<and> hasPrefix key (take lenKey key0))) \<and>
    (\<forall>s' im. GetImageManifest cd kenv key0 s = (s', Inr im) \<longrightarrow>
      (\<exists>d key. ManifestFromImage cd d = Inr im \<and> keyToString (imageSum cd d) = Some key \<and> hasPrefix key (take lenKey key0)))"
proof -
  obtain infos where infos: "holdsACI (committed s) infos" "\<forall>i \<in> set infos. stocked cd D s i"
    using reachable_imagesOK [OF assms(1,2)] by (auto simp: imagesOK_def)
  have m: "i \<in> set infos \<and> hasPrefix (BlobKey i) (take lenKey key0)" if "matches infos key0 = [i]" for i
  proof -
    have "i \<in> set (matches infos key0)" using that by simp
    then show ?thesis by (simp add: matches_def)
  qed
  show ?thesis
  proof (intro conjI allI impI)
    fix s' v assume "ReadStream kenv key0 s = (s', Inr v)"
    from ReadStream_found [OF this infos(1)] obtain i where i: "matches infos key0 = [i]" "blobAt s (BlobKey i) = Some v" by blast
    then show "\<exists>key. keyToString (imageSum cd v) = Some key \<and> hasPrefix key (take lenKey key0)"
      using m [OF i(1)] infos(2) by (auto simp: stocked_def)
  next
    fix s' im assume "GetImageManifest cd kenv key0 s = (s', Inr im)"
    from GetImageManifest_found [OF this infos(1)]
    obtain i imj where i: "matches infos key0 = [i]" "manifestAt s (BlobKey i) = Some imj" "unmarshal cd imj = Inr im" by blast
    then obtain d im' where "keyToString (imageSum cd d) = Some (BlobKey i)" "ManifestFromImage cd d = Inr im'" "marshal cd im' = Inr imj"
      using m [OF i(1)] infos(2) by (auto simp: stocked_def)
    then show "\<exists>d key. ManifestFromImage cd d = Inr im \<and> keyToString (imageSum cd d) = Some key \<and> hasPrefix key (take lenKey key0)"
      using assms(3) i(3) m [OF i(1)] by (metis jsonOK_def Inr_inject)
  qed
qed

lemma sample_reachable:
  "reachable sampleCodec {''a''} (runCmd sampleCodec sampleTrees (\<lambda>_ _ k. k) sampleRender (DoWrite ''a'' True 7) sampleStore)"
proof -
  have "reachable sampleCodec {''a''} sampleStore"
    by (rule reachable.start) (simp add: sampleStore_def fresh_holds)
  then show ?thesis
    by (rule reachable.call) (simp_all add: sample_healthy sampleCodec_def)
qed

theorem reads_match_digest_witness:
  "\<exists>s s' key. ReadStream (\<lambda>_ _ k. k) sampleKey s = (s', Inr ''a'') \<and>
     keyToString (imageSum sampleCodec ''a'') = Some key \<and> hasPrefix key sampleKey"
proof -
  let ?s = "runCmd sampleCodec sampleTrees (\<lambda>_ _ k. k) sampleRender (DoWrite ''a'' True 7) sampleStore"
  have "snd (ReadStream (\<lambda>_ _ k. k) sampleKey ?s) = Inr ''a''"
    using sample_write by (simp add: dropResult_def)
  then obtain s' where read: "ReadStream (\<lambda>_ _ k. k) sampleKey ?s = (s', Inr ''a'')" by (metis prod.collapse)
  have "jsonOK sampleCodec" by (auto simp: jsonOK_def sampleCodec_def split: if_splits)
  from reads_match_digest [OF sample_reachable sample_collision this] read
  have "\<exists>key. keyToString (imageSum sampleCodec ''a'') = Some key \<and> hasPrefix key (take lenKey sampleKey)" by blast
  moreover have "take lenKey sampleKey = sampleKey" by code_simp
  ultimately show ?thesis using read by metis
qed

section \<open>The image that is chosen\<close>

text \<open>Whether \<open>j\<close> is to be preferred to \<open>i\<close>: marked as latest, unless a version is requested, then by time.\<close>

definition better :: "bool \<Rightarrow> ACIInfo \<Rightarrow> ACIInfo \<Rightarrow> bool" where
  "better versionRequested i j \<longleftrightarrow> (\<not> versionRequested \<and> Latest j \<and> \<not> Latest i) \<or>
     ((versionRequested \<or> Latest i = Latest j) \<and> ImportTime i < ImportTime j)"

definition bestOf :: "bool \<Rightarrow> (ACIInfo \<Rightarrow> bool) \<Rightarrow> ACIInfo set \<Rightarrow> ACIInfo option \<Rightarrow> bool" where
  "bestOf v W S c \<longleftrightarrow> (case c of
      None \<Rightarrow> \<forall>j \<in> S. \<not> W j
    | Some i \<Rightarrow> i \<in> S \<and> W i \<and> (\<forall>j \<in> S. W j \<longrightarrow> \<not> better v i j))"

lemma pickACI_better: "pickACI v (Some cur) i = (if better v cur i then i else cur)"
  by (auto simp: pickACI_def better_def)

lemma better_trans: "better v cur i \<Longrightarrow> \<not> better v cur j \<Longrightarrow> \<not> better v i j"
  by (auto simp: better_def)

lemma bestOf_skip: "bestOf v W S cur \<Longrightarrow> \<not> W i \<Longrightarrow> bestOf v W (insert i S) cur"
  by (auto simp: bestOf_def split: option.splits)

lemma bestOf_pick: "bestOf v W S cur \<Longrightarrow> W i \<Longrightarrow> bestOf v W (insert i S) (Some (pickACI v cur i))"
proof (cases cur)
  case None
  then show "bestOf v W S cur \<Longrightarrow> W i \<Longrightarrow> ?thesis" by (auto simp: bestOf_def pickACI_def better_def)
next
  case (Some c)
  then show "bestOf v W S cur \<Longrightarrow> W i \<Longrightarrow> ?thesis"
    by (auto simp: bestOf_def pickACI_better dest: better_trans) (auto simp: better_def)
qed

text \<open>The image of a record has the labels.\<close>

definition hasThese :: "imageCodec \<Rightarrow> store \<Rightarrow> Label list \<Rightarrow> ACIInfo \<Rightarrow> bool" where
  "hasThese cd s labels i \<longleftrightarrow>
     (\<exists>d im. blobAt s (BlobKey i) = Some d \<and> ManifestFromImage cd d = Inr im \<and> hasLabels labels im)"

lemma GetImageManifest_own:
  assumes "holdsACI (committed s) infos" "\<forall>i \<in> set infos. stocked cd D s i" "jsonOK cd" "i \<in> set infos"
    and "GetImageManifest cd kenv (BlobKey i) s = (s', Inr im)"
  shows "hasThese cd s labels i \<longleftrightarrow> hasLabels labels im"
proof -
  have "matches infos (BlobKey i) = [i]" using matches_full [OF assms(1,2,4)] .
  then obtain imj where imj: "manifestAt s (BlobKey i) = Some imj" "unmarshal cd imj = Inr im"
    using GetImageManifest_found [OF assms(5,1)] by auto
  obtain d im' where d: "blobAt s (BlobKey i) = Some d" "ManifestFromImage cd d = Inr im'" "marshal cd im' = Inr imj"
    using assms(2,4) imj(1) by (auto simp: stocked_def)
  then have "im' = im" using assms(3) imj(2) by (auto simp: jsonOK_def)
  then show ?thesis using d by (auto simp: hasThese_def)
qed

lemma chooseACI_best:
  assumes "chooseACI cd kenv labels v todo cur s = (s', Inr res)"
    and "holdsACI (committed s) infos" "\<forall>i \<in> set infos. stocked cd D s i" "jsonOK cd" "set todo \<subseteq> set infos"
    and "bestOf v (hasThese cd s labels) S cur"
  shows "bestOf v (hasThese cd s labels) (S \<union> set todo) res"
  using assms
proof (induction todo arbitrary: cur s S)
  case Nil
  then show ?case by (simp add: io_simps)
next
  case (Cons i todo)
  from Cons.prems(1) obtain im s1 where im: "GetImageManifest cd kenv (BlobKey i) s = (s1, Inr im)"
    and rest: "(if \<not> hasLabels labels im then chooseACI cd kenv labels v todo cur
      else chooseACI cd kenv labels v todo (Some (pickACI v cur i))) s1 = (s', Inr res)"
    unfolding chooseACI.simps by (rule bindIO_Inr) (auto simp: mapErr_Inr)
  have own: "hasThese cd s labels i \<longleftrightarrow> hasLabels labels im"
    using GetImageManifest_own [OF Cons.prems(2-4) _ im] Cons.prems(5) by simp
  note u = unchanged_at [OF readsD [OF reads_GetImageManifest im]]
  have W: "hasThese cd s1 labels = hasThese cd s labels" using u by (simp add: fun_eq_iff hasThese_def)
  have st: "holdsACI (committed s1) infos" "\<forall>i \<in> set infos. stocked cd D s1 i"
    using Cons.prems(2,3) u by (simp_all add: stocked_def)
  note IH = Cons.IH [OF _ st Cons.prems(4) _, unfolded W]
  show ?case
  proof (cases "hasLabels labels im")
    case True
    then show ?thesis using IH [OF _ _ bestOf_pick [OF Cons.prems(6)]] rest own Cons.prems(5) by simp
  next
    case False
    then show ?thesis using IH [OF _ _ bestOf_skip [OF Cons.prems(6)]] rest own Cons.prems(5) by simp
  qed
qed

text \<open>
  C18. \<^verbatim>\<open>GetACI\<close> returns the best image: one on record with the requested name whose own manifest has
  all the requested labels, and such that no other one is to be preferred, by being marked as the
  latest if no version is requested, and otherwise by having been imported later.
\<close>

theorem GetACI_returns_best:
  assumes "reachable cd D s" and "collisionFree cd D" and "jsonOK cd" and "holdsACI (committed s) infos"
    and "GetACI cd kenv name labels s = (s', Inr key)"
  shows "\<exists>i \<in> set infos. BlobKey i = key \<and> AppName i = name \<and> hasThese cd s labels i \<and>
    (\<forall>j \<in> set infos. AppName j = name \<and> hasThese cd s labels j \<longrightarrow>
       \<not> better (Labels_Get labels ''version'' \<noteq> None) i j)"
proof -
  obtain is0 where "holdsACI (committed s) is0" "\<forall>i \<in> set is0. stocked cd D s i"
    using reachable_imagesOK [OF assms(1,2)] by (auto simp: imagesOK_def)
  moreover have "is0 = infos" if "holdsACI (committed s) is0" for is0
    using that assms(4) by (auto simp: holdsACI_def aciRow_def dest!: map_injective intro!: injI ACIInfo.equality)
  ultimately have st: "\<forall>i \<in> set infos. stocked cd D s i" by blast
  let ?v = "Labels_Get labels ''version'' \<noteq> None" and ?named = "filter (\<lambda>i. AppName i = name) infos"
  obtain s1 aciinfos found cur s2 where q: "DB_Do1 (GetACIInfosWithAppName name) s = (s1, Inr (aciinfos, found))"
    and c: "chooseACI cd kenv labels ?v aciinfos None s1 = (s2, Inr cur)"
    and k: "\<exists>i. cur = Some i \<and> BlobKey i = key"
    using assms(5) unfolding GetACI_def Let_def
    by (fastforce simp: io_simps elim!: bindIO_Inr split: option.splits prod.splits)
  let ?t = "\<lparr>txDB = committed s, sqlFault = stmtFault s\<rparr>"
  obtain t where "GetACIInfosWithAppName name ?t = (t, Inr (aciinfos, found))" using DB_Do1_outcome [OF q] by auto
  then have "GetACIInfosWithAppName name (calmed ?t) = (calmed t, Inr (aciinfos, found))"
    using plain_queries(2) unfolding plainSuccess_def by blast
  then have named: "aciinfos = ?named" using queries_calm(2) [of "calmed ?t" infos name] assms(4) by simp
  note u = unchanged_at [OF readsD [OF reads_query [OF pureTx_queries(2)] q]]
  have W: "hasThese cd s1 labels = hasThese cd s labels" using u by (simp add: fun_eq_iff hasThese_def)
  have "holdsACI (committed s1) infos" "\<forall>i \<in> set infos. stocked cd D s1 i"
    using assms(4) st u by (simp_all add: stocked_def)
  from chooseACI_best [OF c this assms(3), of "{}"] named W
  have "bestOf ?v (hasThese cd s labels) (set ?named) cur" by (auto simp: bestOf_def)
  then show ?thesis using k by (auto simp: bestOf_def)
qed

theorem GetACI_returns_best_witness:
  "\<exists>s s' i. GetACI sampleCodec (\<lambda>_ _ k. k) ''a'' [] s = (s', Inr sampleKey) \<and> BlobKey i = sampleKey \<and> AppName i = ''a'' \<and>
     hasThese sampleCodec s [] i"
proof -
  let ?s = "runCmd sampleCodec sampleTrees (\<lambda>_ _ k. k) sampleRender (DoWrite ''a'' True 7) sampleStore"
  have "snd (GetACI sampleCodec (\<lambda>_ _ k. k) ''a'' [] ?s) = Inr sampleKey" by code_simp
  then obtain s' where get: "GetACI sampleCodec (\<lambda>_ _ k. k) ''a'' [] ?s = (s', Inr sampleKey)" by (metis prod.collapse)
  have json: "jsonOK sampleCodec" by (auto simp: jsonOK_def sampleCodec_def split: if_splits)
  obtain infos where infos: "holdsACI (committed ?s) infos"
    using reachable_imagesOK [OF sample_reachable sample_collision] by (auto simp: imagesOK_def)
  from GetACI_returns_best [OF sample_reachable sample_collision json infos get] get show ?thesis by blast
qed

end
