(* ===== verification/Image_Fetch.thy ===== *)
theory Image_Fetch
  imports Fetch_Keys Store_Queries
begin

text \<open>
  Finding and fetching images, \<^verbatim>\<open>rkt/images.go\<close> and \<^verbatim>\<open>rkt/fetch.go\<close>. A fetch looks for the image in the
  store, discovers where it is, downloads it with its signature, checks the signature against the
  trusted keys and writes the image to the store; then the same for its dependencies. The state has the
  store beside the keys and the requests made. The conversion of docker images, the decoders and the clock are
  parameters; so are the files named on the command line, which are regular files. What is only printed is
  left out.
\<close>

section \<open>State and parameters\<close>

text \<open>
  \<open>dockerConvert\<close> takes the registry's URL, a user and a password and yields, for every file it makes, what
  opening that file gives.
\<close>

record fetchEnv = keyEnv +
  pgp :: openpgp
  gflags :: globalFlagsT
  codec :: imageCodec
  others :: "casDir env"
  statFile :: "string \<Rightarrow> goerr option"
  absPath :: "string \<Rightarrow> goerr + string"
  tmpFileErr :: "goerr option"
  tmpDirErr :: "goerr option"
  nowAt :: "nat \<Rightarrow> int"
  dockerTag :: "string \<Rightarrow> string \<Rightarrow> string"
  GetIndexName :: "string \<Rightarrow> string"
  dockerConvert :: "string \<Rightarrow> string \<Rightarrow> string \<Rightarrow> goerr + (goerr + string) list"
  defaultArch :: string
  defaultOS :: string
  rktVersion :: string

record fetchWorld = keyWorld +
  fstore :: store
  ticks :: nat

type_synonym 'a fetchio = "(fetchWorld, goerr, 'a) io"

text \<open>The credentials of a host are lists of values per header.\<close>

record fetcher =
  f_ks :: "ksConfig option"
  f_headers :: "string \<Rightarrow> (string \<times> string list) list option"
  f_dockerAuth :: "string \<Rightarrow> (string \<times> string) option"
  f_insecureSkipVerify :: bool
  f_local :: bool
  f_withDeps :: bool

definition onStore :: "'a storeio \<Rightarrow> 'a fetchio" where
  "onStore m w = (case m (fstore w) of (s, r) \<Rightarrow> (w\<lparr>fstore := s\<rparr>, r))"

definition timeNow :: "fetchEnv \<Rightarrow> int fetchio" where
  "timeNow env w = (w\<lparr>ticks := Suc (ticks w)\<rparr>, Inr (nowAt env (ticks w)))"

section \<open>Caching\<close>

record cacheData =
  cd_useCached :: bool
  cd_etag :: string
  cd_maxAge :: int

definition maxAgeStep :: "int \<Rightarrow> string \<Rightarrow> int" where
  "maxAgeStep MaxAge part =
     (let attr = takeWhile (\<lambda>c. c \<noteq> CHR ''='') part;
          val = drop (Suc (length attr)) part;
          lowerAttr = toLower attr
      in if lowerAttr = ''no-store'' then 0
         else if lowerAttr = ''no-cache'' then 0
         else if lowerAttr = ''max-age'' then
           (case atoi val of
              None \<Rightarrow> MaxAge
            | Some secs \<Rightarrow> if secs \<noteq> 0 \<and> hd val = CHR ''0'' then MaxAge else if secs \<le> 0 then 0 else secs)
         else MaxAge)"

definition getMaxAge :: "string \<Rightarrow> int" where
  "getMaxAge headerValue =
     (if length headerValue > 0 then foldl maxAgeStep 0 (splitOn CHR '' '' headerValue) else 0)"

text \<open>
  \<^verbatim>\<open>Time.Sub\<close> on times in nanoseconds saturates at the ends of 64 bits; \<^verbatim>\<open>Duration.Seconds\<close>, here without the
  rounding of its floating point number, is cut to whole seconds towards zero.
\<close>

definition subTime :: "int \<Rightarrow> int \<Rightarrow> int" where
  "subTime t u = max (- (2 ^ 63)) (min (2 ^ 63 - 1) (t - u))"

definition wholeSeconds :: "int \<Rightarrow> int" where
  "wholeSeconds d = (if d < 0 then - ((- d) div 1000000000) else d div 1000000000)"

definition useCached :: "int \<Rightarrow> int \<Rightarrow> int \<Rightarrow> bool" where
  "useCached now downloadTime maxAge \<longleftrightarrow> maxAge > 0 \<and> wholeSeconds (subTime now downloadTime) < maxAge"

section \<open>Downloads\<close>

text \<open>\<^verbatim>\<open>errStatusAccepted\<close>, with which callers compare, is a value of its own.\<close>

datatype download = StatusAccepted | Downloaded cacheData string

definition acceptedErr :: goerr where "acceptedErr = Msg ''server is still processing the request''"

definition credentials :: "fetcher \<Rightarrow> urlT \<Rightarrow> (string \<times> string) list" where
  "credentials f u =
     (if Scheme u = ''https'' then
        (case f_headers f (Host u) of Some h \<Rightarrow> concat (map (\<lambda>(k, v). map (Pair k) v) h) | None \<Rightarrow> [])
      else [])"

definition aciRequest :: "fetcher \<Rightarrow> fetchEnv \<Rightarrow> string \<Rightarrow> urlT \<Rightarrow> string \<Rightarrow> httpReq" where
  "aciRequest f env url u etag =
     \<lparr>rq_url = url,
      rq_headers = credentials f u @ (if etag \<noteq> '''' then [(''If-None-Match'', etag)] else []) @ [(''User-Agent'', ''rkt/'' @ rktVersion env)],
      rq_insecure = f_insecureSkipVerify f\<rparr>"

definition downloadHTTP :: "fetcher \<Rightarrow> fetchEnv \<Rightarrow> string \<Rightarrow> string \<Rightarrow> string \<Rightarrow> download fetchio" where
  "downloadHTTP f env url label etag =
     (case urlParse env url of
        None \<Rightarrow> fail (Msg ''parse error'')
      | Some u \<Rightarrow>
          bindIO (sendRequest env (aciRequest f env url u etag)) (\<lambda>res.
          if StatusCode res = 202 then ret StatusAccepted
          else if StatusCode res = 200 \<or> StatusCode res = 304 then
            (let cd = \<lparr>cd_useCached = (StatusCode res = 304), cd_etag = h_ETag res, cd_maxAge = getMaxAge (h_CacheControl res)\<rparr> in
             if cd_useCached cd then ret (Downloaded cd '''')
             else case bodyErr res of
               Some e \<Rightarrow> fail (Wrap (''error copying '' @ label @ '': '') e)
             | None \<Rightarrow> ret (Downloaded cd (respBody res)))
          else fail (Msg (''bad HTTP status code: '' @ itoa (StatusCode res)))))"

definition downloadACI :: "fetcher \<Rightarrow> fetchEnv \<Rightarrow> string \<Rightarrow> string \<Rightarrow> (cacheData \<times> string) fetchio" where
  "downloadACI f env aciurl etag =
     bindIO (downloadHTTP f env aciurl ''ACI'' etag) (\<lambda>d.
     case d of StatusAccepted \<Rightarrow> fail acceptedErr | Downloaded cd c \<Rightarrow> ret (cd, c))"

text \<open>The contents of the signature file, or \<open>None\<close> if the server asks to come back.\<close>

definition downloadSignatureFile :: "fetcher \<Rightarrow> fetchEnv \<Rightarrow> string \<Rightarrow> string option fetchio" where
  "downloadSignatureFile f env sigurl =
     bindIO (downloadHTTP f env sigurl ''signature'' '''') (\<lambda>d.
     case d of StatusAccepted \<Rightarrow> ret None | Downloaded _ c \<Rightarrow> ret (Some c))"

section \<open>Fetching and verifying\<close>

text \<open>\<open>Fetched\<close> has the signer, the contents of the image file and what the server said of caching it.\<close>

datatype fetched = UseCached | Fetched "entity option" string "cacheData option"

definition fetchDocker :: "fetcher \<Rightarrow> fetchEnv \<Rightarrow> string \<Rightarrow> fetched fetchio" where
  "fetchDocker f env aciURL =
     (let registryURL = trimPrefix aciURL ''docker://'' in
      case tmpDirErr env of
        Some e \<Rightarrow> fail (Wrap ''error creating temporary dir for docker to ACI conversion: '' e)
      | None \<Rightarrow>
          let (user, password) = (case f_dockerAuth f (GetIndexName env registryURL) of Some creds \<Rightarrow> creds | None \<Rightarrow> ('''', '''')) in
          (case dockerConvert env registryURL user password of
             Inl e \<Rightarrow> fail (Wrap ''error converting docker image to ACI: '' e)
           | Inr [] \<Rightarrow> panic ''index out of range''
           | Inr (Inl e # _) \<Rightarrow> fail (Wrap ''error opening squashed ACI file: '' e)
           | Inr (Inr c # _) \<Rightarrow> ret (Fetched None c None)))"

text \<open>Keys that are available over TLS; what goes wrong is only reported.\<close>

definition fetchKeys :: "fetchEnv \<Rightarrow> string \<Rightarrow> unit fetchio" where
  "fetchKeys env appName =
     (if gf_TrustKeysFromHttps (gflags env) \<and> \<not> gf_InsecureSkipVerify (gflags env) \<and> appName \<noteq> '''' then
        tryIO (getPubKeyLocations env appName False) (\<lambda>r.
        case r of
          Inl _ \<Rightarrow> ret ()
        | Inr pkls \<Rightarrow> tryIO (addKeys (pgp env) env (gflags env) pkls appName False True False) (\<lambda>_. ret ()))
      else ret ())"

text \<open>The signature, and whether it has to be downloaded again later.\<close>

definition getSignature :: "fetcher \<Rightarrow> fetchEnv \<Rightarrow> string \<Rightarrow> string option \<Rightarrow> (bool \<times> string option) fetchio" where
  "getSignature f env ascURL ascFile =
     (if f_ks f \<noteq> None \<and> ascFile = None then
        (case urlParse env ascURL of
           None \<Rightarrow> fail (Msg ''error parsing ASC url'')
         | Some u \<Rightarrow>
             if Scheme u = ''file'' then
               (case localFile env (Path u) of
                  Inl e \<Rightarrow> fail (Wrap ''error opening signature file: '' e)
                | Inr c \<Rightarrow> ret (False, Some c))
             else case tmpFileErr env of
               Some e \<Rightarrow> fail (Wrap ''error setting up temporary file: '' e)
             | None \<Rightarrow>
                 bindIO (mapErr (Wrap ''error downloading the signature file: '') (downloadSignatureFile f env ascURL)) (\<lambda>r.
                 case r of None \<Rightarrow> ret (True, Some '''') | Some c \<Rightarrow> ret (False, Some c)))
      else ret (False, ascFile))"

text \<open>\<^verbatim>\<open>Keystore.CheckSignature\<close> on the keys as they are now; seeking in a file that is nil is an error.\<close>

definition CheckSignature :: "fetchEnv \<Rightarrow> ksConfig \<Rightarrow> string \<Rightarrow> string \<Rightarrow> string option \<Rightarrow> (sigErr + entity) fetchio" where
  "CheckSignature env ks name dat ascFile w =
     (case ascFile of
        None \<Rightarrow> (w, Inl (Fail (Wrap ''error seeking signature file: '' (Msg ''invalid argument''))))
      | Some sig \<Rightarrow> (w, Inr (checkSignature (pgp env) ks name dat sig (keyTree w))))"

fun sigGoErr :: "sigErr \<Rightarrow> goerr" where
  "sigGoErr SigEOF = Msg ''EOF''"
| "sigGoErr (SignatureError m) = Msg (''openpgp: invalid signature: '' @ m)"
| "sigGoErr (SigOther e) = e"

text \<open>Whether the signer is known, before a possibly expensive download: the signature is checked against no data.\<close>

definition precheck :: "fetcher \<Rightarrow> fetchEnv \<Rightarrow> string \<Rightarrow> bool \<Rightarrow> string option \<Rightarrow> unit fetchio" where
  "precheck f env appName retrySignature ascFile =
     (case f_ks f of
        Some ks \<Rightarrow>
          if \<not> retrySignature \<and> appName \<noteq> '''' then
            bindIO (CheckSignature env ks appName '''' ascFile) (\<lambda>r.
            case r of
              Inl (SignatureError _) \<Rightarrow> ret ()
            | Inl e \<Rightarrow> fail (sigGoErr e)
            | Inr _ \<Rightarrow> ret ())
          else ret ()
      | None \<Rightarrow> ret ())"

text \<open>The image file; \<open>None\<close> stands for one that has not changed since it was cached.\<close>

definition getACIFile :: "fetcher \<Rightarrow> fetchEnv \<Rightarrow> urlT \<Rightarrow> string \<Rightarrow> string \<Rightarrow> (string \<times> cacheData option) option fetchio" where
  "getACIFile f env u aciURL etag =
     (if Scheme u = ''file'' then
        (case localFile env (Path u) of
           Inl e \<Rightarrow> fail (Wrap ''error opening ACI file: '' e)
         | Inr c \<Rightarrow> ret (Some (c, None)))
      else case tmpFileErr env of
        Some e \<Rightarrow> fail (Wrap ''error setting up temporary file: '' e)
      | None \<Rightarrow>
          bindIO (mapErr (Wrap ''error downloading ACI: '') (downloadACI f env aciURL etag)) (\<lambda>(cd, c).
          if cd_useCached cd then ret None else ret (Some (c, Some cd))))"

definition retrySignatureFile :: "fetcher \<Rightarrow> fetchEnv \<Rightarrow> string \<Rightarrow> bool \<Rightarrow> string option \<Rightarrow> string option fetchio" where
  "retrySignatureFile f env ascURL retrySignature ascFile =
     (if retrySignature then
        bindIO (mapErr (Wrap ''error downloading the signature file: '') (downloadSignatureFile f env ascURL)) (\<lambda>r.
        case r of None \<Rightarrow> fail (Wrap ''error downloading the signature file: '' acceptedErr) | Some c \<Rightarrow> ret (Some c))
      else ret ascFile)"

definition verifyACI :: "fetcher \<Rightarrow> fetchEnv \<Rightarrow> string \<Rightarrow> string \<Rightarrow> string option \<Rightarrow> entity option fetchio" where
  "verifyACI f env appName aci ascFile =
     (case ManifestFromImage (codec env) aci of
        Inl e \<Rightarrow> fail e
      | Inr manifest \<Rightarrow>
          if appName \<noteq> '''' \<and> im_Name manifest \<noteq> appName then fail (Msg (''error when reading the app name: '' @ quoted appName @ '' expected but '' @ quoted (im_Name manifest) @ '' found''))
          else case f_ks f of
            None \<Rightarrow> ret None
          | Some ks \<Rightarrow>
              bindIO (CheckSignature env ks (im_Name manifest) aci ascFile) (\<lambda>r.
              case r of Inl e \<Rightarrow> fail (sigGoErr e) | Inr entity \<Rightarrow> ret (Some entity)))"

definition fetch :: "fetcher \<Rightarrow> fetchEnv \<Rightarrow> string \<Rightarrow> string \<Rightarrow> string \<Rightarrow> string option \<Rightarrow> string \<Rightarrow> fetched fetchio" where
  "fetch f env appName aciURL ascURL ascFile0 etag =
     (case urlParse env aciURL of
        None \<Rightarrow> fail (Msg ''error parsing ACI url'')
      | Some u \<Rightarrow>
          if Scheme u = ''docker'' then fetchDocker f env aciURL
          else
            bindIO (fetchKeys env appName) (\<lambda>_.
            bindIO (getSignature f env ascURL ascFile0) (\<lambda>(retrySignature, ascFile1).
            bindIO (precheck f env appName retrySignature ascFile1) (\<lambda>_.
            bindIO (getACIFile f env u aciURL etag) (\<lambda>r.
            case r of
              None \<Rightarrow> ret UseCached
            | Some (aci, cd) \<Rightarrow>
                bindIO (retrySignatureFile f env ascURL retrySignature ascFile1) (\<lambda>ascFile.
                bindIO (verifyACI f env appName aci ascFile) (\<lambda>entity.
                ret (Fetched entity aci cd))))))))"

section \<open>From a reference to an image in the store\<close>

definition ascURLFromImgURL :: "string \<Rightarrow> string" where
  "ascURLFromImgURL imgurl = trimSuffix imgurl ''.aci'' @ ''.aci.asc''"

definition withLabel :: "string \<Rightarrow> string \<Rightarrow> App \<Rightarrow> App" where
  "withLabel n v app = (if map_of (app_Labels app) n = None then app\<lparr>app_Labels := app_Labels app @ [(n, v)]\<rparr> else app)"

definition newDiscoveryApp :: "fetchEnv \<Rightarrow> string \<Rightarrow> App option" where
  "newDiscoveryApp env img =
     (case NewAppFromString img of
        Inl _ \<Rightarrow> None
      | Inr app \<Rightarrow>
          (case urlParse env (app_Name app) of
             None \<Rightarrow> None
           | Some u \<Rightarrow>
               if Scheme u \<noteq> '''' then None
               else Some (withLabel ''os'' (defaultOS env) (withLabel ''arch'' (defaultArch env) app))))"

definition discoverApp :: "fetchEnv \<Rightarrow> App \<Rightarrow> bool \<Rightarrow> Endpoints fetchio" where
  "discoverApp env app insecure =
     bindIO (DiscoverEndpoints env app insecure) (\<lambda>(attempts, r).
     case r of
       Inl e \<Rightarrow> fail e
     | Inr ep \<Rightarrow> if length (ACIEndpoints ep) = 0 then fail (Msg ''no endpoints discovered'') else ret ep)"

definition getStoreKeyFromApp :: "fetchEnv \<Rightarrow> string \<Rightarrow> string fetchio" where
  "getStoreKeyFromApp env img =
     (case NewAppFromString img of
        Inl e \<Rightarrow> fail (Wrap ''cannot parse the image name: '' (Msg e))
      | Inr app \<Rightarrow>
          (case LabelsFromMap (app_Labels app) of
             Inl e \<Rightarrow> fail (Wrap ''invalid labels in the name: '' (Msg e))
           | Inr labels \<Rightarrow> mapErr (Wrap ''cannot find image: '') (onStore (GetACI (codec env) (others env) (app_Name app) labels))))"

definition getStoreKeyFromAppOrHash :: "fetchEnv \<Rightarrow> string \<Rightarrow> string fetchio" where
  "getStoreKeyFromAppOrHash env input =
     (case NewHash input of
        Inr _ \<Rightarrow> mapErr (Wrap ''cannot resolve key: '') (onStore (ResolveKey input))
      | Inl _ \<Rightarrow> mapErr (Wrap ''cannot find image: '') (getStoreKeyFromApp env input))"

text \<open>The remote on record for a URL, and the key of its image if that is to be used.\<close>

definition cachedRemote :: "fetcher \<Rightarrow> fetchEnv \<Rightarrow> string \<Rightarrow> (Remote option \<times> string option) fetchio" where
  "cachedRemote f env aciURL =
     bindIO (onStore (GetRemote aciURL)) (\<lambda>rem.
     case rem of
       None \<Rightarrow> if f_local f then fail (Msg (''url '' @ aciURL @ '' not available in local store'')) else ret (None, None)
     | Some r \<Rightarrow>
         if f_local f then ret (rem, Some (r_BlobKey r))
         else bindIO (timeNow env) (\<lambda>now.
              if useCached now (DownloadTime r) (CacheMaxAge r) then ret (rem, Some (r_BlobKey r)) else ret (rem, None)))"

definition storeACI :: "fetchEnv \<Rightarrow> string \<Rightarrow> string \<Rightarrow> string \<Rightarrow> bool \<Rightarrow> string \<Rightarrow> cacheData option \<Rightarrow> string fetchio" where
  "storeACI env aciURL ascURL scheme latest aci cd =
     bindIO (timeNow env) (\<lambda>importTime.
     bindIO (onStore (WriteACI (codec env) (others env) importTime aci latest)) (\<lambda>key.
     if scheme \<noteq> ''file'' then
       bindIO (timeNow env) (\<lambda>now.
       let rem = (NewRemote aciURL ascURL)\<lparr>r_BlobKey := key, DownloadTime := now\<rparr>;
           rem' = (case cd of Some d \<Rightarrow> rem\<lparr>ETag := cd_etag d, CacheMaxAge := cd_maxAge d\<rparr> | None \<Rightarrow> rem)
       in bindIO (onStore (WriteRemote rem')) (\<lambda>_. ret key))
     else ret key))"

definition fetchImageFrom :: "fetcher \<Rightarrow> fetchEnv \<Rightarrow> string \<Rightarrow> string \<Rightarrow> string \<Rightarrow> string \<Rightarrow> string option \<Rightarrow> bool \<Rightarrow> string fetchio" where
  "fetchImageFrom f env appName aciURL ascURL scheme ascFile latest =
     (if \<not> f_insecureSkipVerify f \<and> scheme = ''docker'' then
        fail (Msg ''signature verification for docker images is not supported (try --insecure-skip-verify)'')
      else
        bindIO (if f_local f \<and> scheme \<noteq> ''file'' \<or> scheme \<noteq> ''file'' \<and> \<not> latest then cachedRemote f env aciURL else ret (None, None)) (\<lambda>(rem, hit).
        case hit of
          Some key \<Rightarrow> ret key
        | None \<Rightarrow>
            bindIO (fetch f env appName aciURL ascURL ascFile (case rem of Some r \<Rightarrow> ETag r | None \<Rightarrow> '''')) (\<lambda>x.
            case x of
              UseCached \<Rightarrow>
                (case rem of Some r \<Rightarrow> ret (r_BlobKey r) | None \<Rightarrow> panic ''asked to use cached image but remote is nil'')
            | Fetched entity aci cd \<Rightarrow> storeACI env aciURL ascURL scheme latest aci cd)))"

definition fetchImageFromStore :: "fetchEnv \<Rightarrow> string \<Rightarrow> string fetchio" where
  "fetchImageFromStore env img = getStoreKeyFromApp env img"

definition fetchImageFromEndpoints :: "fetcher \<Rightarrow> fetchEnv \<Rightarrow> string \<Rightarrow> Endpoints \<Rightarrow> string option \<Rightarrow> bool \<Rightarrow> string fetchio" where
  "fetchImageFromEndpoints f env appName ep ascFile latest =
     (case ACIEndpoints ep of
        [] \<Rightarrow> panic ''index out of range''
      | e # _ \<Rightarrow> fetchImageFrom f env appName (ACI e) (ASC e) '''' ascFile latest)"

definition fetchImageFromURL :: "fetcher \<Rightarrow> fetchEnv \<Rightarrow> string \<Rightarrow> string \<Rightarrow> string option \<Rightarrow> bool \<Rightarrow> string fetchio" where
  "fetchImageFromURL f env imgurl scheme ascFile latest =
     fetchImageFrom f env '''' imgurl (ascURLFromImgURL imgurl) scheme ascFile latest"

text \<open>A reference whose path is a local file becomes a \<^verbatim>\<open>file\<close> URL, whatever its scheme is.\<close>

definition localPath :: "fetchEnv \<Rightarrow> string \<Rightarrow> urlT \<Rightarrow> urlT fetchio" where
  "localPath env img u =
     (case statFile env (Path u) of
        None \<Rightarrow>
          (case absPath env (Path u) of
             Inl e \<Rightarrow> fail (Wrap ''unable to get abs path: '' e)
           | Inr p \<Rightarrow> ret (u\<lparr>Path := p, Scheme := ''file''\<rparr>))
      | Some e \<Rightarrow> if \<not> osIsNotExist e then fail (Wrap (''unable to access '' @ quoted img @ '': '') e) else ret u)"

definition fetchByURL :: "fetcher \<Rightarrow> fetchEnv \<Rightarrow> string \<Rightarrow> urlT \<Rightarrow> string option \<Rightarrow> string fetchio" where
  "fetchByURL f env img u ascFile =
     (if Scheme u \<in> {''http'', ''https'', ''file''} then fetchImageFromURL f env (urlText env u) (Scheme u) ascFile False
      else if Scheme u = ''docker'' then
        fetchImageFromURL f env (urlText env u) (Scheme u) ascFile (dockerTag env (Host u) (Path u) = ''latest'')
      else fail (Msg (''rkt only supports http, https, docker or file URLs ('' @ img @ '')'')))"

definition openAsc :: "fetcher \<Rightarrow> fetchEnv \<Rightarrow> string \<Rightarrow> string option fetchio" where
  "openAsc f env asc =
     (if asc \<noteq> '''' \<and> f_ks f \<noteq> None then
        (case localFile env asc of Inl e \<Rightarrow> fail (Wrap ''unable to open signature file: '' e) | Inr c \<Rightarrow> ret (Some c))
      else ret None)"

definition fetchSingleImage :: "fetcher \<Rightarrow> fetchEnv \<Rightarrow> string \<Rightarrow> string \<Rightarrow> bool \<Rightarrow> string fetchio" where
  "fetchSingleImage f env img asc discover =
     bindIO (openAsc f env asc) (\<lambda>ascFile.
     case urlParse env img of
       None \<Rightarrow> fail (Msg (''not a valid image reference ('' @ img @ '')''))
     | Some u0 \<Rightarrow>
         bindIO (localPath env img u0) (\<lambda>u.
         case (if discover \<and> Scheme u = '''' then newDiscoveryApp env img else None) of
           None \<Rightarrow> fetchByURL f env img u ascFile
         | Some app \<Rightarrow>
             if f_local f then fetchImageFromStore env img
             else tryIO (discoverApp env app True) (\<lambda>r.
                  case r of
                    Inl discoveryError \<Rightarrow> fetchImageFromStore env img
                  | Inr ep \<Rightarrow> fetchImageFromEndpoints f env (app_Name app) ep ascFile (map_of (app_Labels app) ''version'' = None))))"

section \<open>Dependencies\<close>

definition getImageDeps :: "fetchEnv \<Rightarrow> string \<Rightarrow> Dependency list fetchio" where
  "getImageDeps env hash =
     bindIO (onStore (ResolveKey hash)) (\<lambda>key.
     bindIO (onStore (GetImageManifest (codec env) (others env) key)) (\<lambda>im.
     ret (im_Dependencies im)))"

text \<open>
  The queue and the names seen, with the error: a name that was seen before is queued, then reported. A
  Go map prints in any order; here the labels keep theirs.
\<close>

fun addDeps :: "string \<Rightarrow> Dependency list \<Rightarrow> string list \<Rightarrow> string list \<Rightarrow> string list \<times> string list \<times> goerr option" where
  "addDeps hash [] imgsl seen = (imgsl, seen, None)"
| "addDeps hash (d # dependencies) imgsl seen =
     (case NewApp (ImageName d) (Labels_ToMap (dep_Labels d)) of
        Inl e \<Rightarrow> (imgsl, seen, Some (Msg e))
      | Inr app \<Rightarrow>
          if App_String app \<in> set seen
          then (imgsl @ [App_String app], seen, Some (Msg (''dependency '' @ App_String app @ '' specified multiple times in the dependency tree for imageID: '' @ hash)))
          else addDeps hash dependencies (imgsl @ [App_String app]) (App_String app # seen))"

definition addImageDeps :: "fetchEnv \<Rightarrow> string \<Rightarrow> string list \<Rightarrow> string list \<Rightarrow> (string list \<times> string list \<times> goerr option) fetchio" where
  "addImageDeps env hash imgsl seen =
     tryIO (getImageDeps env hash) (\<lambda>r.
     case r of Inl e \<Rightarrow> ret (imgsl, seen, Some e) | Inr dependencies \<Rightarrow> ret (addDeps hash dependencies imgsl seen))"

text \<open>The loop over the queue, whose error from \<^verbatim>\<open>addImageDeps\<close> is dropped; \<open>None\<close> when the fuel is used up.\<close>

primrec depLoop :: "nat \<Rightarrow> fetcher \<Rightarrow> fetchEnv \<Rightarrow> string list \<Rightarrow> string list \<Rightarrow> unit option fetchio" where
  "depLoop 0 f env imgsl seen = ret None"
| "depLoop (Suc fuel) f env imgsl seen =
     (case imgsl of
        [] \<Rightarrow> ret (Some ())
      | img # rest \<Rightarrow>
          bindIO (fetchSingleImage f env img '''' True) (\<lambda>hash.
          bindIO (addImageDeps env hash rest seen) (\<lambda>(imgsl', seen', err).
          depLoop fuel f env imgsl' seen')))"

definition fetchImageDeps :: "nat \<Rightarrow> fetcher \<Rightarrow> fetchEnv \<Rightarrow> string \<Rightarrow> unit option fetchio" where
  "fetchImageDeps fuel f env hash =
     bindIO (addImageDeps env hash [] []) (\<lambda>(imgsl, seen, err). depLoop fuel f env imgsl seen)"

definition fetchImage :: "nat \<Rightarrow> fetcher \<Rightarrow> fetchEnv \<Rightarrow> string \<Rightarrow> string \<Rightarrow> bool \<Rightarrow> string option fetchio" where
  "fetchImage fuel f env img asc discover =
     (if f_withDeps f \<and> \<not> discover then fail (Msg ''cannot fetch image's dependencies with discovery disabled'')
      else
        bindIO (fetchSingleImage f env img asc discover) (\<lambda>hash.
        if f_withDeps f then bindIO (fetchImageDeps fuel f env hash) (\<lambda>r. ret (map_option (\<lambda>_. hash) r))
        else ret (Some hash)))"

section \<open>Finding images\<close>

definition findImage :: "nat \<Rightarrow> fetcher \<Rightarrow> fetchEnv \<Rightarrow> string \<Rightarrow> string \<Rightarrow> bool \<Rightarrow> Hash option fetchio" where
  "findImage fuel f env img asc discover =
     (case NewHash img of
        Inr _ \<Rightarrow>
          bindIO (mapErr (Wrap ''could not resolve key: '') (onStore (ResolveKey img))) (\<lambda>fullKey.
          case NewHash fullKey of Inl e \<Rightarrow> panic e | Inr h \<Rightarrow> ret (Some h))
      | Inl _ \<Rightarrow>
          bindIO (fetchImage fuel f env img asc discover) (\<lambda>r.
          case r of
            None \<Rightarrow> ret None
          | Some key \<Rightarrow> (case NewHash key of Inl e \<Rightarrow> panic e | Inr h \<Rightarrow> ret (Some h))))"

text \<open>The apps of a command line: the image reference and the signature file of each.\<close>

primrec findImages :: "nat \<Rightarrow> fetcher \<Rightarrow> fetchEnv \<Rightarrow> (string \<times> string) list \<Rightarrow> Hash list option fetchio" where
  "findImages fuel f env [] = ret (Some [])"
| "findImages fuel f env (app # apps) =
     bindIO (findImage fuel f env (fst app) (snd app) True) (\<lambda>r.
     case r of
       None \<Rightarrow> ret None
     | Some h \<Rightarrow> bindIO (findImages fuel f env apps) (\<lambda>hs. ret (map_option ((#) h) hs)))"

end
