(* ===== verification/Image_Fetch_Facts.thy ===== *)
theory Image_Fetch_Facts
  imports Image_Fetch
begin

text \<open>
  What fetching an image does: which images get into the store, which requests are made and with what
  credentials, when a cached image is used, and when the loop over the dependencies ends.
\<close>

section \<open>Invariants of a fetch\<close>

text \<open>
  An invariant that requests, the clock, reads of the store, remotes and keys keep, and that images keep
  which satisfy \<open>okACI\<close>: verified ones, or any if there is nothing to verify with.
\<close>

locale fetch_invariant =
  fixes I :: "fetchWorld \<Rightarrow> bool" and f :: fetcher and env :: fetchEnv and okACI :: "string \<Rightarrow> bool"
  assumes keep_ticks: "I w \<Longrightarrow> I (w\<lparr>ticks := n\<rparr>)"
    and keep_plain: "I w \<Longrightarrow> I (w\<lparr>requests := requests w @ [plainRequest url]\<rparr>)"
    and keep_aci: "I w \<Longrightarrow> urlParse env url = Some u \<Longrightarrow> I (w\<lparr>requests := requests w @ [aciRequest f env url u etag]\<rparr>)"
    and keep_reads: "I w \<Longrightarrow> unchanged (fstore w) s \<Longrightarrow> I (w\<lparr>fstore := s\<rparr>)"
    and keep_remote: "I w \<Longrightarrow> WriteRemote rm (fstore w) = (s, r) \<Longrightarrow> I (w\<lparr>fstore := s\<rparr>)"
    and keep_write: "I w \<Longrightarrow> okACI aci \<Longrightarrow> WriteACI (codec env) (others env) t aci latest (fstore w) = (s, r') \<Longrightarrow> I (w\<lparr>fstore := s\<rparr>)"
    and keep_keys: "invIO I (fetchKeys env appName) (\<lambda>_. True)"
    and ok_signed: "I w \<Longrightarrow> f_ks f = Some ks \<Longrightarrow> ManifestFromImage (codec env) aci = Inr im \<Longrightarrow>
      checkSignature (pgp env) ks (im_Name im) aci sig (keyTree w) = Inr ent \<Longrightarrow> okACI aci"
    and ok_unverified: "f_ks f = None \<Longrightarrow> okACI aci"
    and ok_docker: "dockerConvert env url user password = Inr (Inr aci # rest) \<Longrightarrow> okACI aci"
begin

lemma inv_timeNow [inv_intros]: "invIO I (timeNow env) (\<lambda>_. True)"
  by (rule invIOI) (auto simp: timeNow_def keep_ticks)

lemma inv_reads: "reads m \<Longrightarrow> invIO I (onStore m) (\<lambda>_. True)"
  by (rule invIOI) (auto simp: onStore_def dest: readsD intro: keep_reads split: prod.splits)

lemma inv_remote [inv_intros]: "invIO I (onStore (WriteRemote rm)) (\<lambda>_. True)"
  by (rule invIOI) (auto simp: onStore_def intro: keep_remote split: prod.splits)

lemma inv_write: "okACI aci \<Longrightarrow> invIO I (onStore (WriteACI (codec env) (others env) t aci latest)) (\<lambda>_. True)"
  by (rule invIOI) (auto simp: onStore_def intro: keep_write split: prod.splits)

lemma inv_discover [inv_intros]: "invIO I (discoverApp env app b) (\<lambda>_. True)"
  unfolding discoverApp_def DiscoverEndpoints_def
  by (auto intro!: inv_intros inv_discoverWith keep_plain split: prod.splits sum.splits)

lemma inv_download [inv_intros]: "invIO I (downloadHTTP f env url label etag) (\<lambda>_. True)"
proof (cases "urlParse env url")
  case (Some u)
  have "invIO I (sendRequest env (aciRequest f env url u etag)) (\<lambda>_. True)"
    using Some by (intro invIOI) (auto simp: sendRequest_def keep_aci)
  then show ?thesis using Some unfolding downloadHTTP_def by (auto simp: Let_def intro!: inv_intros split: option.splits)
qed (auto simp: downloadHTTP_def intro: inv_intros)

lemma inv_files [inv_intros]:
  "invIO I (downloadACI f env url etag) (\<lambda>_. True)" "invIO I (downloadSignatureFile f env url) (\<lambda>_. True)"
  unfolding downloadACI_def downloadSignatureFile_def by (auto intro!: inv_intros split: download.splits)

lemma inv_local [inv_intros]:
  "invIO I (openAsc f env asc) (\<lambda>_. True)" "invIO I (localPath env img u) (\<lambda>_. True)" "invIO I (getSignature f env ascURL ascFile) (\<lambda>_. True)"
  "invIO I (retrySignatureFile f env ascURL b ascFile) (\<lambda>_. True)" "invIO I (getACIFile f env u aciURL etag) (\<lambda>_. True)"
  unfolding openAsc_def localPath_def getSignature_def retrySignatureFile_def getACIFile_def
  by (auto intro!: inv_intros split: sum.splits option.splits prod.splits)

lemma inv_check: "invIO I (CheckSignature env ks name dat asc)
    (\<lambda>r. \<exists>w sig. I w \<and> r = checkSignature (pgp env) ks name dat sig (keyTree w))"
  by (rule invIOI) (auto simp: CheckSignature_def split: option.splits)

lemma inv_precheck [inv_intros]: "invIO I (precheck f env appName b asc) (\<lambda>_. True)"
  unfolding precheck_def by (auto intro!: inv_intros invIO_weaken [OF inv_check] split: option.splits sum.splits sigErr.splits)

lemma inv_verify: "invIO I (verifyACI f env appName aci asc) (\<lambda>_. okACI aci)"
proof (cases "ManifestFromImage (codec env) aci")
  case (Inr im)
  show ?thesis
  proof (cases "f_ks f")
    case None
    then show ?thesis using Inr ok_unverified by (auto simp: verifyACI_def intro!: inv_intros)
  next
    case (Some ks)
    have "invIO I (bindIO (CheckSignature env ks (im_Name im) aci asc)
        (\<lambda>r. case r of Inl e \<Rightarrow> fail (sigGoErr e) | Inr entity \<Rightarrow> ret (Some entity))) (\<lambda>_. okACI aci)"
    proof (rule invIO_bind [OF inv_check])
      fix r assume "\<exists>w sig. I w \<and> r = checkSignature (pgp env) ks (im_Name im) aci sig (keyTree w)"
      then show "invIO I (case r of Inl e \<Rightarrow> fail (sigGoErr e) | Inr entity \<Rightarrow> ret (Some entity)) (\<lambda>_. okACI aci)"
        using ok_signed [OF _ Some Inr] by (cases r) (auto intro!: inv_intros dest: sym)
    qed
    then show ?thesis using Some Inr by (auto simp: verifyACI_def intro: inv_intros)
  qed
qed (auto simp: verifyACI_def intro: inv_intros)

definition okFetched :: "fetched \<Rightarrow> bool" where
  "okFetched x \<longleftrightarrow> (case x of UseCached \<Rightarrow> True | Fetched e aci cd \<Rightarrow> okACI aci)"

lemma inv_docker: "invIO I (fetchDocker f env url) okFetched"
  unfolding fetchDocker_def Let_def
  by (auto intro!: inv_intros simp: okFetched_def dest: ok_docker split: option.splits prod.splits sum.splits list.splits)

lemma inv_fetch: "invIO I (fetch f env appName aciURL ascURL asc etag) okFetched"
proof -
  define tail where "tail = (\<lambda>aci a cd. bindIO (verifyACI f env appName aci a) (\<lambda>entity. ret (Fetched entity aci cd)))"
  have tail: "invIO I (tail aci a cd) okFetched" for aci a cd
    unfolding tail_def by (rule invIO_bind [OF inv_verify]) (auto intro!: inv_intros simp: okFetched_def)
  have "okFetched UseCached" by (simp add: okFetched_def)
  then show ?thesis
    unfolding fetch_def tail_def [THEN fun_cong, THEN fun_cong, THEN fun_cong, symmetric]
    by (auto intro!: inv_intros tail inv_docker keep_keys split: option.splits prod.splits)
qed

lemma inv_storeACI: "okACI aci \<Longrightarrow> invIO I (storeACI env aciURL ascURL scheme latest aci cd) (\<lambda>_. True)"
  unfolding storeACI_def Let_def by (auto intro!: inv_intros inv_write)

lemma inv_cached [inv_intros]: "invIO I (cachedRemote f env url) (\<lambda>_. True)"
  unfolding cachedRemote_def GetRemote_def by (auto intro!: inv_intros inv_reads reads_query pureTx_queries split: option.splits)

lemma inv_fetchImageFrom [inv_intros]: "invIO I (fetchImageFrom f env appName aciURL ascURL scheme asc latest) (\<lambda>_. True)"
proof -
  define tail where "tail = (\<lambda>(rem :: Remote option) etag. bindIO (fetch f env appName aciURL ascURL asc etag) (\<lambda>x.
      case x of UseCached \<Rightarrow> (case rem of Some r \<Rightarrow> ret (r_BlobKey r) | None \<Rightarrow> panic ''asked to use cached image but remote is nil'')
      | Fetched entity aci cd \<Rightarrow> storeACI env aciURL ascURL scheme latest aci cd))"
  have tail: "invIO I (tail rem etag) (\<lambda>_. True)" for rem etag
    unfolding tail_def
    by (rule invIO_bind [OF inv_fetch]) (auto intro!: inv_intros inv_storeACI simp: okFetched_def split: fetched.splits option.splits)
  show ?thesis
    unfolding fetchImageFrom_def tail_def [THEN fun_cong, THEN fun_cong, symmetric]
    by (auto intro!: inv_intros tail split: option.splits prod.splits)
qed

lemma inv_single [inv_intros]: "invIO I (fetchSingleImage f env img asc discover) (\<lambda>_. True)"
proof -
  have "invIO I (fetchImageFromStore env img) (\<lambda>_. True)"
    unfolding fetchImageFromStore_def getStoreKeyFromApp_def by (auto intro!: inv_intros inv_reads reads_intros split: sum.splits)
  moreover have "invIO I (fetchByURL f env img u a) (\<lambda>_. True)" for u a
    unfolding fetchByURL_def fetchImageFromURL_def by (auto intro!: inv_intros)
  moreover have "invIO I (fetchImageFromEndpoints f env n ep a l) (\<lambda>_. True)" for n ep a l
    unfolding fetchImageFromEndpoints_def by (auto intro!: inv_intros split: list.splits)
  ultimately show ?thesis unfolding fetchSingleImage_def by (auto intro!: inv_intros split: option.splits sum.splits)
qed

lemma inv_addDeps [inv_intros]: "invIO I (addImageDeps env hash q seen) (\<lambda>_. True)"
  unfolding addImageDeps_def getImageDeps_def by (auto intro!: inv_intros inv_reads reads_intros split: sum.splits)

lemma inv_depLoop: "invIO I (depLoop fuel f env q seen) (\<lambda>_. True)"
proof (induction fuel arbitrary: q seen)
  case (Suc fuel)
  then show ?case by (auto intro!: inv_intros split: list.splits prod.splits)
qed (auto intro: inv_intros)

lemma inv_fetchImage: "invIO I (fetchImage fuel f env img asc discover) (\<lambda>_. True)"
  unfolding fetchImage_def fetchImageDeps_def by (auto intro!: inv_intros inv_depLoop split: prod.splits)

end

section \<open>Which images get into the store\<close>

lemma WriteRemote_imagesOK:
  assumes run: "WriteRemote rm s = (s', r)" and ok: "imagesOK cd D s"
  shows "imagesOK cd D s'"
proof -
  have tx: "txDB t' ''aciinfo'' = txDB t ''aciinfo''" if "WriteRemote_tx rm t = (t', x)" for t t' x
    using that by (auto simp: WriteRemote_tx_def txExec_def bindIO_def onTable_def split: option.splits sum.splits if_splits)
  have "DB_Do1 (WriteRemote_tx rm) s = (s', r)" using run by (simp add: WriteRemote_def)
  from DB_Do1_outcome [OF this] DB_Do1_touches [OF this]
  have "committed s' ''aciinfo'' = committed s ''aciinfo''" "blobAt s' = blobAt s" "manifestAt s' = manifestAt s"
    by (auto dest: tx split: if_splits)
  then show ?thesis using ok by (simp add: imagesOK_def stocked_def holdsACI_def)
qed

lemma WriteRemote_healthy: "WriteRemote rm s = (s', r) \<Longrightarrow> healthy s' = healthy s"
  using DB_Do1_touches healthy_touches by (metis WriteRemote_def)

lemma WriteACI_healthy:
  assumes "WriteACI cd kenv t aci latest s = (s', r)" and "healthy s"
  shows "healthy s'"
  using WriteACI_cases [OF assms(1)]
proof
  assume "\<exists>d im key. decompress cd aci = Inr d \<and> ManifestFromImage cd d = Inr im \<and> keyToString (imageSum cd d) = Some key \<and>
    withKeyLock ''error locking image: '' (ExclusiveKeyLock kenv ImageLocks key) (importImage cd t latest d im key) s = (s', r)"
  then obtain d im key where "withKeyLock ''error locking image: '' (ExclusiveKeyLock kenv ImageLocks key) (importImage cd t latest d im key) s = (s', r)"
    by blast
  from withKeyLock_outcome [OF this] show ?thesis
  proof
    assume "\<exists>s1 s2 x. unchanged s s1 \<and> importImage cd t latest d im key s1 = (s2, x) \<and> unchanged s2 s' \<and> (r = x \<or> isl r)"
    then obtain s1 s2 x where s: "unchanged s s1" "importImage cd t latest d im key s1 = (s2, x)" "unchanged s2 s'" by blast
    then have h: "healthy s1" using assms(2) unchanged_healthy by blast
    then have "healthy s2" using importImage_outcome [OF s(2) h] healthy_touches by blast
    then show ?thesis using unchanged_healthy [OF s(3)] by simp
  qed (use assms(2) unchanged_healthy in blast)
qed (use assms(2) in simp)

text \<open>
  An image file that may be stored: there is nothing to verify with, it is signed by a key trusted for the
  name in its manifest, or it was converted from a docker image.
\<close>

definition signedBy :: "fetchEnv \<Rightarrow> ksConfig \<Rightarrow> fileTree \<Rightarrow> string \<Rightarrow> bool" where
  "signedBy env ks t aci \<longleftrightarrow> (\<exists>im sig ent. ManifestFromImage (codec env) aci = Inr im \<and>
     checkSignature (pgp env) ks (im_Name im) aci sig t = Inr ent)"

definition converted :: "fetchEnv \<Rightarrow> string \<Rightarrow> bool" where
  "converted env aci \<longleftrightarrow> (\<exists>url user password rest. dockerConvert env url user password = Inr (Inr aci # rest))"

definition mayStore :: "fetcher \<Rightarrow> fetchEnv \<Rightarrow> fileTree \<Rightarrow> string \<Rightarrow> bool" where
  "mayStore f env t aci \<longleftrightarrow> (case f_ks f of None \<Rightarrow> True | Some ks \<Rightarrow> signedBy env ks t aci) \<or> converted env aci"

definition fetchable :: "fetcher \<Rightarrow> fetchEnv \<Rightarrow> fileTree \<Rightarrow> string set \<Rightarrow> string set" where
  "fetchable f env t D = D \<union> {d. \<exists>aci. mayStore f env t aci \<and> decompress (codec env) aci = Inr d}"

definition storesOnly :: "fetcher \<Rightarrow> fetchEnv \<Rightarrow> fileTree \<Rightarrow> string set \<Rightarrow> fetchWorld \<Rightarrow> bool" where
  "storesOnly f env t D w \<longleftrightarrow> \<not> gf_TrustKeysFromHttps (gflags env) \<and> keyTree w = t \<and> healthy (fstore w) \<and>
     collisionFree (codec env) (fetchable f env t D) \<and> imagesOK (codec env) (fetchable f env t D) (fstore w)"

interpretation stores: fetch_invariant "storesOnly f env t D" f env "mayStore f env t" for f env t D
proof
  show "storesOnly f env t D (w\<lparr>fstore := s\<rparr>)" if "storesOnly f env t D w" "unchanged (fstore w) s" for w s
    using that imagesOK_unchanged unchanged_healthy by (auto simp: storesOnly_def unchanged_def)
  show "storesOnly f env t D (w\<lparr>fstore := s\<rparr>)" if "storesOnly f env t D w" "WriteRemote rm (fstore w) = (s, r)" for w s rm r
    using that WriteRemote_imagesOK WriteRemote_healthy by (auto simp: storesOnly_def)
  show "storesOnly f env t D (w\<lparr>fstore := s\<rparr>)"
    if w: "storesOnly f env t D w" "mayStore f env t aci" "WriteACI (codec env) (others env) n aci latest (fstore w) = (s, r)" for w s aci n latest r
  proof -
    have "\<forall>d. decompress (codec env) aci = Inr d \<longrightarrow> d \<in> fetchable f env t D" using w(2) by (auto simp: fetchable_def)
    then show ?thesis using WriteACI_imagesOK [OF w(3)] WriteACI_healthy [OF w(3)] w(1) by (simp add: storesOnly_def)
  qed
  show "invIO (storesOnly f env t D) (fetchKeys env appName) (\<lambda>_. True)" for appName
    by (rule invIOI) (auto simp: storesOnly_def fetchKeys_def ret_def)
qed (auto simp: storesOnly_def mayStore_def signedBy_def converted_def split: option.splits)


section \<open>Which requests are made\<close>

definition lawfulRequest :: "fetcher \<Rightarrow> fetchEnv \<Rightarrow> httpReq \<Rightarrow> bool" where
  "lawfulRequest f env r \<longleftrightarrow> (\<exists>url. r = plainRequest url) \<or> (\<exists>u etag. urlParse env (rq_url r) = Some u \<and> r = aciRequest f env (rq_url r) u etag)"

definition asksLawfully :: "fetcher \<Rightarrow> fetchEnv \<Rightarrow> httpReq list \<Rightarrow> fetchWorld \<Rightarrow> bool" where
  "asksLawfully f env old w \<longleftrightarrow> (\<exists>new. requests w = old @ new \<and> list_all (lawfulRequest f env) new)"

lemma asks_more: "asksLawfully f env old w \<Longrightarrow> lawfulRequest f env r \<Longrightarrow> asksLawfully f env old (w\<lparr>requests := requests w @ [r]\<rparr>)"
  by (fastforce simp: asksLawfully_def)

interpretation asks: fetch_invariant "asksLawfully f env old" f env "\<lambda>_. True" for f env old
proof
  have plain: "asksLawfully f env old (w\<lparr>requests := requests w @ [plainRequest url]\<rparr>)" if "asksLawfully f env old w" for w url
    using asks_more [OF that] by (auto simp: lawfulRequest_def)
  then show "asksLawfully f env old (w\<lparr>requests := requests w @ [plainRequest url]\<rparr>)" if "asksLawfully f env old w" for w url
    using that .
  show "asksLawfully f env old (w\<lparr>requests := requests w @ [aciRequest f env url u etag]\<rparr>)" if "asksLawfully f env old w" "urlParse env url = Some u" for w url u etag
    by (rule asks_more [OF that(1)]) (use that(2) in \<open>auto simp: lawfulRequest_def aciRequest_def\<close>)
  show "invIO (asksLawfully f env old) (fetchKeys env appName) (\<lambda>_. True)" for appName
  proof -
    have "invIO (asksLawfully f env old) (addKeys (pgp env) env (gflags env) pkls appName False True False) (\<lambda>_. True)" for pkls
      by (rule inv_addKeys) (use plain in \<open>auto simp: asksLawfully_def\<close>)
    moreover have "invIO (asksLawfully f env old) (getPubKeyLocations env appName False) (\<lambda>_. True)"
      by (rule inv_addKeys) (use plain in \<open>auto simp: asksLawfully_def\<close>)
    ultimately show ?thesis unfolding fetchKeys_def by (auto intro!: inv_intros split: sum.splits)
  qed
qed (auto simp: asksLawfully_def)

lemma header_sources:
  assumes "(k, v) \<in> set (rq_headers (aciRequest f env url u etag))"
  shows "k = ''User-Agent'' \<or> k = ''If-None-Match'' \<or>
    (\<exists>h vs. Scheme u = ''https'' \<and> f_headers f (Host u) = Some h \<and> (k, vs) \<in> set h \<and> v \<in> set vs)"
proof -
  have "(k, v) \<in> set (credentials f u) \<or> k = ''If-None-Match'' \<or> k = ''User-Agent''"
    using assms by (cases "etag = ''''") (simp_all add: aciRequest_def, blast+)
  moreover have "\<exists>h vs. Scheme u = ''https'' \<and> f_headers f (Host u) = Some h \<and> (k, vs) \<in> set h \<and> v \<in> set vs"
    if c: "(k, v) \<in> set (credentials f u)"
  proof -
    obtain h where "Scheme u = ''https''" "f_headers f (Host u) = Some h" "(k, v) \<in> set (concat (map (\<lambda>(k, v). map (Pair k) v) h))"
      using c by (cases "Scheme u = ''https''"; cases "f_headers f (Host u)") (simp_all add: credentials_def)
    then show ?thesis by auto
  qed
  ultimately show ?thesis by blast
qed


text \<open>What a fetch keeps if it makes no requests: the clock and the store may change.\<close>

definition quiet :: "httpReq list \<Rightarrow> fetchWorld \<Rightarrow> bool" where
  "quiet reqs w \<longleftrightarrow> requests w = reqs"

lemma quiet_steps [inv_intros]:
  "invIO (quiet reqs) (onStore m) (\<lambda>_. True)" "invIO (quiet reqs) (timeNow env) (\<lambda>_. True)"
  "invIO (quiet reqs) (openAsc f env asc) (\<lambda>_. True)" "invIO (quiet reqs) (localPath env img u) (\<lambda>_. True)"
  "invIO (quiet reqs) (CheckSignature env ks name dat a) (\<lambda>_. True)"
  by (rule invIOI; auto simp: quiet_def onStore_def timeNow_def openAsc_def localPath_def CheckSignature_def io_simps
    split: prod.splits if_splits sum.splits option.splits)+

text \<open>A URL of a file keeps its scheme when it is printed and parsed, also with the suffix of a signature.\<close>

definition keepsFileScheme :: "fetchEnv \<Rightarrow> bool" where
  "keepsFileScheme env \<longleftrightarrow> (\<forall>u v. Scheme u = ''file'' \<longrightarrow>
     (urlParse env (urlText env u) = Some v \<or> urlParse env (ascURLFromImgURL (urlText env u)) = Some v) \<longrightarrow> Scheme v = ''file'')"

lemma quiet_verify [inv_intros]:
  "invIO (quiet reqs) (precheck f env '''' b a) (\<lambda>_. True)" "invIO (quiet reqs) (verifyACI f env '''' aci a) (\<lambda>_. True)"
  "invIO (quiet reqs) (retrySignatureFile f env url False a) (\<lambda>_. True)"
  by (auto simp: precheck_def retrySignatureFile_def verifyACI_def intro!: inv_intros split: option.splits sum.splits)

lemma quiet_fetch_file:
  assumes "keepsFileScheme env" and "Scheme u = ''file''"
  shows "invIO (quiet reqs) (fetch f env '''' (urlText env u) (ascURLFromImgURL (urlText env u)) asc etag) (\<lambda>_. True)"
proof (cases "urlParse env (urlText env u)")
  case (Some v)
  have v: "Scheme v = ''file''" using assms Some unfolding keepsFileScheme_def by blast
  have parse: "Scheme v = ''file''" if "urlParse env (ascURLFromImgURL (urlText env u)) = Some v" for v
    using assms that unfolding keepsFileScheme_def by blast
  have sig: "invIO (quiet reqs) (getSignature f env (ascURLFromImgURL (urlText env u)) asc) (\<lambda>r. \<not> fst r)"
    unfolding getSignature_def using parse by (intro inv_intros) auto
  have aci: "invIO (quiet reqs) (getACIFile f env v url etag) (\<lambda>_. True)" for url
    using v by (auto simp: getACIFile_def intro!: inv_intros split: sum.splits)
  have run: "fetch f env '''' (urlText env u) (ascURLFromImgURL (urlText env u)) asc etag =
    bindIO (getSignature f env (ascURLFromImgURL (urlText env u)) asc) (\<lambda>(retrySignature, ascFile1).
    bindIO (precheck f env '''' retrySignature ascFile1) (\<lambda>_.
    bindIO (getACIFile f env v (urlText env u) etag) (\<lambda>r.
    case r of
      None \<Rightarrow> ret UseCached
    | Some (aci, cd) \<Rightarrow>
        bindIO (retrySignatureFile f env (ascURLFromImgURL (urlText env u)) retrySignature ascFile1) (\<lambda>ascFile.
        bindIO (verifyACI f env '''' aci ascFile) (\<lambda>entity. ret (Fetched entity aci cd))))))"
    using Some v by (simp add: fetch_def fetchKeys_def bindIO_ret)
  show ?thesis unfolding run
  proof (rule invIO_bind [OF sig])
    fix r :: "bool \<times> string option" assume "\<not> fst r"
    then show "invIO (quiet reqs) (case r of (retrySignature, ascFile1) \<Rightarrow>
      bindIO (precheck f env '''' retrySignature ascFile1) (\<lambda>_.
      bindIO (getACIFile f env v (urlText env u) etag) (\<lambda>r.
      case r of
        None \<Rightarrow> ret UseCached
      | Some (aci, cd) \<Rightarrow>
          bindIO (retrySignatureFile f env (ascURLFromImgURL (urlText env u)) retrySignature ascFile1) (\<lambda>ascFile.
          bindIO (verifyACI f env '''' aci ascFile) (\<lambda>entity. ret (Fetched entity aci cd)))))) (\<lambda>_. True)"
      by (cases r) (simp, intro inv_intros aci; simp)
  qed
qed (auto simp: fetch_def intro: inv_intros)

lemma local_remote: "f_local f \<Longrightarrow> invIO (quiet reqs) (cachedRemote f env url) (\<lambda>r. snd r \<noteq> None)"
  unfolding cachedRemote_def by (auto intro!: inv_intros split: option.splits)

lemma quiet_fromURL:
  assumes "keepsFileScheme env" and "f_local f"
  shows "invIO (quiet reqs) (fetchImageFromURL f env (urlText env u) (Scheme u) asc latest) (\<lambda>_. True)"
proof (cases "Scheme u = ''file''")
  case True
  have "invIO (quiet reqs) (storeACI env a b c l aci cd) (\<lambda>_. True)" for a b c l aci cd
    unfolding storeACI_def Let_def by (auto intro!: inv_intros)
  then show ?thesis using quiet_fetch_file [OF assms(1) True] True
    unfolding fetchImageFromURL_def fetchImageFrom_def by (auto intro!: inv_intros split: fetched.splits)
next
  case False
  have "invIO (quiet reqs) (bindIO (cachedRemote f env url) (\<lambda>(rem, hit). case hit of Some key \<Rightarrow> ret key | None \<Rightarrow> m rem)) (\<lambda>_. True)" for url m
    by (rule invIO_bind [OF local_remote [OF assms(2)]]) (auto intro!: inv_intros)
  then show ?thesis using False assms(2) unfolding fetchImageFromURL_def fetchImageFrom_def by (auto intro!: inv_intros)
qed

lemma quiet_single:
  assumes "keepsFileScheme env" and "f_local f"
  shows "invIO (quiet reqs) (fetchSingleImage f env img asc discover) (\<lambda>_. True)"
proof -
  have "invIO (quiet reqs) (fetchImageFromStore env img) (\<lambda>_. True)"
    unfolding fetchImageFromStore_def getStoreKeyFromApp_def by (auto intro!: inv_intros split: sum.splits)
  moreover have "invIO (quiet reqs) (fetchByURL f env img u a) (\<lambda>_. True)" for u a
    unfolding fetchByURL_def by (intro invIO_if quiet_fromURL [OF assms] invIO_stop)
  ultimately show ?thesis using assms(2) unfolding fetchSingleImage_def by (auto intro!: inv_intros split: option.splits)
qed

text \<open>
  C25. A local fetch makes no requests, for the image and for its dependencies, whatever it finds in
  the store.
\<close>

theorem local_fetch_asks_nobody:
  assumes "keepsFileScheme env" and "f_local f"
  shows "requests (fst (fetchImage fuel f env img asc discover w)) = requests w"
proof -
  have deps: "invIO (quiet reqs) (addImageDeps env hash q seen) (\<lambda>_. True)" for reqs hash q seen
    unfolding addImageDeps_def getImageDeps_def by (auto intro!: inv_intros split: sum.splits)
  have "invIO (quiet reqs) (depLoop n f env q seen) (\<lambda>_. True)" for reqs n q seen
    by (induction n arbitrary: q seen) (auto intro!: inv_intros deps quiet_single [OF assms] split: list.splits prod.splits)
  then have "invIO (quiet (requests w)) (fetchImage fuel f env img asc discover) (\<lambda>_. True)"
    unfolding fetchImage_def fetchImageDeps_def by (auto intro!: inv_intros deps quiet_single [OF assms] split: prod.splits)
  from invIO_state [OF this, of w] show ?thesis by (simp add: quiet_def)
qed

section \<open>Caching\<close>

lemma atoi_bounds: "atoi s = Some i \<Longrightarrow> - (2 ^ 63) \<le> i \<and> i < 2 ^ 63"
  by (auto simp: atoi_def Let_def split: list.splits if_splits)

lemma maxAgeStep_bounds: "0 \<le> m \<and> m < 2 ^ 63 \<Longrightarrow> 0 \<le> maxAgeStep m part \<and> maxAgeStep m part < 2 ^ 63"
  using atoi_bounds by (auto simp: maxAgeStep_def Let_def split: option.splits)

lemma getMaxAge_bounds: "0 \<le> getMaxAge h \<and> getMaxAge h < 2 ^ 63"
proof -
  have "0 \<le> m \<and> m < 2 ^ 63 \<Longrightarrow> 0 \<le> foldl maxAgeStep m ps \<and> foldl maxAgeStep m ps < 2 ^ 63" for m ps
  proof (induction ps arbitrary: m)
    case (Cons p ps)
    then show ?case using maxAgeStep_bounds [of m p] by simp
  qed simp
  from this [of 0] show ?thesis by (simp add: getMaxAge_def)
qed

lemma wholeSeconds_less: "0 < m \<Longrightarrow> wholeSeconds d < m \<longleftrightarrow> d < m * 1000000000"
  by (auto simp: wholeSeconds_def)


section \<open>Dependencies\<close>

definition depName :: "Dependency \<Rightarrow> string option" where
  "depName d = (case NewApp (ImageName d) (Labels_ToMap (dep_Labels d)) of Inl _ \<Rightarrow> None | Inr app \<Rightarrow> Some (App_String app))"

lemma addDeps_new:
  "addDeps hash deps q seen = (q', seen', err) \<Longrightarrow>
     \<exists>new. q' = q @ new \<and> length new \<le> length deps \<and> (\<forall>x \<in> set new. \<exists>d \<in> set deps. depName d = Some x)"
proof (induction deps arbitrary: q seen)
  case (Cons d deps)
  show ?case
  proof (cases "NewApp (ImageName d) (Labels_ToMap (dep_Labels d))")
    case (Inl e)
    then show ?thesis using Cons.prems by auto
  next
    case (Inr app)
    then have name: "depName d = Some (App_String app)" by (simp add: depName_def)
    show ?thesis
    proof (cases "App_String app \<in> set seen")
      case True
      then show ?thesis using Cons.prems Inr name by (intro exI [of _ "[App_String app]"]) auto
    next
      case False
      then obtain new where "q' = (q @ [App_String app]) @ new" "length new \<le> length deps" "\<forall>x \<in> set new. \<exists>d \<in> set deps. depName d = Some x"
        using Cons.prems Inr Cons.IH [of "q @ [App_String app]" "App_String app # seen"] by auto
      then show ?thesis using name by (intro exI [of _ "App_String app # new"]) auto
    qed
  qed
qed simp

text \<open>The nodes of a tree of height \<open>r\<close> in which every node has at most \<open>b\<close> children.\<close>

primrec treeSize :: "nat \<Rightarrow> nat \<Rightarrow> nat" where
  "treeSize b 0 = 1"
| "treeSize b (Suc r) = 1 + b * treeSize b r"

lemma treeSize_mono: "r \<le> r' \<Longrightarrow> treeSize b r \<le> treeSize b r'"
proof (induction r' arbitrary: r)
  case (Suc r')
  have "treeSize b r0 \<le> b * treeSize b r0 + 1" for r0
  proof (cases b)
    case 0
    then show ?thesis by (cases r0) auto
  qed simp
  then have "treeSize b r' \<le> treeSize b (Suc r')" by simp
  with Suc show ?case by (metis le_SucE le_trans order_refl)
qed simp

definition work :: "nat \<Rightarrow> (string \<Rightarrow> nat) \<Rightarrow> string list \<Rightarrow> nat" where
  "work b rank q = sum_list (map (\<lambda>x. treeSize b (rank x)) q)"

lemma work_children:
  assumes "length new \<le> b" and "\<forall>x \<in> set new. rank x < r"
  shows "work b rank new < treeSize b r"
proof (cases r)
  case 0
  then have "new = []" using assms(2) by (cases new) auto
  then show ?thesis using 0 by (simp add: work_def)
next
  case (Suc r')
  have "work b rank new \<le> sum_list (map (\<lambda>_. treeSize b r') new)"
    unfolding work_def using assms(2) Suc by (intro sum_list_mono treeSize_mono) auto
  also have "\<dots> \<le> b * treeSize b r'" using assms(1) by (simp add: sum_list_triv)
  finally show ?thesis using Suc by simp
qed

text \<open>
  No cycles: in the states that satisfy \<open>J\<close>, which fetching keeps, an image has at most \<open>b\<close> dependencies, and
  they have a lower rank than the name it was fetched by.
\<close>

definition noCycles :: "(fetchWorld \<Rightarrow> bool) \<Rightarrow> (string \<Rightarrow> nat) \<Rightarrow> nat \<Rightarrow> fetcher \<Rightarrow> fetchEnv \<Rightarrow> bool" where
  "noCycles J rank b f env \<longleftrightarrow>
     (\<forall>img. invIO J (fetchSingleImage f env img '''' True) (\<lambda>_. True)) \<and> (\<forall>hash. invIO J (getImageDeps env hash) (\<lambda>_. True)) \<and>
     (\<forall>w w1 w2 img hash deps. J w \<longrightarrow> fetchSingleImage f env img '''' True w = (w1, Inr hash) \<longrightarrow>
        getImageDeps env hash w1 = (w2, Inr deps) \<longrightarrow>
        length deps \<le> b \<and> (\<forall>d \<in> set deps. \<forall>x. depName d = Some x \<longrightarrow> rank x < rank img))"

lemma addImageDeps_cases:
  assumes "addImageDeps env hash q seen w = (w', r)"
  shows "isl r \<or> (\<exists>new seen' err. r = Inr (q @ new, seen', err) \<and>
    (new = [] \<or> (\<exists>deps. getImageDeps env hash w = (w', Inr deps) \<and> length new \<le> length deps \<and> (\<forall>x \<in> set new. \<exists>d \<in> set deps. depName d = Some x))))"
  using assms unfolding addImageDeps_def
proof (rule tryIO_cases)
  fix a s1 assume d: "getImageDeps env hash w = (s1, Inr a)" and run: "(case Inr a of Inl e \<Rightarrow> ret (q, seen, Some e) | Inr dependencies \<Rightarrow> ret (addDeps hash dependencies q seen)) s1 = (w', r)"
  obtain q' seen' err where add: "addDeps hash a q seen = (q', seen', err)" by (metis prod_cases3)
  then have "w' = s1" "r = Inr (q', seen', err)" using run by (simp_all add: ret_def)
  then show ?thesis using addDeps_new [OF add] d by blast
qed (auto simp: ret_def)

lemma depLoop_step:
  assumes cyc: "noCycles J rank b f env" and "J w" and one: "fetchSingleImage f env img '''' True w = (w1, Inr hash)"
    and add: "addImageDeps env hash rest seen w1 = (w2, Inr (q', seen', err))"
  shows "J w2 \<and> work b rank q' < work b rank (img # rest)"
proof -
  have "J w1" using cyc assms(2) one unfolding noCycles_def by (blast dest: invIOD)
  have "invIO J (addImageDeps env hash rest seen) (\<lambda>_. True)"
    using cyc unfolding noCycles_def addImageDeps_def by (auto intro!: inv_intros split: sum.splits)
  then have "J w2" using \<open>J w1\<close> add by (blast dest: invIOD)
  obtain new where q': "q' = rest @ new" and new: "new = [] \<or> (\<exists>deps. getImageDeps env hash w1 = (w2, Inr deps) \<and>
      length new \<le> length deps \<and> (\<forall>x \<in> set new. \<exists>d \<in> set deps. depName d = Some x))"
    using addImageDeps_cases [OF add] by auto
  have "work b rank new < treeSize b (rank img)"
    using new
  proof
    assume "\<exists>deps. getImageDeps env hash w1 = (w2, Inr deps) \<and> length new \<le> length deps \<and> (\<forall>x \<in> set new. \<exists>d \<in> set deps. depName d = Some x)"
    then obtain deps where deps: "getImageDeps env hash w1 = (w2, Inr deps)" "length new \<le> length deps" "\<forall>x \<in> set new. \<exists>d \<in> set deps. depName d = Some x"
      by blast
    moreover have "length deps \<le> b" "\<forall>d \<in> set deps. \<forall>x. depName d = Some x \<longrightarrow> rank x < rank img"
      using cyc assms(2) one deps(1) unfolding noCycles_def by blast+
    ultimately show ?thesis by (intro work_children) auto
  qed (use work_children [of "[]" b rank "rank img"] in simp)
  then show ?thesis using \<open>J w2\<close> q' by (simp add: work_def)
qed

lemma depLoop_ends:
  assumes "noCycles J rank b f env" and "J w" and "work b rank q < fuel"
  shows "snd (depLoop fuel f env q seen w) \<noteq> Inr None"
  using assms(2,3)
proof (induction fuel arbitrary: q seen w)
  case (Suc fuel)
  show ?case
  proof (cases q)
    case (Cons img rest)
    obtain w1 r1 where one: "fetchSingleImage f env img '''' True w = (w1, r1)" by fastforce
    show ?thesis
    proof (cases r1)
      case (Inr hash)
      obtain w2 r2 where add: "addImageDeps env hash rest seen w1 = (w2, r2)" by fastforce
      show ?thesis
      proof (cases r2)
        case (Inr x)
        obtain q' seen' err where x: "x = (q', seen', err)" by (metis prod_cases3)
        have "J w2" "work b rank q' < fuel"
          using depLoop_step [OF assms(1) Suc.prems(1) one [unfolded \<open>r1 = Inr hash\<close>] add [unfolded Inr x]] Suc.prems(2) Cons by simp_all
        then show ?thesis using Suc.IH one add \<open>r1 = Inr hash\<close> Inr x Cons by (simp add: bindIO_def)
      qed (use one add Inr Cons in \<open>simp add: bindIO_def\<close>)
    qed (use one Cons in \<open>simp add: bindIO_def\<close>)
  qed (simp add: ret_def)
qed simp


section \<open>Hashes\<close>

text \<open>Keys of the store are hashes.\<close>

lemma store_key_is_hash:
  assumes "keyToString k = Some key"
  shows "\<exists>h. NewHash key = Inr h \<and> Hash_String h = key"
proof -
  let ?v = "take 64 (hexEncode k)"
  have len: "length k = 64" and key: "key = ''sha512'' @ CHR ''-'' # ?v" using assms
    by (auto simp: keyToString_def lenKey_def lenHash_def hashPrefix_def split: if_splits)
  have "CHR ''-'' \<notin> set (hexEncode k)" using hexEncode_no_dash [of k] by (metis (mono_tags, lifting) mem_Collect_eq set_filter)
  then have dash: "CHR ''-'' \<notin> set ?v" by (meson in_set_takeD)
  have "?v \<noteq> []" using len by (metis length_hexEncode list.size(3) mult_is_0 take_eq_Nil2 zero_neq_numeral)
  moreover have "splitOn CHR ''-'' key = [''sha512'', ?v]"
    unfolding key using dash splitOn_append [of "CHR ''-''" "''sha512''" ?v] by (simp add: splitOn_no_sep)
  ultimately show ?thesis by (simp add: NewHash_def Hash_assertValid_def Hash_String_def Let_def key)
qed

text \<open>
  C34. Looking an image up by its hash is type correct: what \<^verbatim>\<open>ResolveKey\<close> returns is a well-formed hash that begins
  with the one asked for, so the conversion that panics if it fails never does.
\<close>

theorem found_hashes_are_well_formed:
  assumes "imagesOK (codec env) D (fstore w)" and "NewHash img = Inr h0" and "ResolveKey img (fstore w) = (s', Inr key)"
  shows "\<exists>w' h. findImage fuel f env img asc discover w = (w', Inr (Some h)) \<and> Hash_String h = key \<and> hasPrefix key (take lenKey img)"
proof -
  obtain infos where infos: "holdsACI (committed (fstore w)) infos" "\<forall>i \<in> set infos. stocked (codec env) D (fstore w) i"
    using assms(1) by (auto simp: imagesOK_def)
  obtain i where i: "matches infos img = [i]" "BlobKey i = key" using ResolveKey_found [OF assms(3) infos(1)] by blast
  then have "i \<in> set (matches infos img)" by simp
  then have "i \<in> set infos" "hasPrefix key (take lenKey img)" using i(2) by (auto simp: matches_def)
  moreover from this obtain d where "keyToString (imageSum (codec env) d) = Some key"
    using infos(2) i(2) by (auto simp: stocked_def)
  moreover from store_key_is_hash [OF this] obtain h where "NewHash key = Inr h" "Hash_String h = key" by blast
  ultimately show ?thesis using assms(2,3)
    by (auto simp: findImage_def onStore_def bindIO_def mapErr_def ret_def)
qed

end
