(* ===== verification/Image_Fetch_Runs.thy ===== *)
theory Image_Fetch_Runs
  imports Image_Fetch_Facts
begin

text \<open>
  Runs of the fetcher on small examples: what the general theorems say of them, and where the code does not do what
  it is meant to.
\<close>

section \<open>A small network\<close>

definition demoParse :: "string \<Rightarrow> urlT option" where
  "demoParse s =
     (let scheme = takeWhile (\<lambda>c. c \<noteq> CHR '':'') s; rest = drop (length scheme) s in
      if hasPrefix rest ''://''
      then Some \<lparr>Scheme = scheme, Host = takeWhile (\<lambda>c. c \<noteq> CHR ''/'') (drop 3 rest), Path = dropWhile (\<lambda>c. c \<noteq> CHR ''/'') (drop 3 rest), RawQuery = ''''\<rparr>
      else Some \<lparr>Scheme = '''', Host = '''', Path = s, RawQuery = ''''\<rparr>)"

definition demoText :: "urlT \<Rightarrow> string" where
  "demoText u =
     (if Scheme u = '''' then Path u
      else Scheme u @ ''://'' @ Host u @ Path u @ (if RawQuery u = '''' then '''' else ''?'' @ RawQuery u))"

text \<open>The pages that are served, the files on the disk, the answer to a request for anything else, and the tag on discovery pages.\<close>

definition demoEnv :: "(string \<times> string) list \<Rightarrow> (string \<times> string) list \<Rightarrow> nat \<Rightarrow> string \<Rightarrow> imageCodec \<Rightarrow> fetchEnv" where
  "demoEnv pages disk status tag cdc =
     \<lparr>urlParse = demoParse, urlText = demoText,
      httpDo = \<lambda>_ r. Inr (case map_of pages (rq_url r) of
          Some b \<Rightarrow> \<lparr>StatusCode = 200, h_ETag = '''', h_CacheControl = '''', respBody = b, bodyErr = None\<rparr>
        | None \<Rightarrow> \<lparr>StatusCode = status, h_ETag = '''', h_CacheControl = '''', respBody = '''', bodyErr = None\<rparr>),
      metaTags = \<lambda>b. if b = ''page'' then [[\<lparr>Namespace = '''', attrKey = ''name'', attrVal = ''ac-discovery''\<rparr>,
        \<lparr>Namespace = '''', attrKey = ''content'', attrVal = tag\<rparr>]] else [],
      localFile = \<lambda>p. case map_of disk p of None \<Rightarrow> Inl OsErrNotExist | Some c \<Rightarrow> Inr c, tempErr = None,
      pgp = samplePgp, gflags = sampleFlags False, codec = cdc, others = \<lambda>_ _ k. k,
      statFile = \<lambda>p. if map_of disk p = None then Some OsErrNotExist else None, absPath = Inr,
      tmpFileErr = None, tmpDirErr = None, nowAt = \<lambda>n. int n,
      dockerTag = \<lambda>_ _. '''', GetIndexName = \<lambda>_. '''', dockerConvert = \<lambda>r _ _. if r = ''reg/app'' then Inr [Inr ''example.com/evil''] else Inl (Msg ''no such image''),
      defaultArch = ''amd64'', defaultOS = ''linux'', rktVersion = ''0.8''\<rparr>"

definition demoFetcher :: "ksConfig option \<Rightarrow> bool \<Rightarrow> bool \<Rightarrow> fetcher" where
  "demoFetcher ks loc deps =
     \<lparr>f_ks = ks, f_headers = \<lambda>_. None, f_dockerAuth = \<lambda>_. None, f_insecureSkipVerify = (ks = None), f_local = loc, f_withDeps = deps\<rparr>"

definition demoWorld :: "fileTree \<Rightarrow> fetchWorld" where
  "demoWorld t = \<lparr>requests = [], keyTree = t, typed = [], fstore = sampleStore, ticks = 0\<rparr>"

section \<open>Unsigned and shadowed images\<close>

definition noKeys :: fileTree where
  "noKeys = \<lparr>treeRoot = TDir [], treeErr = \<lambda>_ _. None, treeTorn = ''''\<rparr>"

definition evilKey :: string where
  "evilKey = ''sha512-'' @ concat (replicate 32 ''10'')"


text \<open>
  A server can crash the program: an image that was never cached is asked for without conditions, and if
  the answer is that it has not been modified, \<^verbatim>\<open>fetchImageFrom\<close> panics.
\<close>

theorem unexpected_not_modified_panics:
  "snd (fetchImage 1 (demoFetcher None False False) (demoEnv [] [] 304 '''' sampleCodec) ''https://example.com/app.aci'' '''' True (demoWorld noKeys)) =
     Inl (Panic ''asked to use cached image but remote is nil'')"
  by code_simp

text \<open>
  A local file shadows a URL: if the path of an \<^verbatim>\<open>https\<close> URL happens to exist on the disk, that file is
  stored and no request is made.
\<close>

theorem local_file_shadows_url:
  "case fetchImage 1 (demoFetcher None False False) (demoEnv [(''https://example.com/app.aci'', ''remote'')] [(''/app.aci'', ''a'')] 404 '''' sampleCodec)
     ''https://example.com/app.aci'' '''' True (demoWorld noKeys) of
     (w, r) \<Rightarrow> r = Inr (Some sampleKey) \<and> requests w = [] \<and> snd (ReadStream (\<lambda>_ _ k. k) sampleKey (fstore w)) = Inr ''a''"
  by code_simp

text \<open>An image in the store whose manifest names itself as a dependency.\<close>

definition selfCodec :: imageCodec where
  "selfCodec = sampleCodec\<lparr>unmarshal := \<lambda>d. Inr ((plainManifest d)\<lparr>im_Dependencies := [\<lparr>ImageName = d, ImageID = None, dep_Labels = []\<rparr>]\<rparr>)\<rparr>"

definition selfWorld :: fetchWorld where
  "selfWorld = (demoWorld noKeys)\<lparr>fstore := fst (WriteACI sampleCodec (\<lambda>_ _ k. k) 7 ''a'' True sampleStore)\<rparr>"

text \<open>
  A dependency that comes up again is fetched again: \<^verbatim>\<open>addImageDeps\<close> queues the name before it reports that
  it was seen, and its error is dropped. With an image that depends on itself, the only name there is has been
  fetched again and again and the loop still goes on.
\<close>

theorem repeated_dependency_is_fetched_again:
  "snd (fetchImage 3 (demoFetcher None True True) (demoEnv [] [] 404 '''' selfCodec) ''a'' '''' True selfWorld) = Inr None \<and>
   snd (fetchImage 1 (demoFetcher None True True) (demoEnv [] [] 404 '''' sampleCodec) ''a'' '''' True selfWorld) = Inr (Some sampleKey)"
  by code_simp

section \<open>The theorems at work\<close>

definition pickyCodec :: imageCodec where
  "pickyCodec = sampleCodec\<lparr>ManifestFromImage := \<lambda>d. if d \<in> {''example.com/app'', ''example.com/evil''} then Inr (plainManifest d) else Inl (Msg ''no manifest'')\<rparr>"

definition signedSite :: fetchEnv where
  "signedSite = demoEnv [(''https://h/app.aci'', ''example.com/app''), (''https://h/app.aci.asc'', ''signed example.com/app'')] [] 404 '''' pickyCodec"

definition appKey :: string where
  "appKey = ''sha512-'' @ concat (replicate 32 ''0f'')"


lemma ascURL_keeps_scheme: "\<exists>y. ascURLFromImgURL (''file://'' @ x) = ''file://'' @ y"
proof (cases "hasSuffix (''file://'' @ x) ''.aci''")
  case True
  then obtain t where t: "''file://'' @ x = t @ ''.aci''" by (auto simp: hasSuffix_iff)
  then have dot: "(''file://'' @ x) ! length t = CHR ''.''" by simp
  have "7 \<le> length t"
  proof (rule ccontr)
    assume "\<not> 7 \<le> length t"
    then consider "length t = 0" | "length t = 1" | "length t = 2" | "length t = 3" | "length t = 4" | "length t = 5" | "length t = 6" by linarith
    then show False using dot by cases (simp_all add: numeral_nat)
  qed
  have "t = take (length t) (''file://'' @ x)" using t by simp
  also have "\<dots> = take (length t) ''file://'' @ take (length t - length ''file://'') x" by (rule take_append)
  also have "take (length t) ''file://'' = ''file://''" by (rule take_all) (use \<open>7 \<le> length t\<close> in simp)
  finally have "t = ''file://'' @ take (length t - length ''file://'') x" .
  then show ?thesis unfolding ascURLFromImgURL_def t trimSuffix_append by (metis append.assoc)
qed (simp add: ascURLFromImgURL_def trimSuffix_def)

lemma demo_keepsFileScheme: "keepsFileScheme (demoEnv pages disk status tag cdc)"
proof -
  have parse: "Scheme v = ''file''" if "demoParse (''file://'' @ x) = Some v" for x v
    using that by (auto simp: demoParse_def Let_def hasPrefix_def split: if_splits)
  have "Scheme v = ''file''" if u: "Scheme u = ''file''"
    and v: "demoParse (demoText u) = Some v \<or> demoParse (ascURLFromImgURL (demoText u)) = Some v" for u v
  proof -
    obtain x where x: "demoText u = ''file://'' @ x" using u by (simp add: demoText_def)
    obtain y where "ascURLFromImgURL (demoText u) = ''file://'' @ y" using ascURL_keeps_scheme unfolding x by blast
    then show ?thesis using v parse unfolding x by metis
  qed
  then show ?thesis unfolding keepsFileScheme_def by (simp add: demoEnv_def)
qed

theorem local_fetch_asks_nobody_witness:
  "case fetchImage 1 (demoFetcher None True False) (demoEnv [] [(''/app.aci'', ''a'')] 404 '''' sampleCodec) ''/app.aci'' '''' True (demoWorld noKeys) of
     (w, r) \<Rightarrow> r = Inr (Some sampleKey) \<and> requests w = []"
proof -
  have "snd (fetchImage 1 (demoFetcher None True False) (demoEnv [] [(''/app.aci'', ''a'')] 404 '''' sampleCodec) ''/app.aci'' '''' True (demoWorld noKeys)) = Inr (Some sampleKey)"
    by code_simp
  moreover have "requests (fst (fetchImage 1 (demoFetcher None True False) (demoEnv [] [(''/app.aci'', ''a'')] 404 '''' sampleCodec) ''/app.aci'' '''' True (demoWorld noKeys))) = []"
    using local_fetch_asks_nobody [OF demo_keepsFileScheme, of "demoFetcher None True False"] by (simp add: demoFetcher_def demoWorld_def)
  ultimately show ?thesis by (simp add: case_prod_beta)
qed

lemma plain_images_no_cycles: "noCycles (\<lambda>_. True) (\<lambda>_. 0) 0 f (demoEnv pages disk status tag sampleCodec)"
proof -
  have "deps = []" if run: "getImageDeps (demoEnv pages disk status tag sampleCodec) hash w = (w', Inr deps)" for hash w w' deps
  proof -
    obtain im s s' key where "deps = im_Dependencies im" "GetImageManifest sampleCodec (\<lambda>_ _ k. k) key s = (s', Inr im)"
      using run by (auto simp: getImageDeps_def onStore_def demoEnv_def bindIO_def ret_def split: prod.splits sum.splits)
    moreover from this(2) obtain d where "im = plainManifest d"
      by (auto simp: GetImageManifest_def withKeyLock_def sampleCodec_def elim!: bindIO_Inr deferring_cases split: sum.splits simp: ret_def)
    ultimately show ?thesis by (simp add: plainManifest_def)
  qed
  then have "length deps \<le> 0 \<and> (\<forall>d \<in> set deps. \<forall>x. depName d = Some x \<longrightarrow> (0 :: nat) < 0)"
    if "getImageDeps (demoEnv pages disk status tag sampleCodec) hash w = (w', Inr deps)" for hash w w' deps
    using that by force
  then show ?thesis unfolding noCycles_def by (intro conjI allI impI invIOI; blast)
qed


theorem found_hashes_are_well_formed_witness:
  "\<exists>w' h. findImage 0 (demoFetcher None True False) (demoEnv [] [] 404 '''' sampleCodec) sampleKey '''' True selfWorld = (w', Inr (Some h)) \<and> Hash_String h = sampleKey"
proof -
  have "fstore selfWorld = runCmd sampleCodec sampleTrees (\<lambda>_ _ k. k) sampleRender (DoWrite ''a'' True 7) sampleStore"
    by (simp add: selfWorld_def dropResult_def)
  then have "imagesOK (codec (demoEnv [] [] 404 '''' sampleCodec)) {''a''} (fstore selfWorld)"
    using reachable_imagesOK [OF sample_reachable sample_collision] by (simp add: demoEnv_def)
  moreover have "snd (ResolveKey sampleKey (fstore selfWorld)) = Inr sampleKey" "\<not> isl (NewHash sampleKey)" by code_simp+
  ultimately show ?thesis
    using found_hashes_are_well_formed [of "demoEnv [] [] 404 '''' sampleCodec" "{''a''}" selfWorld sampleKey]
    by (metis isl_def prod.collapse sum.exhaust)
qed

end
