(* ===== verification/Spec2Isabelle.thy ===== *)
theory Spec2Isabelle
  imports Keylock Pod_GC Uid_Range Cgroup_Slices Metadata_Facts Image_Fetch_Runs
begin

text \<open>
  A verification development for rkt, a container runtime.

  \<^item> \<^verbatim>\<open>Rkt_Prelude\<close>: the parts of the Go string library the sources use, and the outcome
    monad \<open>io\<close> in which every operation with effects is written.
  \<^item> \<^verbatim>\<open>Kernel\<close>: directories, inodes, open files and advisory locks.
  \<^item> \<^verbatim>\<open>Flock\<close>: \<^verbatim>\<open>pkg/lock/dir.go\<close>.
\<close>

end
